(* ===== verification/Prelude.thy ===== *)
theory Prelude
  imports Main "HOL-Library.Word"
begin

text \<open>
  Shared vocabulary of the development: the byte type of the PIC16F877A (an \<open>unsigned char\<close>
  of XC8 is an \<open>8 word\<close>), C string literals as NUL-terminated byte lists, the sequencing
  combinator used to write straight-line C code in program order, and the generic word and
  list lemmas the component theories share.
\<close>

unbundle bit_operations_syntax

type_synonym byte = "8 word"

text \<open>Time is counted in microseconds from power-on.\<close>

type_synonym usec = nat

named_theorems frame_simps
  "facts saying which fields of the machine state an operation leaves alone"

named_theorems op_simps
  "closed forms of the driver operations, used instead of their definitions"

subsection \<open>C string literals\<close>

text \<open>
  A string literal \<open>"abc"\<close> of the source is the byte array of its characters followed by
  the NUL terminator. The sources only use ASCII literals.
\<close>

definition cstr :: "string \<Rightarrow> byte list" where
  "cstr s = map of_char s @ [0]"

text \<open>The characters of a literal, without its terminator.\<close>

definition bytes_of :: "string \<Rightarrow> byte list" where
  "bytes_of s = map of_char s"

lemma cstr_bytes_of: "cstr s = bytes_of s @ [0]"
  by (simp add: cstr_def bytes_of_def)

lemma bytes_of_simps [simp]:
  "bytes_of [] = []"
  "bytes_of (c # cs) = of_char c # bytes_of cs"
  by (simp_all add: bytes_of_def)

lemma length_bytes_of [simp]: "length (bytes_of s) = length s"
  by (simp add: bytes_of_def)

text \<open>
  The contents of a C string in memory: the bytes before the first NUL, i.e. what
  \<open>strcmp\<close> and \<open>LCD_String\<close> read.
\<close>

definition c_contents :: "byte list \<Rightarrow> byte list" where
  "c_contents bs = takeWhile (\<lambda>b. b \<noteq> 0) bs"

definition nul_terminated :: "byte list \<Rightarrow> bool" where
  "nul_terminated bs \<longleftrightarrow> 0 \<in> set bs"

lemma c_contents_append [simp]: "0 \<notin> set as \<Longrightarrow> c_contents (as @ 0 # xs) = as"
  by (induction as) (auto simp: c_contents_def)

text \<open>A terminated buffer is its contents, the NUL, and whatever follows.\<close>

lemma c_contents_split:
  assumes "nul_terminated bs"
  obtains rest where "bs = c_contents bs @ 0 # rest" "0 \<notin> set (c_contents bs)"
proof -
  let ?P = "\<lambda>b::byte. b \<noteq> 0"
  have "dropWhile ?P bs \<noteq> []" "hd (dropWhile ?P bs) = 0"
    using assms hd_dropWhile [of ?P bs] by (auto simp: nul_terminated_def dropWhile_eq_Nil_conv)
  then have "dropWhile ?P bs = 0 # tl (dropWhile ?P bs)"
    by (metis list.collapse)
  then have "bs = c_contents bs @ 0 # tl (dropWhile ?P bs)"
    by (metis c_contents_def takeWhile_dropWhile_id)
  moreover have "0 \<notin> set (c_contents bs)"
    by (auto simp: c_contents_def dest: set_takeWhileD)
  ultimately show ?thesis using that by blast
qed

subsection \<open>Straight-line code in program order\<close>

text \<open>
  \<open>seq [f\<^sub>1, \<dots>, f\<^sub>n] s\<close> runs the statements \<open>f\<^sub>1\<close> to \<open>f\<^sub>n\<close> on \<open>s\<close> in this order, as a
  block of C statements does.
\<close>

definition seq :: "('s \<Rightarrow> 's) list \<Rightarrow> 's \<Rightarrow> 's" where
  "seq fs s = fold (\<lambda>f. f) fs s"

lemma seq_simps [simp]:
  "seq [] s = s"
  "seq (f # fs) s = seq fs (f s)"
  by (simp_all add: seq_def)

lemma seq_append: "seq (fs @ gs) s = seq gs (seq fs s)"
  by (simp add: seq_def)

subsection \<open>Bits of a byte\<close>

text \<open>
  A C bit-field assignment \<open>RBn = v\<close> stores the least significant bit of \<open>v\<close> in bit \<open>n\<close>.
\<close>

definition assign_bit :: "nat \<Rightarrow> byte \<Rightarrow> byte \<Rightarrow> byte" where
  "assign_bit n v p = (if bit v 0 then set_bit n p else unset_bit n p)"

lemma bit_assign_bit:
  "bit (assign_bit n v p) m \<longleftrightarrow> (if m = n then m < 8 \<and> bit v 0 else bit p m)"
  by (auto simp: assign_bit_def bit_simps dest: bit_imp_le_length)

lemma bit_shift_and_1 [simp]: "bit (drop_bit k (c::byte) AND 1) 0 \<longleftrightarrow> bit c k"
  by (simp add: bit_simps)

lemma bit_drop_bit_0 [simp]: "bit (drop_bit k (c::byte)) 0 \<longleftrightarrow> bit c k"
  by (simp add: bit_simps)

lemma bit_and_1 [simp]: "bit ((c::byte) AND 1) 0 \<longleftrightarrow> bit c 0"
  by (simp add: bit_simps)

text \<open>
  The two nibbles of a byte, high nibble first: splitting and reassembling gives the byte
  back.
\<close>

definition hi_nibble :: "byte \<Rightarrow> byte" where
  "hi_nibble b = drop_bit 4 b"

definition lo_nibble :: "byte \<Rightarrow> byte" where
  "lo_nibble b = take_bit 4 b"

definition join_nibbles :: "byte \<Rightarrow> byte \<Rightarrow> byte" where
  "join_nibbles h l = push_bit 4 h OR take_bit 4 l"

lemma join_split_nibbles [simp]: "join_nibbles (hi_nibble b) (lo_nibble b) = b"
  by (rule bit_word_eqI) (auto simp: join_nibbles_def hi_nibble_def lo_nibble_def bit_simps)

lemma bit_hi_nibble: "bit (hi_nibble b) n \<longleftrightarrow> n < 4 \<and> bit b (n + 4)"
  by (auto simp: hi_nibble_def bit_simps add.commute dest: bit_imp_le_length)

lemma bit_lo_nibble: "bit (lo_nibble b) n \<longleftrightarrow> n < 4 \<and> bit b n"
  by (auto simp: lo_nibble_def bit_simps)

text \<open>A nibble from its four bits, least significant first.\<close>

definition nib_of :: "bool \<Rightarrow> bool \<Rightarrow> bool \<Rightarrow> bool \<Rightarrow> byte" where
  "nib_of b0 b1 b2 b3 = horner_sum of_bool 2 [b0, b1, b2, b3]"

lemma bit_nib_of:
  "bit (nib_of b0 b1 b2 b3) n \<longleftrightarrow> n < 4 \<and> [b0, b1, b2, b3] ! n"
  unfolding nib_of_def bit_horner_sum_bit_word_iff by (simp add: numeral_eq_Suc)

text \<open>Two bytes are equal when they agree on their eight bits.\<close>

lemma byte_eqI: "(\<And>n. n < 8 \<Longrightarrow> bit (a::byte) n \<longleftrightarrow> bit b n) \<Longrightarrow> a = b"
  by (rule bit_word_eqI) simp

lemma bit_byte_high [simp]: "8 \<le> n \<Longrightarrow> \<not> bit (p::byte) n"
  using bit_imp_le_length [of p n] by auto

lemma less_8_iff: "(n::nat) < 8 \<longleftrightarrow> n = 0 \<or> n = 1 \<or> n = 2 \<or> n = 3 \<or> n = 4 \<or> n = 5 \<or> n = 6 \<or> n = 7"
  by auto

lemma drop_bit_4_nib: "drop_bit 4 (p::byte) = nib_of (bit p 4) (bit p 5) (bit p 6) (bit p 7)"
  by (rule byte_eqI, unfold less_8_iff, elim disjE) (simp_all add: bit_nib_of bit_simps)

lemma hi_nibble_nib: "hi_nibble c = nib_of (bit c 4) (bit c 5) (bit c 6) (bit c 7)"
  by (simp add: hi_nibble_def drop_bit_4_nib)

lemma lo_nibble_nib: "lo_nibble c = nib_of (bit c 0) (bit c 1) (bit c 2) (bit c 3)"
  by (rule byte_eqI, unfold less_8_iff, elim disjE) (simp_all add: bit_nib_of bit_lo_nibble)

end
