(* ===== verification/Hd44780.thy ===== *)
theory Hd44780
  imports Prelude
begin

text \<open>
  The character display the firmware drives: an HD44780-compatible 16x2 controller wired
  in 4-bit mode (DB7..DB4 to RB7..RB4, RS to RB1, E to RB2; DB3..DB0 tied low). This is
  the environment of the display driver, not code of the repository: it is modelled from
  the controller's data sheet, to the extent the driver's correctness depends on it.
  \<^item> The controller latches RS and DB7..DB4 on each falling edge of E. After power-on it
    is in 8-bit mode, where one latch is one whole instruction (DB3..DB0 read as 0); in
    4-bit mode two latches make one byte, high nibble first.
  \<^item> Each instruction keeps the controller busy for its execution time (1.52 ms for
    clear display and return home, 37 us for the others, 37 + 4 us for a data write).
    A latch while the controller is busy is a timing violation: the model records it in
    \<open>timing_ok\<close> and still executes the transfer.
  \<^item> Display RAM is a map from addresses to character codes; in two-line mode line 1 is
    addresses 0x00..0x27 and line 2 is 0x40..0x67, the address counter wraps between
    them. Display shift and CGRAM contents are not modelled (the firmware uses neither).
\<close>

record lcd =
  dl8 :: bool
  pending :: "byte option"
  ddram :: "nat \<Rightarrow> byte"
  ac :: nat
  two_lines :: bool
  disp_on :: bool
  cursor_on :: bool
  blink_on :: bool
  entry_inc :: bool
  entry_shift :: bool
  busy_until :: usec
  timing_ok :: bool

definition blank :: "nat \<Rightarrow> byte" where
  "blank = (\<lambda>_. 0x20)"

definition t_long :: usec where "t_long = 1520"
definition t_short :: usec where "t_short = 37"
definition t_data :: usec where "t_data = 41"

subsection \<open>The address counter\<close>

definition ac_inc :: "bool \<Rightarrow> nat \<Rightarrow> nat" where
  "ac_inc two a =
     (if two then (if a = 0x27 then 0x40 else if a = 0x67 then 0 else a + 1)
      else (if a = 0x4F then 0 else a + 1))"

definition ac_dec :: "bool \<Rightarrow> nat \<Rightarrow> nat" where
  "ac_dec two a =
     (if two then (if a = 0x40 then 0x27 else if a = 0 then 0x67 else a - 1)
      else (if a = 0 then 0x4F else a - 1))"

definition ac_next :: "lcd \<Rightarrow> nat" where
  "ac_next d = (if entry_inc d then ac_inc (two_lines d) (ac d) else ac_dec (two_lines d) (ac d))"

subsection \<open>Instructions and data writes\<close>

text \<open>
  The instruction is decoded by its most significant set bit, as in the data sheet's
  instruction table; \<open>0x00\<close> is no instruction.
\<close>

definition lcd_instr :: "usec \<Rightarrow> byte \<Rightarrow> lcd \<Rightarrow> lcd" where
  "lcd_instr t b d =
     (if bit b 7 then d\<lparr>ac := unat (take_bit 7 b), busy_until := t + t_short\<rparr>
      else if bit b 6 then d\<lparr>busy_until := t + t_short\<rparr>
      else if bit b 5 then
        d\<lparr>dl8 := bit b 4, two_lines := bit b 3, pending := None, busy_until := t + t_short\<rparr>
      else if bit b 4 then
        (if bit b 3 then d\<lparr>busy_until := t + t_short\<rparr>
         else d\<lparr>ac := (if bit b 2 then ac_inc (two_lines d) (ac d) else ac_dec (two_lines d) (ac d)),
                busy_until := t + t_short\<rparr>)
      else if bit b 3 then
        d\<lparr>disp_on := bit b 2, cursor_on := bit b 1, blink_on := bit b 0, busy_until := t + t_short\<rparr>
      else if bit b 2 then
        d\<lparr>entry_inc := bit b 1, entry_shift := bit b 0, busy_until := t + t_short\<rparr>
      else if bit b 1 then d\<lparr>ac := 0, busy_until := t + t_long\<rparr>
      else if bit b 0 then d\<lparr>ddram := blank, ac := 0, entry_inc := True, busy_until := t + t_long\<rparr>
      else d)"

definition lcd_data :: "usec \<Rightarrow> byte \<Rightarrow> lcd \<Rightarrow> lcd" where
  "lcd_data t b d = d\<lparr>ddram := (ddram d)(ac d := b), ac := ac_next d, busy_until := t + t_data\<rparr>"

definition lcd_exec :: "usec \<Rightarrow> bool \<Rightarrow> byte \<Rightarrow> lcd \<Rightarrow> lcd" where
  "lcd_exec t rs b d = (if rs then lcd_data t b d else lcd_instr t b d)"

subsection \<open>The falling edge of E\<close>

text \<open>\<open>nib\<close> is the value on DB7..DB4 (bits 3..0 of \<open>nib\<close>), \<open>rs\<close> the level of RS.\<close>

definition lcd_latch :: "usec \<Rightarrow> bool \<Rightarrow> byte \<Rightarrow> lcd \<Rightarrow> lcd" where
  "lcd_latch t rs nib d =
     (let d = d\<lparr>timing_ok := timing_ok d \<and> busy_until d \<le> t\<rparr> in
      if dl8 d then lcd_exec t rs (push_bit 4 nib) d
      else (case pending d of
              None \<Rightarrow> d\<lparr>pending := Some nib\<rparr>
            | Some h \<Rightarrow> lcd_exec t rs (join_nibbles h nib) (d\<lparr>pending := None\<rparr>)))"

text \<open>
  The state after power-on (the controller's internal reset): 8-bit interface, one line,
  display off, increment mode, display RAM blank, busy for the 15 ms the data sheet
  requires before the first instruction.
\<close>

definition lcd_por :: lcd where
  "lcd_por =
     \<lparr>dl8 = True, pending = None, ddram = blank, ac = 0, two_lines = False,
      disp_on = False, cursor_on = False, blink_on = False, entry_inc = True,
      entry_shift = False, busy_until = 15000, timing_ok = True\<rparr>"

subsection \<open>What the user sees\<close>

text \<open>The sixteen visible characters of line 1 (no display shift).\<close>

definition line1 :: "lcd \<Rightarrow> byte list" where
  "line1 d = map (ddram d) [0..<16]"

text \<open>A text as it appears on a cleared line: its characters, then blanks.\<close>

definition line_text :: "string \<Rightarrow> byte list" where
  "line_text s = take 16 (bytes_of s @ replicate 16 0x20)"

text \<open>The configuration the firmware's initialisation sets up.\<close>

definition configured :: "lcd \<Rightarrow> bool" where
  "configured d \<longleftrightarrow>
     \<not> dl8 d \<and> pending d = None \<and> two_lines d \<and> disp_on d \<and> \<not> cursor_on d \<and>
     \<not> blink_on d \<and> entry_inc d \<and> \<not> entry_shift d"

subsection \<open>Device lemmas\<close>

text \<open>A controller in 4-bit mode between two bytes.\<close>

definition aligned :: "lcd \<Rightarrow> bool" where
  "aligned d \<longleftrightarrow> \<not> dl8 d \<and> pending d = None"

lemma lcd_latch_pair:
  assumes "aligned d" "t1 \<le> t2"
  shows "lcd_latch t2 rs (lo_nibble c) (lcd_latch t1 rs' (hi_nibble c) d) =
         lcd_exec t2 rs c (d\<lparr>timing_ok := timing_ok d \<and> busy_until d \<le> t1\<rparr>)"
proof -
  from assms(1) have p: "d\<lparr>timing_ok := z, pending := None\<rparr> = d\<lparr>timing_ok := z\<rparr>" for z
    by (cases d) (simp add: aligned_def)
  from assms(2) have "(busy_until d \<le> t1 \<and> busy_until d \<le> t2) = (busy_until d \<le> t1)"
    by auto
  with assms(1) show ?thesis
    by (simp add: lcd_latch_def aligned_def Let_def p conj_assoc)
qed

lemma timing_ok_instr [simp]: "timing_ok (lcd_instr t b d) = timing_ok d"
  by (simp add: lcd_instr_def)

lemma timing_ok_exec [simp]: "timing_ok (lcd_exec t rs b d) = timing_ok d"
  by (simp add: lcd_exec_def lcd_data_def)

lemma timing_ok_latch: "timing_ok (lcd_latch t rs n d) \<Longrightarrow> timing_ok d"
  by (auto simp: lcd_latch_def Let_def split: option.splits if_splits)

lemma configured_aligned: "configured d \<Longrightarrow> aligned d"
  by (simp add: configured_def aligned_def)

end
