(* ===== verification/Board.thy ===== *)
theory Board
  imports Hd44780
begin

text \<open>
  The PIC16F877A as the firmware sees it: the special function registers it writes
  (TRISB, PORTB, TRISC, SPBRG, TXSTA, RCSTA), the global \<open>rfid_tag\<close> buffer, a clock,
  and the environment attached to the pins: the display controller on port B, the relay
  on RB0, and the serial line on RC6/RC7.
  \<^item> A write to PORTB is seen by the display controller: a falling edge of RB2 (E)
    latches RS and DB7..DB4.
  \<^item> The relay output is driven when TRISB bit 0 is 0; every change of its level is logged
    with its time, so that claims about how long the lock is open are claims about the log.
  \<^item> The serial receiver presents the frames of \<open>rx\<close> in order, each at its arrival time
    and with its framing and overrun error flags; the transmitter logs each byte loaded
    into TXREG with its time.
  \<^item> The clock counts microseconds of \<open>__delay_us\<close>/\<open>__delay_ms\<close> and of busy-waiting;
    the few instruction cycles between statements (0.2 us each at 20 MHz) are not counted.
\<close>

record frame =
  f_at :: usec
  f_data :: byte
  f_ferr :: bool
  f_oerr :: bool

record mcu =
  clock :: usec
  trisb :: byte
  portb :: byte
  trisc :: byte
  spbrg :: byte
  txsta :: byte
  rcsta :: byte
  rx :: "frame list"
  tx :: "(usec \<times> byte) list"
  tsr_free_at :: usec
  lcd :: lcd
  relay_log :: "(usec \<times> bool option) list"
  rfid_tag :: "byte list"

subsection \<open>Pin assignment (\<open>#define\<close>s of the source)\<close>

definition RELAY_PIN :: nat where "RELAY_PIN = 0"
definition LCD_RS :: nat where "LCD_RS = 1"
definition LCD_EN :: nat where "LCD_EN = 2"
definition LCD_D4 :: nat where "LCD_D4 = 4"
definition LCD_D5 :: nat where "LCD_D5 = 5"
definition LCD_D6 :: nat where "LCD_D6 = 6"
definition LCD_D7 :: nat where "LCD_D7 = 7"

lemmas pin_defs = RELAY_PIN_def LCD_RS_def LCD_EN_def LCD_D4_def LCD_D5_def LCD_D6_def LCD_D7_def

subsection \<open>Port B and the relay output\<close>

text \<open>The relay output: not driven (\<open>None\<close>) while RB0 is an input.\<close>

definition relay_out :: "mcu \<Rightarrow> bool option" where
  "relay_out s = (if bit (trisb s) 0 then None else Some (bit (portb s) 0))"

definition log_relay :: "mcu \<Rightarrow> mcu \<Rightarrow> mcu" where
  "log_relay s s' =
     (if relay_out s' = relay_out s then s'
      else s'\<lparr>relay_log := relay_log s' @ [(clock s', relay_out s')]\<rparr>)"

definition write_portb :: "byte \<Rightarrow> mcu \<Rightarrow> mcu" where
  "write_portb v s =
     log_relay s (s\<lparr>portb := v,
       lcd := (if bit (portb s) 2 \<and> \<not> bit v 2
               then lcd_latch (clock s) (bit v 1) (drop_bit 4 v) (lcd s) else lcd s)\<rparr>)"

definition write_trisb :: "byte \<Rightarrow> mcu \<Rightarrow> mcu" where
  "write_trisb v s = log_relay s (s\<lparr>trisb := v\<rparr>)"

text \<open>The bit-field assignment \<open>RBn = v;\<close>.\<close>

definition set_rb :: "nat \<Rightarrow> byte \<Rightarrow> mcu \<Rightarrow> mcu" where
  "set_rb n v s = write_portb (assign_bit n v (portb s)) s"

subsection \<open>Delays\<close>

text \<open>XC8's \<open>__delay_us\<close> and \<open>__delay_ms\<close> busy-wait for the given time.\<close>

definition delay_us :: "nat \<Rightarrow> mcu \<Rightarrow> mcu" where
  "delay_us n s = s\<lparr>clock := clock s + n\<rparr>"

definition delay_ms :: "nat \<Rightarrow> mcu \<Rightarrow> mcu" where
  "delay_ms n s = delay_us (1000 * n) s"

subsection \<open>Power-on\<close>

text \<open>
  The state at power-on: registers at their reset values (TRISB, TRISC all inputs,
  TXSTA with TRMT set), PORTB's output latch unknown (\<open>pb\<close>), the display controller
  in its power-on state, \<open>rfid_tag\<close> zero-initialised, and the frames the reader will
  send (\<open>inp\<close>).
\<close>

definition por :: "byte \<Rightarrow> frame list \<Rightarrow> mcu" where
  "por pb inp =
     \<lparr>clock = 0, trisb = 0xFF, portb = pb, trisc = 0xFF, spbrg = 0, txsta = 0x02, rcsta = 0,
      rx = inp, tx = [], tsr_free_at = 0, lcd = lcd_por, relay_log = [],
      rfid_tag = replicate 11 0\<rparr>"

subsection \<open>Effects of a pin write\<close>

lemma log_relay_same [simp]: "relay_out s' = relay_out s \<Longrightarrow> log_relay s s' = s'"
  by (simp add: log_relay_def)

lemma relay_out_set_rb [simp]: "n \<noteq> 0 \<Longrightarrow> relay_out (set_rb n v s) = relay_out s"
  by (auto simp: set_rb_def write_portb_def log_relay_def relay_out_def bit_assign_bit)

lemma set_rb_frame [frame_simps, simp]:
  "clock (set_rb n v s) = clock s"
  "trisb (set_rb n v s) = trisb s"
  "trisc (set_rb n v s) = trisc s"
  "spbrg (set_rb n v s) = spbrg s"
  "txsta (set_rb n v s) = txsta s"
  "rcsta (set_rb n v s) = rcsta s"
  "rx (set_rb n v s) = rx s"
  "tx (set_rb n v s) = tx s"
  "tsr_free_at (set_rb n v s) = tsr_free_at s"
  "rfid_tag (set_rb n v s) = rfid_tag s"
  by (simp_all add: set_rb_def write_portb_def log_relay_def)

lemma portb_set_rb [simp]: "portb (set_rb n v s) = assign_bit n v (portb s)"
  by (simp add: set_rb_def write_portb_def log_relay_def)

lemma relay_log_set_rb [simp]: "n \<noteq> 0 \<Longrightarrow> relay_log (set_rb n v s) = relay_log s"
  by (auto simp: set_rb_def write_portb_def log_relay_def relay_out_def bit_assign_bit)

text \<open>Only a write of 0 to E while E is high reaches the display controller.\<close>

lemma lcd_set_rb [simp]:
  "lcd (set_rb n v s) =
     (if n = 2 \<and> bit (portb s) 2 \<and> \<not> bit v 0
      then lcd_latch (clock s) (bit (portb s) 1) (drop_bit 4 (portb s)) (lcd s) else lcd s)"
proof -
  have "drop_bit 4 (assign_bit 2 v (portb s)) = drop_bit 4 (portb s)"
    by (rule byte_eqI) (simp add: bit_simps bit_assign_bit)
  then show ?thesis
    by (auto simp: set_rb_def write_portb_def log_relay_def bit_assign_bit)
qed

lemma delay_us_frame [frame_simps, simp]:
  "clock (delay_us n s) = clock s + n"
  "portb (delay_us n s) = portb s"
  "trisb (delay_us n s) = trisb s"
  "trisc (delay_us n s) = trisc s"
  "spbrg (delay_us n s) = spbrg s"
  "txsta (delay_us n s) = txsta s"
  "rcsta (delay_us n s) = rcsta s"
  "rx (delay_us n s) = rx s"
  "tx (delay_us n s) = tx s"
  "tsr_free_at (delay_us n s) = tsr_free_at s"
  "lcd (delay_us n s) = lcd s"
  "relay_log (delay_us n s) = relay_log s"
  "rfid_tag (delay_us n s) = rfid_tag s"
  "relay_out (delay_us n s) = relay_out s"
  by (simp_all add: delay_us_def relay_out_def)

lemma delay_ms_eq [simp]: "delay_ms n s = delay_us (1000 * n) s"
  by (simp add: delay_ms_def)

lemma delay_us_add: "delay_us m (delay_us n s) = delay_us (n + m) s"
  by (simp add: delay_us_def add.assoc)

lemma set_rb_relay:
  assumes "trisb s = 0"
  shows "relay_log (set_rb 0 v s) =
           relay_log s @ (if bit v 0 = bit (portb s) 0 then [] else [(clock s, Some (bit v 0))])"
    and "bit (portb (set_rb 0 v s)) 0 = bit v 0"
    and "lcd (set_rb 0 v s) = lcd s"
  using assms by (simp_all add: set_rb_def write_portb_def log_relay_def relay_out_def bit_assign_bit)

end
