(* ===== verification/Lcd.thy ===== *)
theory Lcd
  imports Board
begin

text \<open>
  The display driver of \<open>src/rfid.c\<close>: \<open>LCD_Command\<close>, \<open>LCD_Char\<close>, \<open>LCD_String\<close>,
  \<open>LCD_Clear\<close> and \<open>LCD_Init\<close>, statement by statement over the board state. The lemmas
  give each operation a closed form (which pins it changes, how long it takes, what the
  controller latches), show that a byte reaches the controller intact as two nibbles,
  that no display operation touches the relay, that the driver's delays respect the
  controller's busy times, and what initialisation leaves on the display.
\<close>

subsection \<open>The operations\<close>

definition LCD_Command :: "byte \<Rightarrow> mcu \<Rightarrow> mcu" where
  "LCD_Command cmd s = seq
     [set_rb LCD_RS 0,
      set_rb LCD_D4 (drop_bit 4 cmd AND 1),
      set_rb LCD_D5 (drop_bit 5 cmd AND 1),
      set_rb LCD_D6 (drop_bit 6 cmd AND 1),
      set_rb LCD_D7 (drop_bit 7 cmd AND 1),
      set_rb LCD_EN 1, delay_us 1, set_rb LCD_EN 0, delay_us 1,
      set_rb LCD_D4 (cmd AND 1),
      set_rb LCD_D5 (drop_bit 1 cmd AND 1),
      set_rb LCD_D6 (drop_bit 2 cmd AND 1),
      set_rb LCD_D7 (drop_bit 3 cmd AND 1),
      set_rb LCD_EN 1, delay_us 1, set_rb LCD_EN 0, delay_us 100] s"

definition LCD_Char :: "byte \<Rightarrow> mcu \<Rightarrow> mcu" where
  "LCD_Char data s = seq
     [set_rb LCD_RS 1,
      set_rb LCD_D4 (drop_bit 4 data AND 1),
      set_rb LCD_D5 (drop_bit 5 data AND 1),
      set_rb LCD_D6 (drop_bit 6 data AND 1),
      set_rb LCD_D7 (drop_bit 7 data AND 1),
      set_rb LCD_EN 1, delay_us 1, set_rb LCD_EN 0, delay_us 1,
      set_rb LCD_D4 (data AND 1),
      set_rb LCD_D5 (drop_bit 1 data AND 1),
      set_rb LCD_D6 (drop_bit 2 data AND 1),
      set_rb LCD_D7 (drop_bit 3 data AND 1),
      set_rb LCD_EN 1, delay_us 1, set_rb LCD_EN 0, delay_us 40] s"

text \<open>
  \<open>while(*str) LCD_Char(*str++);\<close>: the string is read up to its NUL; running off the
  end of the object without finding one is undefined behaviour, here \<open>None\<close>.
\<close>

fun LCD_String :: "byte list \<Rightarrow> mcu \<Rightarrow> mcu option" where
  "LCD_String [] s = None"
| "LCD_String (c # cs) s = (if c = 0 then Some s else LCD_String cs (LCD_Char c s))"

definition LCD_Clear :: "mcu \<Rightarrow> mcu" where
  "LCD_Clear s = delay_ms 2 (LCD_Command 0x01 s)"

definition LCD_Init :: "mcu \<Rightarrow> mcu" where
  "LCD_Init s = seq
     [delay_ms 15,
      LCD_Command 0x02, LCD_Command 0x28, LCD_Command 0x0C, LCD_Command 0x06,
      LCD_Command 0x01,
      delay_ms 2] s"

subsection \<open>One byte as two nibbles\<close>

text \<open>
  A pin write other than to RB0 changes PORTB and, on a falling edge of E, the
  controller; nothing else.
\<close>

lemma set_rb_eq:
  assumes "n \<noteq> 0"
  shows "set_rb n v s =
    s\<lparr>portb := assign_bit n v (portb s),
      lcd := (if n = 2 \<and> bit (portb s) 2 \<and> \<not> bit v 0
              then lcd_latch (clock s) (bit (portb s) 1) (drop_bit 4 (portb s)) (lcd s)
              else lcd s)\<rparr>"
proof -
  have "drop_bit 4 (assign_bit 2 v (portb s)) = drop_bit 4 (portb s)"
    by (rule byte_eqI) (simp add: bit_simps bit_assign_bit)
  with assms show ?thesis
    by (auto simp: set_rb_def write_portb_def log_relay_def relay_out_def bit_assign_bit)
qed

lemma drop_bit_4_assign_bit:
  "drop_bit 4 (assign_bit n v p) =
     (if 4 \<le> n \<and> n < 8 then assign_bit (n - 4) v (drop_bit 4 p) else drop_bit 4 p)"
  by (rule byte_eqI) (auto simp: bit_simps bit_assign_bit dest: bit_imp_le_length)

text \<open>
  \<open>LCD_Command\<close> and \<open>LCD_Char\<close> are the same statement sequence with a different
  RS level and final delay: \<open>nibble_seq rs d c\<close> is that sequence.
\<close>

definition nibble_seq :: "byte \<Rightarrow> nat \<Rightarrow> byte \<Rightarrow> (mcu \<Rightarrow> mcu) list" where
  "nibble_seq rs d c =
     [set_rb LCD_RS rs,
      set_rb LCD_D4 (drop_bit 4 c AND 1),
      set_rb LCD_D5 (drop_bit 5 c AND 1),
      set_rb LCD_D6 (drop_bit 6 c AND 1),
      set_rb LCD_D7 (drop_bit 7 c AND 1),
      set_rb LCD_EN 1, delay_us 1, set_rb LCD_EN 0, delay_us 1,
      set_rb LCD_D4 (c AND 1),
      set_rb LCD_D5 (drop_bit 1 c AND 1),
      set_rb LCD_D6 (drop_bit 2 c AND 1),
      set_rb LCD_D7 (drop_bit 3 c AND 1),
      set_rb LCD_EN 1, delay_us 1, set_rb LCD_EN 0, delay_us d]"

lemma LCD_Command_nibble_seq: "LCD_Command c s = seq (nibble_seq 0 100 c) s"
  by (simp only: LCD_Command_def nibble_seq_def)

lemma LCD_Char_nibble_seq: "LCD_Char c s = seq (nibble_seq 1 40 c) s"
  by (simp only: LCD_Char_def nibble_seq_def)

text \<open>
  The port value after a transfer: RS as given, E low, DB7..DB4 the low nibble of the
  byte, RB0 and RB3 as they were.
\<close>

definition lcd_port :: "byte \<Rightarrow> byte \<Rightarrow> byte \<Rightarrow> byte" where
  "lcd_port rs c p =
     assign_bit 2 0 (assign_bit 7 (drop_bit 3 c AND 1) (assign_bit 6 (drop_bit 2 c AND 1)
       (assign_bit 5 (drop_bit 1 c AND 1) (assign_bit 4 (c AND 1) (assign_bit 1 rs p)))))"

text \<open>
  The closed form of a transfer: the controller sees a falling edge of E 1 us and 3 us
  after the start, with the high and then the low nibble on DB7..DB4.
\<close>

definition lcd_xfer :: "byte \<Rightarrow> nat \<Rightarrow> byte \<Rightarrow> mcu \<Rightarrow> mcu" where
  "lcd_xfer rs d c s =
     s\<lparr>portb := lcd_port rs c (portb s), clock := clock s + 3 + d,
       lcd := lcd_latch (clock s + 3) (bit rs 0) (lo_nibble c)
                (lcd_latch (clock s + 1) (bit rs 0) (hi_nibble c) (lcd s))\<rparr>"

lemma portb_nibble_seq: "portb (seq (nibble_seq rs d c) s) = lcd_port rs c (portb s)"
  by (rule byte_eqI, unfold less_8_iff, elim disjE)
     (simp_all add: nibble_seq_def pin_defs lcd_port_def bit_assign_bit)

lemma lcd_nibble_seq:
  "lcd (seq (nibble_seq rs d c) s) =
     lcd_latch (clock s + 3) (bit rs 0) (lo_nibble c)
       (lcd_latch (clock s + 1) (bit rs 0) (hi_nibble c) (lcd s))"
  by (simp add: nibble_seq_def pin_defs bit_assign_bit drop_bit_4_nib hi_nibble_nib
      lo_nibble_nib bit_nib_of) (simp add: numeral_eq_Suc)

lemma nibble_seq_xfer: "seq (nibble_seq rs d c) s = lcd_xfer rs d c s"
proof (rule mcu.equality)
  show "portb (seq (nibble_seq rs d c) s) = portb (lcd_xfer rs d c s)"
    by (simp add: portb_nibble_seq lcd_xfer_def)
  show "lcd (seq (nibble_seq rs d c) s) = lcd (lcd_xfer rs d c s)"
    by (simp add: lcd_nibble_seq lcd_xfer_def)
qed (simp_all add: nibble_seq_def pin_defs lcd_xfer_def)

lemma LCD_Command_xfer [op_simps]: "LCD_Command c s = lcd_xfer 0 100 c s"
  by (simp only: LCD_Command_nibble_seq nibble_seq_xfer)

lemma LCD_Char_xfer [op_simps]: "LCD_Char c s = lcd_xfer 1 40 c s"
  by (simp only: LCD_Char_nibble_seq nibble_seq_xfer)

lemma lcd_xfer_frame [frame_simps, simp]:
  "clock (lcd_xfer rs d c s) = clock s + 3 + d"
  "trisb (lcd_xfer rs d c s) = trisb s"
  "trisc (lcd_xfer rs d c s) = trisc s"
  "spbrg (lcd_xfer rs d c s) = spbrg s"
  "txsta (lcd_xfer rs d c s) = txsta s"
  "rcsta (lcd_xfer rs d c s) = rcsta s"
  "rx (lcd_xfer rs d c s) = rx s"
  "tx (lcd_xfer rs d c s) = tx s"
  "tsr_free_at (lcd_xfer rs d c s) = tsr_free_at s"
  "relay_log (lcd_xfer rs d c s) = relay_log s"
  "rfid_tag (lcd_xfer rs d c s) = rfid_tag s"
  by (simp_all add: lcd_xfer_def)

lemma relay_out_lcd_xfer [simp]: "relay_out (lcd_xfer rs d c s) = relay_out s"
  by (simp add: lcd_xfer_def relay_out_def lcd_port_def bit_assign_bit)

lemma LCD_Command_frame [frame_simps, simp]:
  "clock (LCD_Command c s) = clock s + 103"
  "trisb (LCD_Command c s) = trisb s"
  "rx (LCD_Command c s) = rx s"
  "tx (LCD_Command c s) = tx s"
  "rcsta (LCD_Command c s) = rcsta s"
  "relay_log (LCD_Command c s) = relay_log s"
  "relay_out (LCD_Command c s) = relay_out s"
  "rfid_tag (LCD_Command c s) = rfid_tag s"
  by (simp_all add: LCD_Command_xfer)

lemma LCD_Char_frame [frame_simps, simp]:
  "clock (LCD_Char c s) = clock s + 43"
  "trisb (LCD_Char c s) = trisb s"
  "rx (LCD_Char c s) = rx s"
  "tx (LCD_Char c s) = tx s"
  "rcsta (LCD_Char c s) = rcsta s"
  "relay_log (LCD_Char c s) = relay_log s"
  "relay_out (LCD_Char c s) = relay_out s"
  "rfid_tag (LCD_Char c s) = rfid_tag s"
  by (simp_all add: LCD_Char_xfer)

subsection \<open>What reaches the controller\<close>

lemma LCD_Command_aligned:
  "aligned (lcd s) \<Longrightarrow> lcd (LCD_Command c s) =
     lcd_instr (clock s + 3) c ((lcd s)\<lparr>timing_ok := timing_ok (lcd s) \<and> busy_until (lcd s) \<le> clock s + 1\<rparr>)"
  by (simp add: LCD_Command_xfer lcd_xfer_def lcd_latch_pair lcd_exec_def)
lemma LCD_Char_aligned:
  "aligned (lcd s) \<Longrightarrow> lcd (LCD_Char c s) =
     lcd_data (clock s + 3) c ((lcd s)\<lparr>timing_ok := timing_ok (lcd s) \<and> busy_until (lcd s) \<le> clock s + 1\<rparr>)"
  by (simp add: LCD_Char_xfer lcd_xfer_def lcd_latch_pair lcd_exec_def)

subsection \<open>Strings, clearing and initialisation\<close>

definition lcd_ready :: "mcu \<Rightarrow> bool" where
  "lcd_ready s \<longleftrightarrow> busy_until (lcd s) \<le> clock s + 1"

lemma LCD_Char_configured:
  assumes "configured (lcd s)" "lcd_ready s"
  shows "lcd (LCD_Char c s) = (lcd s)\<lparr>ddram := (ddram (lcd s))(ac (lcd s) := c),
            ac := ac_inc True (ac (lcd s)), busy_until := clock s + 44\<rparr>"
  using assms by (simp add: LCD_Char_aligned configured_aligned lcd_data_def ac_next_def
      lcd_ready_def t_data_def) (simp add: configured_def)

fun write_at :: "(nat \<Rightarrow> byte) \<Rightarrow> nat \<Rightarrow> byte list \<Rightarrow> nat \<Rightarrow> byte" where
  "write_at m a [] = m"
| "write_at m a (b # bs) = write_at (m(a := b)) (Suc a) bs"

lemma LCD_String_fold: "0 \<notin> set bs \<Longrightarrow> LCD_String (bs @ 0 # rest) s = Some (fold LCD_Char bs s)"
  by (induction bs arbitrary: s) auto

lemma fold_LCD_Char:
  assumes "configured (lcd s)" "lcd_ready s" "ac (lcd s) + length bs \<le> 0x27"
  shows "configured (lcd (fold LCD_Char bs s)) \<and> lcd_ready (fold LCD_Char bs s) \<and>
    timing_ok (lcd (fold LCD_Char bs s)) = timing_ok (lcd s) \<and>
    ddram (lcd (fold LCD_Char bs s)) = write_at (ddram (lcd s)) (ac (lcd s)) bs \<and>
    ac (lcd (fold LCD_Char bs s)) = ac (lcd s) + length bs \<and>
    clock (fold LCD_Char bs s) = clock s + 43 * length bs"
  using assms
proof (induction bs arbitrary: s)
  case Nil
  then show ?case by simp
next
  case (Cons b bs)
  let ?s = "LCD_Char b s"
  have l: "lcd ?s = (lcd s)\<lparr>ddram := (ddram (lcd s))(ac (lcd s) := b),
            ac := Suc (ac (lcd s)), busy_until := clock s + 44\<rparr>"
    using Cons.prems by (simp add: LCD_Char_configured ac_inc_def)
  have "configured (lcd ?s)" "lcd_ready ?s" "ac (lcd ?s) + length bs \<le> 0x27"
    using Cons.prems l by (simp_all add: configured_def lcd_ready_def LCD_Char_xfer)
  from Cons.IH [OF this] show ?case
    using l by (simp add: LCD_Char_xfer fun_upd_def)
qed

lemma LCD_Clear_configured:
  assumes "configured (lcd s)" "lcd_ready s"
  shows "lcd (LCD_Clear s) = (lcd s)\<lparr>ddram := blank, ac := 0, busy_until := clock s + 1523\<rparr>"
    and "clock (LCD_Clear s) = clock s + 2103"
proof -
  show "lcd (LCD_Clear s) = (lcd s)\<lparr>ddram := blank, ac := 0, busy_until := clock s + 1523\<rparr>"
    using assms by (simp add: LCD_Clear_def LCD_Command_aligned configured_aligned lcd_instr_def
      lcd_ready_def t_long_def) (simp add: configured_def)
  show "clock (LCD_Clear s) = clock s + 2103"
    by (simp add: LCD_Clear_def LCD_Command_xfer)
qed

lemma LCD_Init_por:
  assumes "lcd s = lcd_por"
  shows "configured (lcd (LCD_Init s)) \<and> timing_ok (lcd (LCD_Init s)) \<and>
         ddram (lcd (LCD_Init s)) = blank \<and> ac (lcd (LCD_Init s)) = 0 \<and> lcd_ready (LCD_Init s)"
  using assms by (simp add: LCD_Init_def LCD_Command_xfer lcd_xfer_def lcd_latch_def lcd_por_def
      lcd_exec_def lcd_instr_def configured_def lcd_ready_def Let_def hi_nibble_def lo_nibble_def
      join_nibbles_def t_short_def t_long_def)
lemma timing_ok_LCD_Command: "timing_ok (lcd (LCD_Command c s)) \<Longrightarrow> timing_ok (lcd s)"
  by (auto simp: LCD_Command_xfer lcd_xfer_def dest: timing_ok_latch)

subsection \<open>Clearing the display and printing a text\<close>

lemma write_at_apply:
  "write_at m a bs k = (if a \<le> k \<and> k < a + length bs then bs ! (k - a) else m k)"
proof (induction bs arbitrary: m a)
  case Nil
  then show ?case by auto
next
  case (Cons b bs)
  then show ?case by (auto simp: nth_Cons')
qed

lemma line1_write_at:
  assumes "length t \<le> 16"
  shows "map (write_at blank 0 (bytes_of t)) [0..<16] = line_text t"
proof (rule nth_equalityI)
  show "length (map (write_at blank 0 (bytes_of t)) [0..<16]) = length (line_text t)"
    using assms by (simp add: line_text_def)
next
  fix k assume "k < length (map (write_at blank 0 (bytes_of t)) [0..<16])"
  then have "k < 16" by simp
  then show "map (write_at blank 0 (bytes_of t)) [0..<16] ! k = line_text t ! k"
    using assms by (simp add: write_at_apply line_text_def nth_append blank_def)
qed

lemma bit0_lcd_port [simp]: "bit (lcd_port rs c p) 0 = bit p 0"
  by (simp add: lcd_port_def bit_assign_bit)

lemma portb_bit0_LCD_Command [simp]: "bit (portb (LCD_Command c s)) 0 = bit (portb s) 0"
  by (simp add: LCD_Command_xfer lcd_xfer_def)

lemma portb_bit0_LCD_Char [simp]: "bit (portb (LCD_Char c s)) 0 = bit (portb s) 0"
  by (simp add: LCD_Char_xfer lcd_xfer_def)

lemma fold_LCD_Char_frame:
  "trisb (fold LCD_Char bs s) = trisb s \<and> rx (fold LCD_Char bs s) = rx s \<and>
   tx (fold LCD_Char bs s) = tx s \<and> rcsta (fold LCD_Char bs s) = rcsta s \<and>
   relay_log (fold LCD_Char bs s) = relay_log s \<and> rfid_tag (fold LCD_Char bs s) = rfid_tag s \<and>
   bit (portb (fold LCD_Char bs s)) 0 = bit (portb s) 0"
  by (induction bs arbitrary: s) simp_all

lemma lcd_ready_delay [simp]: "lcd_ready s \<Longrightarrow> lcd_ready (delay_us n s)"
  by (simp add: lcd_ready_def)

lemma lcd_ready_set_rb [simp]: "n \<noteq> 2 \<Longrightarrow> lcd_ready (set_rb n v s) = lcd_ready s"
  by (simp add: lcd_ready_def)

lemma LCD_Init_frame [simp]:
  "clock (LCD_Init s) = clock s + 17515" "trisb (LCD_Init s) = trisb s" "rx (LCD_Init s) = rx s"
  "rcsta (LCD_Init s) = rcsta s" "relay_log (LCD_Init s) = relay_log s"
  "rfid_tag (LCD_Init s) = rfid_tag s" "bit (portb (LCD_Init s)) 0 = bit (portb s) 0"
  "tx (LCD_Init s) = tx s"
  by (simp_all add: LCD_Init_def)

text \<open>\<open>LCD_Clear(); LCD_String(t);\<close>: the idiom every message of the firmware uses.\<close>

definition show_text :: "string \<Rightarrow> mcu \<Rightarrow> mcu" where
  "show_text t s = fold LCD_Char (bytes_of t) (LCD_Clear s)"

lemma show_text:
  assumes "configured (lcd s)" "lcd_ready s" "length t \<le> 16" "0 \<notin> set (bytes_of t)"
  shows "LCD_String (cstr t) (LCD_Clear s) = Some (show_text t s)"
    and "configured (lcd (show_text t s))" "lcd_ready (show_text t s)"
    and "timing_ok (lcd (show_text t s)) = timing_ok (lcd s)"
    and "line1 (lcd (show_text t s)) = line_text t"
    and "clock (show_text t s) = clock s + 2103 + 43 * length t"
    and "trisb (show_text t s) = trisb s" "rx (show_text t s) = rx s" "tx (show_text t s) = tx s"
    and "rcsta (show_text t s) = rcsta s" "relay_log (show_text t s) = relay_log s"
    and "rfid_tag (show_text t s) = rfid_tag s"
    and "bit (portb (show_text t s)) 0 = bit (portb s) 0"
proof -
  have c: "lcd (LCD_Clear s) = (lcd s)\<lparr>ddram := blank, ac := 0, busy_until := clock s + 1523\<rparr>"
    and k: "clock (LCD_Clear s) = clock s + 2103"
    using assms(1,2) by (rule LCD_Clear_configured)+
  have c1: "configured (lcd (LCD_Clear s))" "lcd_ready (LCD_Clear s)"
    "ac (lcd (LCD_Clear s)) + length (bytes_of t) \<le> 0x27"
    using assms c k by (simp_all add: configured_def lcd_ready_def)
  note f = fold_LCD_Char [OF c1]
  show "LCD_String (cstr t) (LCD_Clear s) = Some (show_text t s)"
    using assms(4) by (simp add: cstr_bytes_of show_text_def LCD_String_fold)
  show "configured (lcd (show_text t s))" "lcd_ready (show_text t s)"
    using f by (simp_all add: show_text_def)
  show "timing_ok (lcd (show_text t s)) = timing_ok (lcd s)"
    using f c by (simp add: show_text_def)
  show "line1 (lcd (show_text t s)) = line_text t"
    using f c assms(3) by (simp add: show_text_def line1_def line1_write_at)
  show "clock (show_text t s) = clock s + 2103 + 43 * length t"
    using f k by (simp add: show_text_def)
  show "trisb (show_text t s) = trisb s" "rx (show_text t s) = rx s" "tx (show_text t s) = tx s"
    "rcsta (show_text t s) = rcsta s" "relay_log (show_text t s) = relay_log s"
    "rfid_tag (show_text t s) = rfid_tag s" "bit (portb (show_text t s)) 0 = bit (portb s) 0"
    by (simp_all add: show_text_def fold_LCD_Char_frame LCD_Clear_def)
qed

text \<open>\<open>LCD_String\<close>, when it returns, has only written to the display.\<close>

lemma LCD_String_frame:
  "pred_option (\<lambda>s'. relay_log s' = relay_log s \<and> bit (portb s') 0 = bit (portb s) 0 \<and>
     trisb s' = trisb s \<and> rfid_tag s' = rfid_tag s \<and> rx s' = rx s \<and> rcsta s' = rcsta s)
     (LCD_String bs s)"
proof (induction bs arbitrary: s)
  case (Cons a bs)
  then show ?case
    using Cons.IH [of "LCD_Char a s"] by simp
qed simp

subsection \<open>Properties of the display driver\<close>

text \<open>
  C9: on a controller in 4-bit mode between two bytes that is not busy, \<open>LCD_Command c\<close>
  has the controller execute exactly the instruction \<open>c\<close>, and \<open>LCD_Char c\<close> exactly the
  data write of \<open>c\<close>, both at the second falling edge of E (3 us into the transfer), with
  no timing violation: the byte arrives whole, high nibble first.
\<close>

theorem lcd_byte_delivered:
  assumes "aligned (lcd s)" "lcd_ready s"
  shows "lcd (LCD_Command c s) = lcd_instr (clock s + 3) c (lcd s) \<and>
         lcd (LCD_Char c s) = lcd_data (clock s + 3) c (lcd s)"
  using assms by (simp add: LCD_Command_aligned LCD_Char_aligned lcd_ready_def)

theorem lcd_byte_delivered_witness:
  "aligned (lcd (LCD_Init (por 0 []))) \<and> lcd_ready (LCD_Init (por 0 [])) \<and>
   lcd (LCD_Command 0x0C (LCD_Init (por 0 []))) =
     lcd_instr (clock (LCD_Init (por 0 [])) + 3) 0x0C (lcd (LCD_Init (por 0 []))) \<and>
   lcd (LCD_Char 0x41 (LCD_Init (por 0 []))) =
     lcd_data (clock (LCD_Init (por 0 [])) + 3) 0x41 (lcd (LCD_Init (por 0 [])))"
proof -
  have "aligned (lcd (LCD_Init (por 0 [])))" "lcd_ready (LCD_Init (por 0 []))"
    using LCD_Init_por [of "por 0 []"] by (simp_all add: por_def configured_aligned)
  then show ?thesis
    using lcd_byte_delivered [of "LCD_Init (por 0 [])"] by blast
qed

text \<open>
  C10: the display routines never change the relay: RB0's latch, its direction and the
  relay log are the same after \<open>LCD_Command\<close>, \<open>LCD_Char\<close>, \<open>LCD_Clear\<close>, \<open>LCD_Init\<close>
  and after any \<open>LCD_String\<close> that returns.
\<close>

theorem lcd_keeps_relay:
  "relay_log (LCD_Command c s) = relay_log s \<and> bit (portb (LCD_Command c s)) 0 = bit (portb s) 0 \<and>
   trisb (LCD_Command c s) = trisb s \<and>
   relay_log (LCD_Char c s) = relay_log s \<and> bit (portb (LCD_Char c s)) 0 = bit (portb s) 0 \<and>
   trisb (LCD_Char c s) = trisb s \<and>
   relay_log (LCD_Clear s) = relay_log s \<and> bit (portb (LCD_Clear s)) 0 = bit (portb s) 0 \<and>
   trisb (LCD_Clear s) = trisb s \<and>
   relay_log (LCD_Init s) = relay_log s \<and> bit (portb (LCD_Init s)) 0 = bit (portb s) 0 \<and>
   trisb (LCD_Init s) = trisb s \<and>
   pred_option (\<lambda>s'. relay_log s' = relay_log s \<and> bit (portb s') 0 = bit (portb s) 0 \<and>
     trisb s' = trisb s) (LCD_String bs s)"
  using LCD_String_frame [of s bs] by (cases "LCD_String bs s") (simp_all add: LCD_Clear_def)

text \<open>
  C11: on a configured, idle display, \<open>LCD_Clear(); LCD_String(t);\<close> for a text of at most
  16 characters returns with the text at the start of line 1 and blanks after it, the
  display still configured, idle and without a new timing violation, after
  2103 + 43 us per character.
\<close>

theorem clear_then_print:
  assumes "configured (lcd s)" "lcd_ready s" "length t \<le> 16" "0 \<notin> set (bytes_of t)"
  shows "\<exists>s'. LCD_String (cstr t) (LCD_Clear s) = Some s' \<and> line1 (lcd s') = line_text t \<and>
           configured (lcd s') \<and> lcd_ready s' \<and> timing_ok (lcd s') = timing_ok (lcd s) \<and>
           clock s' = clock s + 2103 + 43 * length t"
  using show_text [OF assms] by blast

theorem clear_then_print_witness:
  "configured (lcd (LCD_Init (por 0 []))) \<and> lcd_ready (LCD_Init (por 0 [])) \<and>
   length ''Scan Badge...'' \<le> 16 \<and> 0 \<notin> set (bytes_of ''Scan Badge...'') \<and>
   (\<exists>s'. LCD_String (cstr ''Scan Badge...'') (LCD_Clear (LCD_Init (por 0 []))) = Some s' \<and>
      line1 (lcd s') = line_text ''Scan Badge...'' \<and> configured (lcd s') \<and> lcd_ready s' \<and>
      timing_ok (lcd s') = timing_ok (lcd (LCD_Init (por 0 []))) \<and>
      clock s' = clock (LCD_Init (por 0 [])) + 2103 + 43 * length ''Scan Badge...'')"
proof -
  have h: "configured (lcd (LCD_Init (por 0 [])))" "lcd_ready (LCD_Init (por 0 []))"
    "length ''Scan Badge...'' \<le> 16" "0 \<notin> set (bytes_of ''Scan Badge...'')"
    using LCD_Init_por [of "por 0 []"] by (simp_all add: por_def)
  show ?thesis
    using h clear_then_print [OF h] by blast
qed

text \<open>
  C12: from the controller's power-on state, \<open>LCD_Init\<close> leaves it in 4-bit mode with two
  lines, display on, cursor and blink off, increment mode, display RAM blank and the
  address counter at 0, with no timing violation (the 15 ms wait covers the power-on
  busy time, and the 0x02 sent in 8-bit mode reads as the function set 0x20), idle again
  when it returns 17.515 ms later.
\<close>

theorem LCD_Init_power_on:
  assumes "lcd s = lcd_por"
  shows "lcd (LCD_Init s) =
           lcd_por\<lparr>dl8 := False, two_lines := True, disp_on := True, busy_until := clock s + 16935\<rparr> \<and>
         clock (LCD_Init s) = clock s + 17515 \<and> lcd_ready (LCD_Init s)"
  using assms by (simp add: LCD_Init_def LCD_Command_xfer lcd_xfer_def lcd_latch_def lcd_por_def
      lcd_exec_def lcd_instr_def lcd_ready_def Let_def hi_nibble_def lo_nibble_def
      join_nibbles_def t_short_def t_long_def)

theorem LCD_Init_power_on_witness:
  "lcd (por 0 []) = lcd_por \<and>
   lcd (LCD_Init (por 0 [])) =
     lcd_por\<lparr>dl8 := False, two_lines := True, disp_on := True, busy_until := 16935\<rparr> \<and>
   clock (LCD_Init (por 0 [])) = 17515 \<and> lcd_ready (LCD_Init (por 0 []))"
  using LCD_Init_power_on [of "por 0 []"] by (simp add: por_def)

text \<open>
  C13: \<open>LCD_Init\<close> is not a reset sequence: run on a controller already configured (a
  warm restart, or a second call), its 0x02 is a return-home instruction, busy for
  1.52 ms, and the next command follows 100 us later, a timing violation.
\<close>

theorem LCD_Init_warm:
  assumes "configured (lcd s)" "lcd_ready s"
  shows "\<not> timing_ok (lcd (LCD_Init s))"
proof -
  let ?s1 = "LCD_Command 0x02 (delay_us 15000 s)"
  have a: "aligned (lcd (delay_us 15000 s))"
    using assms(1) by (simp add: configured_aligned)
  have l1: "lcd ?s1 = (lcd s)\<lparr>timing_ok := timing_ok (lcd s) \<and> busy_until (lcd s) \<le> 15001 + clock s,
              ac := 0, busy_until := 15003 + clock s + t_long\<rparr>"
    using a by (simp add: LCD_Command_aligned lcd_instr_def)
  then have "aligned (lcd ?s1)"
    using assms(1) by (simp add: configured_def aligned_def)
  then have "\<not> timing_ok (lcd (LCD_Command 0x28 ?s1))"
    using l1 by (simp add: LCD_Command_aligned t_long_def)
  then show ?thesis
    by (auto simp: LCD_Init_def dest!: timing_ok_LCD_Command)
qed

theorem LCD_Init_warm_witness:
  "configured (lcd (LCD_Init (por 0 []))) \<and> lcd_ready (LCD_Init (por 0 [])) \<and>
   \<not> timing_ok (lcd (LCD_Init (LCD_Init (por 0 []))))"
proof -
  have h: "configured (lcd (LCD_Init (por 0 [])))" "lcd_ready (LCD_Init (por 0 []))"
    using LCD_Init_por [of "por 0 []"] by (simp_all add: por_def)
  show ?thesis
    using h LCD_Init_warm [OF h] by blast
qed

end
