(* ===== verification/Uart.thy ===== *)
theory Uart
  imports Board "HOL-Library.Monad_Syntax"
begin

text \<open>
  The serial channel of \<open>src/rfid.c\<close>: \<open>UART_Init\<close>, \<open>UART_Read\<close>, \<open>UART_Write\<close> and
  \<open>UART_Write_Text\<close>. The two busy-waits (\<open>while(!PIR1bits.RCIF);\<close> and
  \<open>while(!TXSTAbits.TRMT);\<close>) are \<^theory_text>\<open>partial_function (option)\<close> loops that poll once
  per microsecond; not returning is \<open>None\<close>. The lemmas give their closed forms (the
  receive wait returns exactly when a frame is pending, the transmit wait always
  returns), the receiver's error recovery, the bytes a text puts on the line, and that the
  transmitter never loads a byte over a frame still being shifted out.
\<close>

subsection \<open>Configuration\<close>

definition XTAL_FREQ :: nat where "XTAL_FREQ = 20000000"
definition BAUDRATE :: nat where "BAUDRATE = 9600"

text \<open>
  \<open>SPBRG = (_XTAL_FREQ/(16UL * BAUDRATE)) - 1;\<close> is computed in \<open>unsigned long\<close> (32 bits
  in XC8) and stored in the 8-bit SPBRG register.
\<close>

definition UART_Init :: "mcu \<Rightarrow> mcu" where
  "UART_Init s =
     s\<lparr>spbrg := ucast (word_of_nat XTAL_FREQ div (16 * word_of_nat BAUDRATE) - 1 :: 32 word),
       txsta := 0x24, rcsta := 0x90\<rparr>"

subsection \<open>Receiving\<close>

text \<open>RCIF: the next frame of the line has arrived.\<close>

definition RCIF :: "mcu \<Rightarrow> bool" where
  "RCIF s = (case rx s of [] \<Rightarrow> False | f # _ \<Rightarrow> f_at f \<le> clock s)"

partial_function (option) wait_RCIF :: "mcu \<Rightarrow> mcu option" where
  "wait_RCIF s = (if RCIF s then Some s else wait_RCIF (delay_us 1 s))"

text \<open>
  Reading RCSTA shows the frame's framing error (bit 2, FERR) and overrun error (bit 1,
  OERR); on either the code clears and re-enables the receiver (\<open>RCSTA = 0;
  RCSTA = 0x90;\<close>), then returns RCREG, which pops the frame.
\<close>

definition rx_status :: "frame \<Rightarrow> byte" where
  "rx_status f = (if f_ferr f then 0x04 else 0) OR (if f_oerr f then 0x02 else 0)"

definition UART_Read :: "mcu \<Rightarrow> (byte \<times> mcu) option" where
  "UART_Read s = do {
     s1 \<leftarrow> wait_RCIF s;
     (case rx s1 of
        [] \<Rightarrow> None
      | f # fs \<Rightarrow>
          (let s2 = s1\<lparr>rcsta := rcsta s1 OR rx_status f\<rparr>;
               s3 = (if rcsta s2 AND 0x06 \<noteq> 0 then s2\<lparr>rcsta := 0\<rparr>\<lparr>rcsta := 0x90\<rparr> else s2)
           in Some (f_data f, s3\<lparr>rx := fs\<rparr>)))
   }"

subsection \<open>Transmitting\<close>

text \<open>
  TRMT: the transmit shift register is empty. A loaded byte leaves the line after one
  frame of ten bit times (start, eight data bits, stop); in the high-speed mode one bit
  is \<open>16 (SPBRG + 1)\<close> oscillator cycles.
\<close>

definition TRMT :: "mcu \<Rightarrow> bool" where
  "TRMT s \<longleftrightarrow> tsr_free_at s \<le> clock s"

definition frame_us :: "mcu \<Rightarrow> nat" where
  "frame_us s = 10 * 16 * (unat (spbrg s) + 1) div (XTAL_FREQ div 1000000)"

partial_function (option) wait_TRMT :: "mcu \<Rightarrow> mcu option" where
  "wait_TRMT s = (if TRMT s then Some s else wait_TRMT (delay_us 1 s))"

definition UART_Write :: "byte \<Rightarrow> mcu \<Rightarrow> mcu option" where
  "UART_Write data s = do {
     s1 \<leftarrow> wait_TRMT s;
     Some (s1\<lparr>tx := tx s1 @ [(clock s1, data)], tsr_free_at := clock s1 + frame_us s1\<rparr>)
   }"

fun UART_Write_Text :: "byte list \<Rightarrow> mcu \<Rightarrow> mcu option" where
  "UART_Write_Text [] s = None"
| "UART_Write_Text (c # cs) s = (if c = 0 then Some s else UART_Write c s \<bind> UART_Write_Text cs)"

text \<open>
  Test input: the characters of a text sent back to back by the reader, the first
  arriving at \<open>t0\<close>, one frame (1040 us at 9600 baud) apart, without line errors.
\<close>

definition frames :: "usec \<Rightarrow> string \<Rightarrow> frame list" where
  "frames t0 cs =
     map (\<lambda>(i, c). \<lparr>f_at = t0 + 1040 * i, f_data = of_char c, f_ferr = False, f_oerr = False\<rparr>)
       (enumerate 0 cs)"

text \<open>
  The transmitter never has a byte overwritten: each byte is loaded into TXREG once the
  previous frame has left the shift register, one frame time after it at the earliest.
\<close>

definition tx_spaced :: "mcu \<Rightarrow> bool" where
  "tx_spaced s \<longleftrightarrow> sorted_wrt (\<lambda>a b. fst a + frame_us s \<le> fst b) (tx s) \<and>
     (\<forall>e\<in>set (tx s). fst e + frame_us s \<le> tsr_free_at s)"

subsection \<open>The busy-waits\<close>

lemma wait_RCIF_arrived:
  assumes "rx s = f # fs"
  shows "wait_RCIF s = Some (s\<lparr>clock := max (clock s) (f_at f)\<rparr>)"
  using assms
proof (induction "f_at f - clock s" arbitrary: s)
  case 0
  then have "RCIF s" by (simp add: RCIF_def)
  with "0" show ?case by (simp add: wait_RCIF.simps max_def)
next
  case (Suc n)
  then have "\<not> RCIF s" by (simp add: RCIF_def)
  have "n = f_at f - clock (delay_us 1 s)" "rx (delay_us 1 s) = f # fs"
    using Suc.hyps(2) Suc.prems by simp_all
  then have "wait_RCIF (delay_us 1 s) =
      Some ((delay_us 1 s)\<lparr>clock := max (clock (delay_us 1 s)) (f_at f)\<rparr>)"
    by (rule Suc.hyps(1))
  with \<open>\<not> RCIF s\<close> Suc.hyps(2) show ?case
    by (subst wait_RCIF.simps) (simp add: delay_us_def max_def)
qed

lemma wait_RCIF_returns:
  assumes ret: "wait_RCIF s = Some r"
  shows "rx s \<noteq> []"
proof (rule wait_RCIF.raw_induct [where P = "\<lambda>s r. rx s \<noteq> []", OF _ ret])
  fix w :: "mcu \<Rightarrow> mcu option" and s r
  assume IH: "\<And>s r. w s = Some r \<Longrightarrow> rx s \<noteq> []"
    and eq: "(if RCIF s then Some s else w (delay_us 1 s)) = Some r"
  show "rx s \<noteq> []"
  proof (cases "RCIF s")
    case True
    then show ?thesis by (auto simp: RCIF_def)
  next
    case False
    with eq have "w (delay_us 1 s) = Some r" by simp
    then have "rx (delay_us 1 s) \<noteq> []" by (rule IH)
    then show ?thesis by simp
  qed
qed

lemma wait_RCIF_idle: "rx s = [] \<Longrightarrow> wait_RCIF s = None"
  using wait_RCIF_returns by (cases "wait_RCIF s") auto

lemma wait_TRMT_eq: "wait_TRMT s = Some (s\<lparr>clock := max (clock s) (tsr_free_at s)\<rparr>)"
proof (induction "tsr_free_at s - clock s" arbitrary: s)
  case 0
  then show ?case by (simp add: wait_TRMT.simps TRMT_def max_def)
next
  case (Suc n)
  have "n = tsr_free_at (delay_us 1 s) - clock (delay_us 1 s)"
    using Suc.hyps(2) by (simp add: delay_us_def)
  then have "wait_TRMT (delay_us 1 s) =
      Some ((delay_us 1 s)\<lparr>clock := max (clock (delay_us 1 s)) (tsr_free_at (delay_us 1 s))\<rparr>)"
    by (rule Suc.hyps(1))
  with Suc.hyps(2) show ?case
    by (subst wait_TRMT.simps) (simp add: TRMT_def delay_us_def max_def)
qed

subsection \<open>Closed forms\<close>

text \<open>The receive status register after a frame has been read.\<close>

definition rcsta_after :: "byte \<Rightarrow> frame \<Rightarrow> byte" where
  "rcsta_after r f = (if (r OR rx_status f) AND 0x06 \<noteq> 0 then 0x90 else r OR rx_status f)"

lemma UART_Read_frame [op_simps]:
  assumes "rx s = f # fs"
  shows "UART_Read s =
    Some (f_data f, s\<lparr>clock := max (clock s) (f_at f), rcsta := rcsta_after (rcsta s) f, rx := fs\<rparr>)"
  using assms by (simp add: UART_Read_def wait_RCIF_arrived rcsta_after_def Let_def)

lemma UART_Read_idle: "rx s = [] \<Longrightarrow> UART_Read s = None"
  by (simp add: UART_Read_def wait_RCIF_idle)

lemma rx_status_cases: "rx_status f \<in> {0, 2, 4, 6}"
  by (simp add: rx_status_def)

text \<open>An enabled receiver (SPEN and CREN set, no error flag) stays enabled.\<close>

lemma rcsta_after_enabled [simp]: "rcsta_after 0x90 f = 0x90"
  using rx_status_cases [of f] by (auto simp: rcsta_after_def)

lemma UART_Write_eq [op_simps]:
  "UART_Write d s =
     Some (s\<lparr>clock := max (clock s) (tsr_free_at s),
             tx := tx s @ [(max (clock s) (tsr_free_at s), d)],
             tsr_free_at := max (clock s) (tsr_free_at s) + frame_us s\<rparr>)"
  by (simp add: UART_Write_def wait_TRMT_eq frame_us_def)

lemma UART_Init_frame [simp]:
  "clock (UART_Init s) = clock s" "trisb (UART_Init s) = trisb s" "rx (UART_Init s) = rx s"
  "relay_log (UART_Init s) = relay_log s" "rfid_tag (UART_Init s) = rfid_tag s"
  "portb (UART_Init s) = portb s" "lcd (UART_Init s) = lcd s" "rcsta (UART_Init s) = 0x90"
  "tx (UART_Init s) = tx s"
  by (simp_all add: UART_Init_def)

text \<open>The transmit log grows by one entry per byte, spaced by the frame time.\<close>

lemma frame_us_UART_Write: "UART_Write d s = Some s' \<Longrightarrow> frame_us s' = frame_us s"
  by (auto simp: UART_Write_eq frame_us_def)

lemma take_snoc_prefix:
  assumes "take (Suc (length ys)) xs = ys @ [y]"
  shows "take (length ys) xs = ys"
proof -
  have "take (length ys) xs = take (length ys) (take (Suc (length ys)) xs)"
    by simp
  also have "\<dots> = ys"
    using assms by simp
  finally show ?thesis .
qed

lemma UART_Write_spaced:
  assumes "tx_spaced s" "UART_Write d s = Some s'"
  shows "tx_spaced s'"
proof -
  let ?T = "max (clock s) (tsr_free_at s)" and ?F = "frame_us s"
  have s': "tx s' = tx s @ [(?T, d)]" "tsr_free_at s' = ?T + ?F" "frame_us s' = ?F"
    using assms(2) by (auto simp: UART_Write_eq frame_us_def)
  have o: "sorted_wrt (\<lambda>a b. fst a + ?F \<le> fst b) (tx s)" "\<forall>e\<in>set (tx s). fst e + ?F \<le> tsr_free_at s"
    using assms(1) by (simp_all add: tx_spaced_def)
  then have "\<forall>e\<in>set (tx s). fst e + ?F \<le> ?T"
    by (auto intro: le_trans)
  with o have "sorted_wrt (\<lambda>a b. fst a + ?F \<le> fst b) (tx s @ [(?T, d)])"
    by (simp add: sorted_wrt_append)
  moreover have "\<forall>e\<in>set (tx s @ [(?T, d)]). fst e + ?F \<le> ?T + ?F"
    using \<open>\<forall>e\<in>set (tx s). fst e + ?F \<le> ?T\<close> by auto
  ultimately show ?thesis
    using s' by (simp add: tx_spaced_def)
qed

subsection \<open>Properties of the serial channel\<close>

text \<open>
  C16: the receive wait returns exactly when a frame is still to come, at the frame's
  arrival time (or at once when it has already arrived); on a line that stays silent it
  never returns.
\<close>

theorem wait_RCIF_closed:
  "wait_RCIF s = (case rx s of [] \<Rightarrow> None | f # _ \<Rightarrow> Some (s\<lparr>clock := max (clock s) (f_at f)\<rparr>))"
  by (cases "rx s") (simp_all add: wait_RCIF_idle wait_RCIF_arrived)

text \<open>
  C17: a frame received with a framing or overrun error still has its byte returned by
  \<open>UART_Read\<close> (the error check only resets the receiver, whatever RCSTA held), and the
  receiver is left enabled (RCSTA = 0x90).
\<close>

theorem UART_Read_error:
  assumes "rx s = f # fs" "f_ferr f \<or> f_oerr f"
  shows "UART_Read s = Some (f_data f, s\<lparr>clock := max (clock s) (f_at f), rcsta := 0x90, rx := fs\<rparr>)"
proof -
  have "bit (rcsta s OR rx_status f) 2 \<or> bit (rcsta s OR rx_status f) 1"
    using assms(2) by (auto simp: rx_status_def bit_or_iff)
  then have "bit ((rcsta s OR rx_status f) AND 0x06) 2 \<or> bit ((rcsta s OR rx_status f) AND 0x06) 1"
    by (auto simp: bit_and_iff bit_simps)
  then have "(rcsta s OR rx_status f) AND 0x06 \<noteq> 0"
    by auto
  then show ?thesis
    by (simp add: UART_Read_frame [OF assms(1)] rcsta_after_def)
qed

theorem UART_Read_error_witness:
  "rx (por 0 [\<lparr>f_at = 5, f_data = 0x41, f_ferr = True, f_oerr = False\<rparr>]) =
     [\<lparr>f_at = 5, f_data = 0x41, f_ferr = True, f_oerr = False\<rparr>] \<and>
   (f_ferr \<lparr>f_at = 5, f_data = 0x41 :: byte, f_ferr = True, f_oerr = False\<rparr> \<or>
    f_oerr \<lparr>f_at = 5, f_data = 0x41 :: byte, f_ferr = True, f_oerr = False\<rparr>) \<and>
   UART_Read (por 0 [\<lparr>f_at = 5, f_data = 0x41, f_ferr = True, f_oerr = False\<rparr>]) =
     Some (0x41, (por 0 [])\<lparr>clock := 5, rcsta := 0x90\<rparr>)"
  using UART_Read_error [of "por 0 [\<lparr>f_at = 5, f_data = 0x41, f_ferr = True, f_oerr = False\<rparr>]"
      "\<lparr>f_at = 5, f_data = 0x41, f_ferr = True, f_oerr = False\<rparr>" "[]"]
  by (simp add: por_def)

text \<open>
  C18: \<open>UART_Write_Text\<close> on a NUL-terminated text returns, having loaded the text's bytes
  into TXREG in order, each one frame time after the previous one at the earliest; it does
  not touch the receiver.
\<close>

theorem UART_Write_Text_sends:
  assumes "0 \<notin> set bs"
  shows "\<exists>s'. UART_Write_Text (bs @ 0 # xs) s = Some s' \<and> map snd (tx s') = map snd (tx s) @ bs \<and>
           rx s' = rx s \<and> rcsta s' = rcsta s \<and> spbrg s' = spbrg s"
  using assms
proof (induction bs arbitrary: s)
  case Nil
  then show ?case by simp
next
  case (Cons b bs)
  then obtain s' where "UART_Write_Text (bs @ 0 # xs) (the (UART_Write b s)) = Some s'"
    "map snd (tx s') = map snd (tx (the (UART_Write b s))) @ bs"
    "rx s' = rx s" "rcsta s' = rcsta s" "spbrg s' = spbrg s"
    by (fastforce simp: UART_Write_eq)
  with Cons.prems show ?case
    by (simp add: UART_Write_eq)
qed

theorem UART_Write_Text_sends_witness:
  "0 \<notin> set (bytes_of ''OK'') \<and>
   (\<exists>s'. UART_Write_Text (bytes_of ''OK'' @ [0]) (UART_Init (por 0 [])) = Some s' \<and>
      map snd (tx s') = bytes_of ''OK'' \<and> rx s' = [] \<and> rcsta s' = 0x90 \<and>
      spbrg s' = spbrg (UART_Init (por 0 [])))"
  using UART_Write_Text_sends [of "bytes_of ''OK''" "[]" "UART_Init (por 0 [])"]
  by (simp add: por_def)

text \<open>
  C35: \<open>UART_Write_Text\<close> on a NUL-terminated text returns, and each of its bytes is
  loaded into TXREG only after the previous frame has left the shift register: the
  transmit log stays spaced by the frame time, the bytes sent before are kept, and one
  entry is added per character. The wait on TRMT in \<open>UART_Write\<close> is what ensures it.
\<close>

theorem UART_Write_Text_spaced:
  assumes "tx_spaced s" "0 \<notin> set bs"
  shows "\<exists>s'. UART_Write_Text (bs @ 0 # xs) s = Some s' \<and> tx_spaced s' \<and> frame_us s' = frame_us s \<and>
           take (length (tx s)) (tx s') = tx s \<and> length (tx s') = length (tx s) + length bs"
  using assms
proof (induction bs arbitrary: s)
  case Nil
  then show ?case by simp
next
  case (Cons b bs)
  obtain s1 where w: "UART_Write b s = Some s1" by (simp add: UART_Write_eq)
  have i: "tx_spaced s1" using Cons.prems(1) w by (rule UART_Write_spaced)
  have f: "frame_us s1 = frame_us s" using w by (rule frame_us_UART_Write)
  have p: "tx s1 = tx s @ [(max (clock s) (tsr_free_at s), b)]"
    using w by (auto simp: UART_Write_eq)
  have "UART_Write_Text ((b # bs) @ 0 # xs) s = UART_Write_Text (bs @ 0 # xs) s1"
    using Cons.prems(2) w by simp
  moreover obtain s' where "UART_Write_Text (bs @ 0 # xs) s1 = Some s'" "tx_spaced s'"
    "frame_us s' = frame_us s1" "take (length (tx s1)) (tx s') = tx s1"
    "length (tx s') = length (tx s1) + length bs"
    using Cons.IH [OF i] Cons.prems(2) by auto
  ultimately show ?case
    using f p by (auto intro: take_snoc_prefix)
qed

theorem UART_Write_Text_spaced_witness:
  "tx_spaced (UART_Init (por 0 [])) \<and> 0 \<notin> set (bytes_of ''OK'') \<and>
   (\<exists>s'. UART_Write_Text (bytes_of ''OK'' @ [0]) (UART_Init (por 0 [])) = Some s' \<and> tx_spaced s' \<and>
      frame_us s' = frame_us (UART_Init (por 0 [])) \<and>
      take (length (tx (UART_Init (por 0 [])))) (tx s') = tx (UART_Init (por 0 [])) \<and>
      length (tx s') = length (tx (UART_Init (por 0 []))) + length (bytes_of ''OK''))"
proof -
  have h: "tx_spaced (UART_Init (por 0 []))" "0 \<notin> set (bytes_of ''OK'')"
    by (simp_all add: tx_spaced_def por_def)
  show ?thesis
    using h UART_Write_Text_spaced [OF h, of "[]"] by simp
qed

end
