(* ===== verification/Access.thy ===== *)
theory Access
  imports Prelude
begin

text \<open>
  The access policy of \<open>src/rfid.c\<close>: the compiled-in table \<open>authorized_tags\<close> (string
  pointers ending in a \<open>NULL\<close> sentinel, here \<open>None\<close>), the C library's \<open>strcmp\<close> on
  NUL-terminated byte arrays, and the lookup loop of \<open>Check_RFID\<close> that scans the table
  up to the sentinel. Reading past the end of an array is undefined behaviour and is
  \<open>None\<close>. The lemmas show that the lookup always returns on a terminated buffer and
  that it decides exact equality of the buffer's contents with one of the listed texts.
\<close>

definition authorized_tags :: "byte list option list" where
  "authorized_tags =
     [Some (cstr ''1A2B3C4D5E''), Some (cstr ''5F6G7H8I9J''), Some (cstr ''A1B2C3D4E5''), None]"

text \<open>
  \<open>strcmp\<close> compares \<open>unsigned char\<close>s up to the first difference or the common NUL and
  returns their difference; only its sign and zeroness are specified by C.
\<close>

fun strcmp :: "byte list \<Rightarrow> byte list \<Rightarrow> int option" where
  "strcmp (a # as) (b # bs) =
     (if a \<noteq> b then Some (uint a - uint b) else if a = 0 then Some 0 else strcmp as bs)"
| "strcmp _ _ = None"

text \<open>
  The scan of lines 211 to 225: \<open>Some True\<close> when an entry compares equal (the code then
  grants access and returns), \<open>Some False\<close> when the sentinel is reached (the code falls
  through to the refusal).
\<close>

fun tag_lookup :: "byte list \<Rightarrow> byte list option list \<Rightarrow> bool option" where
  "tag_lookup buf [] = None"
| "tag_lookup buf (None # _) = Some False"
| "tag_lookup buf (Some t # ts) =
     (case strcmp buf t of None \<Rightarrow> None | Some r \<Rightarrow> if r = 0 then Some True else tag_lookup buf ts)"

text \<open>The policy the table stands for: the listed identifiers, as texts.\<close>

definition allowed_ids :: "string list" where
  "allowed_ids = [''1A2B3C4D5E'', ''5F6G7H8I9J'', ''A1B2C3D4E5'']"

subsection \<open>strcmp\<close>

lemma strcmp_terminated:
  "0 \<notin> set as \<Longrightarrow> 0 \<notin> set bs \<Longrightarrow>
     strcmp (as @ 0 # xs) (bs @ 0 # ys) \<noteq> None \<and>
     (strcmp (as @ 0 # xs) (bs @ 0 # ys) = Some 0 \<longleftrightarrow> as = bs)"
proof (induction as arbitrary: bs)
  case Nil
  then show ?case by (cases bs) (auto simp: uint_0_iff)
next
  case (Cons a as)
  show ?case
  proof (cases bs)
    case Nil
    with Cons.prems show ?thesis by (auto simp: uint_0_iff)
  next
    case (Cons b bs')
    with Cons.prems Cons.IH [of bs'] show ?thesis
      by (auto simp: word_uint_eq_iff)
  qed
qed

lemma strcmp_cstr:
  "0 \<notin> set as \<Longrightarrow> 0 \<notin> set (bytes_of t) \<Longrightarrow>
     (\<exists>r. strcmp (as @ 0 # xs) (cstr t) = Some r) \<and>
     (strcmp (as @ 0 # xs) (cstr t) = Some 0 \<longleftrightarrow> as = bytes_of t)"
  using strcmp_terminated [of as "bytes_of t" xs "[]"] by (auto simp: cstr_bytes_of)

subsection \<open>The lookup\<close>

text \<open>The table's entries hold no NUL before their terminator.\<close>

lemma allowed_ids_nul_free: "\<forall>t \<in> set allowed_ids. 0 \<notin> set (bytes_of t)"
  by (simp add: allowed_ids_def)

lemma authorized_tags_eq: "authorized_tags = map (Some \<circ> cstr) allowed_ids @ [None]"
  by (simp add: authorized_tags_def allowed_ids_def)

lemma tag_lookup_table:
  assumes "0 \<notin> set as" "\<forall>t \<in> set ts. 0 \<notin> set (bytes_of t)"
  shows "tag_lookup (as @ 0 # xs) (map (Some \<circ> cstr) ts @ [None]) =
           Some (as \<in> bytes_of ` set ts)"
  using assms(2)
proof (induction ts)
  case Nil
  then show ?case by simp
next
  case (Cons t ts)
  then have "0 \<notin> set (bytes_of t)" by simp
  with assms(1) obtain r where r: "strcmp (as @ 0 # xs) (cstr t) = Some r"
    and z: "r = 0 \<longleftrightarrow> as = bytes_of t"
    using strcmp_cstr by blast
  with Cons show ?case by auto
qed

text \<open>Two texts that differ in their first two characters stay different under any one-character change.\<close>

lemma update_differs:
  assumes "a ! 0 \<noteq> b ! 0" "a ! 1 \<noteq> b ! 1"
  shows "a[j := c] \<noteq> b"
proof
  assume eq: "a[j := c] = b"
  then have "a[j := c] ! 0 = b ! 0" "a[j := c] ! 1 = b ! 1" by simp_all
  with assms show False
    by (cases "j = 0") (simp_all add: nth_list_update_neq)
qed

subsection \<open>Properties of the policy\<close>

text \<open>
  C7: no false authorization from a single corrupted character (spec section 8). If one
  character of an entry of \<open>authorized_tags\<close> is received as another non-NUL byte, the
  scan of the table answers that the identifier is not listed. This holds because the
  entries of the table are pairwise different in their first two characters.
\<close>

theorem single_change_rejected:
  assumes "Some (bs @ [0]) \<in> set authorized_tags" "0 \<notin> set bs" "j < length bs" "c \<noteq> bs ! j" "c \<noteq> 0"
  shows "tag_lookup (bs[j := c] @ 0 # xs) authorized_tags = Some False"
proof -
  from assms(1) obtain t where t: "t \<in> set allowed_ids" "bs = bytes_of t"
    by (auto simp: authorized_tags_eq cstr_def bytes_of_def)
  have nz: "0 \<notin> set (bs[j := c])"
    using assms(2,5) set_update_subset_insert [of bs j c] by blast
  have "bs[j := c] \<notin> bytes_of ` set allowed_ids"
  proof
    assume "bs[j := c] \<in> bytes_of ` set allowed_ids"
    then obtain u where u: "u \<in> set allowed_ids" "bs[j := c] = bytes_of u" by blast
    show False
    proof (cases "u = t")
      case True
      with u t assms(3,4) show False by (metis nth_list_update_eq)
    next
      case False
      with t u have "bytes_of t ! 0 \<noteq> bytes_of u ! 0" "bytes_of t ! 1 \<noteq> bytes_of u ! 1"
        by (auto simp: allowed_ids_def)
      with t u show False using update_differs by metis
    qed
  qed
  then show ?thesis
    using tag_lookup_table [OF nz allowed_ids_nul_free, of xs] by (simp add: authorized_tags_eq)
qed

theorem single_change_rejected_witness:
  "Some (bytes_of ''1A2B3C4D5E'' @ [0]) \<in> set authorized_tags \<and> 0 \<notin> set (bytes_of ''1A2B3C4D5E'') \<and>
   3 < length (bytes_of ''1A2B3C4D5E'') \<and> of_char CHR ''C'' \<noteq> bytes_of ''1A2B3C4D5E'' ! 3 \<and>
   of_char CHR ''C'' \<noteq> (0::byte) \<and>
   tag_lookup ((bytes_of ''1A2B3C4D5E'')[3 := of_char CHR ''C''] @ [0]) authorized_tags = Some False"
proof -
  have h: "Some (bytes_of ''1A2B3C4D5E'' @ [0]) \<in> set authorized_tags" "0 \<notin> set (bytes_of ''1A2B3C4D5E'')"
    "3 < length (bytes_of ''1A2B3C4D5E'')" "of_char CHR ''C'' \<noteq> bytes_of ''1A2B3C4D5E'' ! 3"
    "of_char CHR ''C'' \<noteq> (0::byte)"
    by (simp_all add: authorized_tags_def cstr_def bytes_of_def)
  show ?thesis
    using h single_change_rejected [OF h, of "[]"] by simp
qed

end
