(* ===== verification/Rfid.thy ===== *)
theory Rfid
  imports Lcd Uart Access
begin

text \<open>
  The badge verification loop and the bootstrap of \<open>src/rfid.c\<close>: \<open>Check_RFID\<close> (read ten
  accepted characters into \<open>rfid_tag\<close>, terminate it, scan \<open>authorized_tags\<close>, then
  grant or refuse), \<open>System_Init\<close>, and \<open>main\<close> up to its \<open>while(1)\<close>. The reading loop
  is a \<^theory_text>\<open>partial_function (option)\<close>: it returns only once ten accepted characters
  have arrived. The lemmas characterise what it accepts and consumes, and what one
  pass of \<open>Check_RFID\<close> does to the relay, the display and the clock; that the table
  scan is equivalent to the reference membership decision. The empty interrupt routine
  \<open>ISR\<close> is here too.
\<close>

subsection \<open>Reading a tag\<close>

text \<open>The filter of lines 202 and 203: \<open>'0'..'9'\<close> and \<open>'A'..'F'\<close>.\<close>

definition valid_char :: "byte \<Rightarrow> bool" where
  "valid_char c \<longleftrightarrow> (0x30 \<le> c \<and> c \<le> 0x39) \<or> (0x41 \<le> c \<and> c \<le> 0x46)"

text \<open>An array store \<open>a[i] = v\<close>; out of bounds it is undefined behaviour.\<close>

definition store :: "byte list \<Rightarrow> nat \<Rightarrow> byte \<Rightarrow> byte list option" where
  "store a i v = (if i < length a then Some (a[i := v]) else None)"

text \<open>
  \<open>while(i < 10) {...}\<close> of lines 200 to 207, with the \<open>unsigned char\<close> counter \<open>i\<close>; the
  result is the final counter and state.
\<close>

partial_function (option) read_tag :: "byte \<Rightarrow> mcu \<Rightarrow> (byte \<times> mcu) option" where
  "read_tag i s =
     (if i < 10 then
        (case UART_Read s of
           None \<Rightarrow> None
         | Some (c, s1) \<Rightarrow>
             (if valid_char c then
                (case store (rfid_tag s1) (unat i) c of
                   None \<Rightarrow> None
                 | Some b \<Rightarrow> read_tag (i + 1) (s1\<lparr>rfid_tag := b\<rparr>))
              else read_tag i s1))
      else Some (i, s))"

subsection \<open>Granting and refusing\<close>

text \<open>Lines 215 to 222: the branch taken when an entry matches.\<close>

definition granted :: "mcu \<Rightarrow> mcu option" where
  "granted s = do {
     s \<leftarrow> LCD_String (cstr ''Acces Autorise'') (LCD_Clear s);
     let s = seq [set_rb RELAY_PIN 1, delay_ms 3000, set_rb RELAY_PIN 0, LCD_Clear] s;
     LCD_String (cstr ''Scan Badge...'') s
   }"

text \<open>Lines 228 to 232: the branch taken when the sentinel is reached.\<close>

definition refused :: "mcu \<Rightarrow> mcu option" where
  "refused s = do {
     s \<leftarrow> LCD_String (cstr ''Acces Refuse'') (LCD_Clear s);
     let s = LCD_Clear (delay_ms 2000 s);
     LCD_String (cstr ''Scan Badge...'') s
   }"

text \<open>
  The scan of lines 211 to 225 with its effects: the first entry that compares equal
  grants access and returns; reaching the sentinel falls through to the refusal.
\<close>

fun scan_tags :: "byte list option list \<Rightarrow> mcu \<Rightarrow> mcu option" where
  "scan_tags [] s = None"
| "scan_tags (None # _) s = refused s"
| "scan_tags (Some t # ts) s =
     (case strcmp (rfid_tag s) t of
        None \<Rightarrow> None
      | Some r \<Rightarrow> if r = 0 then granted s else scan_tags ts s)"

definition Check_RFID :: "mcu \<Rightarrow> mcu option" where
  "Check_RFID s = do {
     (i, s) \<leftarrow> read_tag 0 s;
     tag \<leftarrow> store (rfid_tag s) (unat i) 0;
     scan_tags authorized_tags (s\<lparr>rfid_tag := tag\<rparr>)
   }"

subsection \<open>Bootstrap and the main loop\<close>

definition System_Init :: "mcu \<Rightarrow> mcu" where
  "System_Init s = seq
     [write_trisb 0x00,
      \<lambda>s. s\<lparr>trisc := unset_bit 6 (trisc s)\<rparr>,
      \<lambda>s. s\<lparr>trisc := set_bit 7 (trisc s)\<rparr>,
      LCD_Init, UART_Init,
      set_rb RELAY_PIN 0] s"

text \<open>\<open>main\<close> up to its \<open>while(1)\<close> (lines 66 to 73).\<close>

definition main_boot :: "mcu \<Rightarrow> mcu option" where
  "main_boot s = do {
     s \<leftarrow> LCD_String (cstr ''Systeme Securite'') (LCD_Clear (System_Init s));
     let s = LCD_Clear (delay_ms 2000 s);
     LCD_String (cstr ''Scan Badge...'') s
   }"

text \<open>
  The interrupt routine of lines 236 to 238. Its body is empty; the firmware never sets
  GIE, so it never runs, and if it did it would change no state.
\<close>

definition ISR :: "mcu \<Rightarrow> mcu" where
  "ISR s = s"

text \<open>
  The states at the head of \<open>while(1)\<close>: after the bootstrap, and after each completed
  \<open>Check_RFID\<close>.
\<close>

inductive loop_head :: "mcu \<Rightarrow> mcu \<Rightarrow> bool" for s0 :: mcu where
  boot: "main_boot s0 = Some s \<Longrightarrow> loop_head s0 s"
| check: "loop_head s0 s \<Longrightarrow> Check_RFID s = Some s' \<Longrightarrow> loop_head s0 s'"

subsection \<open>What the reading loop computes\<close>

text \<open>
  \<open>collect n fs\<close>: the first \<open>n\<close> accepted characters of the frames \<open>fs\<close> and the number of
  frames read up to and including the last of them; \<open>None\<close> when \<open>fs\<close> holds fewer than
  \<open>n\<close> accepted characters. \<open>arrive\<close> is the time after waiting for a sequence of frames.
\<close>

fun collect :: "nat \<Rightarrow> frame list \<Rightarrow> (byte list \<times> nat) option" where
  "collect 0 fs = Some ([], 0)"
| "collect (Suc n) [] = None"
| "collect (Suc n) (f # fs) =
     (if valid_char (f_data f)
      then map_option (\<lambda>(bs, k). (f_data f # bs, Suc k)) (collect n fs)
      else map_option (\<lambda>(bs, k). (bs, Suc k)) (collect (Suc n) fs))"

text \<open>The characters a tag identifier is made of: the hexadecimal digits, upper case.\<close>

definition hex_digit :: "byte \<Rightarrow> bool" where
  "hex_digit c \<longleftrightarrow> c \<in> set (bytes_of ''0123456789ABCDEF'')"

definition arrive :: "usec \<Rightarrow> frame list \<Rightarrow> usec" where
  "arrive c fs = fold (\<lambda>f c. max c (f_at f)) fs c"

text \<open>The state after the reading loop has consumed \<open>k\<close> frames and stored \<open>bs\<close> from index \<open>i\<close>.\<close>

definition tag_state :: "byte \<Rightarrow> mcu \<Rightarrow> byte list \<Rightarrow> nat \<Rightarrow> mcu" where
  "tag_state i s bs k =
     s\<lparr>clock := arrive (clock s) (take k (rx s)), rx := drop k (rx s),
       rfid_tag := take (unat i) (rfid_tag s) @ bs @ drop 10 (rfid_tag s)\<rparr>"

text \<open>
  The state at the head of the main loop: relay output driven low, receiver enabled,
  display configured, idle and showing the prompt.
\<close>

definition idle :: "mcu \<Rightarrow> bool" where
  "idle s \<longleftrightarrow> trisb s = 0 \<and> \<not> bit (portb s) 0 \<and> rcsta s = 0x90 \<and> length (rfid_tag s) = 11 \<and>
     configured (lcd s) \<and> lcd_ready s \<and> line1 (lcd s) = line_text ''Scan Badge...''"

text \<open>The state \<open>main\<close> reaches its loop in: the prompt after the splash screen.\<close>

definition boot_state :: "byte \<Rightarrow> frame list \<Rightarrow> mcu" where
  "boot_state pb inp =
     show_text ''Scan Badge...'' (delay_us 2000000 (show_text ''Systeme Securite'' (System_Init (por pb inp))))"

text \<open>The state after a complete tag has been read and terminated.\<close>

definition tagged :: "mcu \<Rightarrow> byte list \<Rightarrow> nat \<Rightarrow> mcu" where
  "tagged s bs k = (tag_state 0 s bs k)\<lparr>rfid_tag := bs @ [0]\<rparr>"

subsection \<open>The reading loop\<close>

lemma arrive_simps [simp]:
  "arrive c [] = c"
  "arrive c (f # fs) = arrive (max c (f_at f)) fs"
  by (simp_all add: arrive_def)

lemma arrive_ge: "c \<le> arrive c fs"
  by (induction fs arbitrary: c) (auto intro: le_trans [OF max.cobounded1])

lemma read_tag_done: "\<not> i < 10 \<Longrightarrow> read_tag i s = Some (i, s)"
  by (subst read_tag.simps) simp

lemma take_update_Suc: "n < length xs \<Longrightarrow> take (Suc n) (xs[n := c]) = take n xs @ [c]"
  by (simp add: take_Suc_conv_app_nth)

lemma read_tag_collect:
  assumes "rcsta s = 0x90" "length (rfid_tag s) = 11" "unat i \<le> 10"
  shows "read_tag i s =
     map_option (\<lambda>(bs, k). (10, tag_state i s bs k)) (collect (10 - unat i) (rx s))"
  using assms
proof (induction "rx s" arbitrary: s i)
  case Nil
  show ?case
  proof (cases "i < 10")
    case True
    then have "10 - unat i = Suc (9 - unat i)" by unat_arith
    with True Nil show ?thesis
      by (subst read_tag.simps) (simp add: UART_Read_idle)
  next
    case False
    with Nil.prems have "i = 10" by unat_arith
    moreover have "tag_state 10 s [] 0 = s"
      using Nil.prems by (simp add: tag_state_def)
    ultimately show ?thesis by (simp add: read_tag_done)
  qed
next
  case (Cons f fs)
  show ?case
  proof (cases "i < 10")
    case False
    with Cons.prems have "i = 10" by unat_arith
    moreover have "tag_state 10 s [] 0 = s"
      using Cons.prems by (simp add: tag_state_def)
    ultimately show ?thesis by (simp add: read_tag_done)
  next
    case True
    then have n: "10 - unat i = Suc (9 - unat i)" and lt: "unat i < 10" by unat_arith+
    let ?s1 = "s\<lparr>clock := max (clock s) (f_at f), rcsta := 0x90, rx := fs\<rparr>"
    have rd: "UART_Read s = Some (f_data f, ?s1)"
      using Cons.prems by (simp add: UART_Read_frame [OF Cons.hyps(2) [symmetric]])
    show ?thesis
    proof (cases "valid_char (f_data f)")
      case v: True
      let ?s2 = "?s1\<lparr>rfid_tag := (rfid_tag s)[unat i := f_data f]\<rparr>"
      have st: "store (rfid_tag ?s1) (unat i) (f_data f) = Some ((rfid_tag s)[unat i := f_data f])"
        using Cons.prems lt by (simp add: store_def)
      have "unat (i + 1) = unat i + 1"
        using lt by (simp add: unat_word_ariths)
      then have IH: "read_tag (i + 1) ?s2 =
          map_option (\<lambda>(bs, k). (10, tag_state (i + 1) ?s2 bs k)) (collect (9 - unat i) fs)"
        using Cons.prems lt by (subst Cons.hyps(1)) simp_all
      show ?thesis
      proof (cases "collect (9 - unat i) fs")
        case None
        with True v rd st IH n show ?thesis
          using Cons.hyps(2) [symmetric] by (subst read_tag.simps) simp
      next
        case (Some r)
        obtain bs k where r: "r = (bs, k)" by fastforce
        have "tag_state (i + 1) ?s2 bs k = tag_state i s (f_data f # bs) (Suc k)"
          using Cons.prems Cons.hyps(2) [symmetric] lt \<open>unat (i + 1) = unat i + 1\<close>
          by (simp add: tag_state_def take_update_Suc)
        with True v rd st IH n Some r show ?thesis
          using Cons.hyps(2) [symmetric] by (subst read_tag.simps) simp
      qed
    next
      case nv: False
      have IH: "read_tag i ?s1 =
          map_option (\<lambda>(bs, k). (10, tag_state i ?s1 bs k)) (collect (10 - unat i) fs)"
        using Cons.prems by (subst Cons.hyps(1)) simp_all
      show ?thesis
      proof (cases "collect (10 - unat i) fs")
        case None
        with True nv rd IH n show ?thesis
          using Cons.hyps(2) [symmetric] by (subst read_tag.simps) simp
      next
        case (Some r)
        obtain bs k where r: "r = (bs, k)" by fastforce
        have "tag_state i ?s1 bs k = tag_state i s bs (Suc k)"
          using Cons.prems Cons.hyps(2) [symmetric] by (simp add: tag_state_def)
        with True nv rd IH n Some r show ?thesis
          using Cons.hyps(2) [symmetric] by (subst read_tag.simps) simp
      qed
    qed
  qed
qed

lemma collect_Some:
  "collect n fs = Some (bs, k) \<Longrightarrow>
     length bs = n \<and> set bs \<subseteq> Collect valid_char \<and> k \<le> length fs \<and>
     bs = filter valid_char (map f_data (take k fs)) \<and> (0 < n \<longrightarrow> 0 < k \<and> valid_char (f_data (fs ! (k - 1))))"
proof (induction n fs arbitrary: bs k rule: collect.induct)
  case (1 fs)
  then show ?case by simp
next
  case (2 n)
  then show ?case by simp
next
  case (3 n f fs)
  then show ?case
    by (cases n) (auto split: if_splits simp: nth_Cons')
qed

text \<open>The equations of \<open>collect\<close> at a numeral, for evaluating it on concrete input.\<close>

lemma collect_numeral [simp]:
  "collect (numeral n) [] = None"
  "collect (numeral n) (f # fs) =
     (if valid_char (f_data f)
      then map_option (\<lambda>(bs, k). (f_data f # bs, Suc k)) (collect (pred_numeral n) fs)
      else map_option (\<lambda>(bs, k). (bs, Suc k)) (collect (numeral n) fs))"
  by (simp_all add: numeral_eq_Suc)

lemma collect_None_iff:
  "collect n fs = None \<longleftrightarrow> length (filter valid_char (map f_data fs)) < n"
  by (induction n fs rule: collect.induct) auto

lemma collect_take:
  "collect n fs = Some (bs, k) \<Longrightarrow> bs = take n (filter valid_char (map f_data fs))"
  by (induction n fs arbitrary: bs k rule: collect.induct) (auto split: if_splits)

lemma valid_char_unat: "valid_char c \<longleftrightarrow> unat c \<in> {48..57} \<union> {65..70}"
  by (auto simp: valid_char_def word_le_nat_alt)

lemma hex_digit_unat: "hex_digit c \<longleftrightarrow> unat c \<in> {48..57} \<union> {65..70}"
proof -
  have "hex_digit c \<longleftrightarrow> unat c \<in> set (map of_char ''0123456789ABCDEF'')"
    by (auto simp: hex_digit_def word_unat_eq_iff)
  also have "\<dots> \<longleftrightarrow> unat c \<in> {48..57} \<union> {65..70}"
    by (simp add: atLeastAtMost_iff) presburger
  finally show ?thesis .
qed

lemma valid_char_hex: "valid_char = hex_digit"
  by (rule ext) (simp add: valid_char_unat hex_digit_unat)

text \<open>After the loop, the accepted characters still to come are those after the first \<open>n\<close>.\<close>

lemma collect_drop_filter:
  "collect n fs = Some (bs, k) \<Longrightarrow>
     filter valid_char (map f_data (drop k fs)) = drop n (filter valid_char (map f_data fs))"
  by (induction n fs arbitrary: bs k rule: collect.induct) (auto split: if_splits)

lemma collect_valid:
  "list_all (\<lambda>f. valid_char (f_data f)) fs \<Longrightarrow>
     collect (length fs) (fs @ rest) = Some (map f_data fs, length fs)"
  by (induction fs) auto

text \<open>Frames arriving in order, none before the clock, are waited for until the last one.\<close>

lemma arrive_sorted:
  "sorted (map f_at fs) \<Longrightarrow> fs \<noteq> [] \<Longrightarrow> c \<le> f_at (hd fs) \<Longrightarrow> 0 < k \<Longrightarrow> k \<le> length fs \<Longrightarrow>
     arrive c (take k fs) = f_at (fs ! (k - 1))"
proof (induction fs arbitrary: c k)
  case Nil
  then show ?case by simp
next
  case (Cons f fs)
  show ?case
  proof (cases "k = 1")
    case True
    with Cons.prems show ?thesis by simp
  next
    case False
    then obtain k' where k: "k = Suc k'" "0 < k'" using Cons.prems(4) by (cases k) auto
    have "max c (f_at f) = f_at f" using Cons.prems(3) by simp
    moreover have "fs \<noteq> []" "f_at f \<le> f_at (hd fs)" "sorted (map f_at fs)"
      using Cons.prems k by (cases fs; auto)+
    ultimately show ?thesis
      using Cons.IH [of "f_at f" k'] Cons.prems(5) k by simp
  qed
qed

lemma valid_char_nonzero: "valid_char c \<Longrightarrow> c \<noteq> 0"
  by (auto simp: valid_char_def)

subsection \<open>One pass of Check_RFID\<close>

lemma msg_literals:
  "0 \<notin> set (bytes_of ''Acces Autorise'')" "length ''Acces Autorise'' = 14"
  "0 \<notin> set (bytes_of ''Acces Refuse'')" "length ''Acces Refuse'' = 12"
  "0 \<notin> set (bytes_of ''Scan Badge...'')" "length ''Scan Badge...'' = 13"
  "0 \<notin> set (bytes_of ''Systeme Securite'')" "length ''Systeme Securite'' = 16"
  by simp_all

lemma granted_eq:
  assumes "configured (lcd s)" "lcd_ready s"
  shows "granted s = Some (show_text ''Scan Badge...''
            (set_rb 0 0 (delay_us 3000000 (set_rb 0 1 (show_text ''Acces Autorise'' s)))))"
proof -
  let ?a = "show_text ''Acces Autorise'' s"
  let ?b = "set_rb 0 0 (delay_us 3000000 (set_rb 0 1 ?a))"
  have a: "LCD_String (cstr ''Acces Autorise'') (LCD_Clear s) = Some ?a"
    "configured (lcd ?a)" "lcd_ready ?a"
    using show_text [OF assms] msg_literals by simp_all
  then have "configured (lcd ?b)" "lcd_ready ?b"
    by (simp_all add: lcd_ready_def)
  then have "LCD_String (cstr ''Scan Badge...'') (LCD_Clear ?b) = Some (show_text ''Scan Badge...'' ?b)"
    using show_text msg_literals by simp
  with a show ?thesis
    by (simp add: granted_def pin_defs)
qed

lemma refused_eq:
  assumes "configured (lcd s)" "lcd_ready s"
  shows "refused s = Some (show_text ''Scan Badge...'' (delay_us 2000000 (show_text ''Acces Refuse'' s)))"
proof -
  let ?a = "show_text ''Acces Refuse'' s"
  have a: "LCD_String (cstr ''Acces Refuse'') (LCD_Clear s) = Some ?a"
    "configured (lcd (delay_us 2000000 ?a))" "lcd_ready (delay_us 2000000 ?a)"
    using show_text [OF assms] msg_literals by simp_all
  then have "LCD_String (cstr ''Scan Badge...'') (LCD_Clear (delay_us 2000000 ?a)) =
      Some (show_text ''Scan Badge...'' (delay_us 2000000 ?a))"
    using show_text msg_literals by simp
  with a show ?thesis
    by (simp add: refused_def)
qed

lemma scan_tags_lookup:
  "scan_tags tags s =
     (case tag_lookup (rfid_tag s) tags of None \<Rightarrow> None | Some b \<Rightarrow> if b then granted s else refused s)"
  by (induction tags s rule: scan_tags.induct) (auto split: option.splits)

lemma tagged_fields [simp]:
  "trisb (tagged s bs k) = trisb s" "portb (tagged s bs k) = portb s" "rcsta (tagged s bs k) = rcsta s"
  "lcd (tagged s bs k) = lcd s" "relay_log (tagged s bs k) = relay_log s"
  "clock (tagged s bs k) = arrive (clock s) (take k (rx s))" "rx (tagged s bs k) = drop k (rx s)"
  "rfid_tag (tagged s bs k) = bs @ [0]"
  by (simp_all add: tagged_def tag_state_def)

lemma idle_tagged:
  assumes "idle s"
  shows "configured (lcd (tagged s bs k))" "lcd_ready (tagged s bs k)"
  using assms arrive_ge [of "clock s" "take k (rx s)"] by (auto simp: idle_def lcd_ready_def)

lemma Check_RFID_eq:
  assumes "idle s" "collect 10 (rx s) = Some (bs, k)"
  shows "Check_RFID s =
     (if bs \<in> bytes_of ` set allowed_ids then granted (tagged s bs k) else refused (tagged s bs k))"
proof -
  from assms(2) have len: "length bs = 10" and nz: "0 \<notin> set bs"
    using collect_Some valid_char_nonzero by blast+
  from assms(1) have "rcsta s = 0x90" "length (rfid_tag s) = 11"
    by (simp_all add: idle_def)
  then have rt: "read_tag 0 s = Some (10, tag_state 0 s bs k)"
    using assms(2) by (simp add: read_tag_collect)
  have "length (drop 10 (rfid_tag s)) = 1"
    using \<open>length (rfid_tag s) = 11\<close> by simp
  then obtain x where "drop 10 (rfid_tag s) = [x]"
    by (metis One_nat_def length_0_conv length_Suc_conv)
  then have "store (rfid_tag (tag_state 0 s bs k)) (unat (10::byte)) 0 = Some (bs @ [0])"
    using len by (simp add: tag_state_def store_def list_update_append)
  moreover have "tag_lookup (bs @ [0]) authorized_tags = Some (bs \<in> bytes_of ` set allowed_ids)"
    using tag_lookup_table [OF nz allowed_ids_nul_free, of "[]"] by (simp add: authorized_tags_eq)
  ultimately show ?thesis
    using rt by (simp add: Check_RFID_def scan_tags_lookup tagged_def)
qed

lemma Check_RFID_blocks:
  assumes "idle s" "collect 10 (rx s) = None"
  shows "Check_RFID s = None"
proof -
  from assms(1) have "rcsta s = 0x90" "length (rfid_tag s) = 11"
    by (simp_all add: idle_def)
  with assms(2) show ?thesis
    by (simp add: Check_RFID_def read_tag_collect)
qed

lemma Check_RFID_step:
  assumes "idle s" "collect 10 (rx s) = Some (bs, k)"
  shows "\<exists>s'. Check_RFID s = Some s' \<and> idle s' \<and> timing_ok (lcd s') = timing_ok (lcd s) \<and>
     rx s' = drop k (rx s) \<and> rfid_tag s' = bs @ [0] \<and>
     relay_log s' = relay_log s @
       (if bs \<in> bytes_of ` set allowed_ids
        then [(arrive (clock s) (take k (rx s)) + 2705, Some True),
              (arrive (clock s) (take k (rx s)) + 3002705, Some False)]
        else []) \<and>
     clock s' = arrive (clock s) (take k (rx s)) +
       (if bs \<in> bytes_of ` set allowed_ids then 3005367 else 2005281)"
proof -
  let ?x = "tagged s bs k"
  have "length bs = 10"
    using collect_Some [OF assms(2)] by blast
  moreover have "trisb s = 0" "\<not> bit (portb s) 0" "rcsta s = 0x90"
    using assms(1) by (simp_all add: idle_def)
  ultimately have i: "trisb s = 0" "\<not> bit (portb s) 0" "rcsta s = 0x90" "length bs = 10"
    by simp_all
  note x = idle_tagged [OF assms(1), of bs k]
  show ?thesis
  proof (cases "bs \<in> bytes_of ` set allowed_ids")
    case True
    let ?a = "show_text ''Acces Autorise'' ?x"
    let ?b = "set_rb 0 0 (delay_us 3000000 (set_rb 0 1 ?a))"
    let ?c = "show_text ''Scan Badge...'' ?b"
    note a = show_text [OF x, of "''Acces Autorise''"]
    have b: "configured (lcd ?b)" "lcd_ready ?b" "trisb ?b = 0" "\<not> bit (portb ?b) 0"
      "relay_log ?b = relay_log s @ [(arrive (clock s) (take k (rx s)) + 2705, Some True),
                                     (arrive (clock s) (take k (rx s)) + 3002705, Some False)]"
      "timing_ok (lcd ?b) = timing_ok (lcd s)"
      using a msg_literals i by (simp_all add: set_rb_relay lcd_ready_def bit_assign_bit)
    note c = show_text [OF b(1,2), of "''Scan Badge...''"]
    have "Check_RFID s = Some ?c"
      using assms x True by (simp add: Check_RFID_eq granted_eq)
    moreover have "idle ?c"
      using c b a i msg_literals by (simp add: idle_def)
    ultimately show ?thesis
      using True b c a msg_literals by (intro exI [of _ ?c]) simp
  next
    case False
    let ?a = "delay_us 2000000 (show_text ''Acces Refuse'' ?x)"
    let ?c = "show_text ''Scan Badge...'' ?a"
    note a = show_text [OF x, of "''Acces Refuse''"]
    have b: "configured (lcd ?a)" "lcd_ready ?a"
      using a msg_literals by simp_all
    note c = show_text [OF b, of "''Scan Badge...''"]
    have "Check_RFID s = Some ?c"
      using assms x False by (simp add: Check_RFID_eq refused_eq)
    moreover have "idle ?c"
      using c b a i msg_literals by (simp add: idle_def)
    ultimately show ?thesis
      using False c a msg_literals by (intro exI [of _ ?c]) simp
  qed
qed

subsection \<open>Bootstrap and the loop invariant\<close>

lemma System_Init_por:
  shows "configured (lcd (System_Init (por pb inp)))" "timing_ok (lcd (System_Init (por pb inp)))"
    "lcd_ready (System_Init (por pb inp))" "trisb (System_Init (por pb inp)) = 0"
    "\<not> bit (portb (System_Init (por pb inp))) 0" "rcsta (System_Init (por pb inp)) = 0x90"
    "rx (System_Init (por pb inp)) = inp" "rfid_tag (System_Init (por pb inp)) = replicate 11 0"
    "clock (System_Init (por pb inp)) = 17515"
    "relay_log (System_Init (por pb inp)) =
       (if bit pb 0 then [(0, Some True), (17515, Some False)] else [(0, Some False)])"
proof -
  let ?s = "(write_trisb 0 (por pb inp))\<lparr>trisc := set_bit 7 (unset_bit 6 (trisc (por pb inp)))\<rparr>"
  have e: "System_Init (por pb inp) = set_rb 0 0 (UART_Init (LCD_Init ?s))"
    by (simp add: System_Init_def pin_defs write_trisb_def log_relay_def)
  have l: "lcd ?s = lcd_por"
    by (simp add: write_trisb_def log_relay_def por_def)
  note i = LCD_Init_por [OF l]
  have w: "trisb ?s = 0" "bit (portb ?s) 0 = bit pb 0" "clock ?s = 0" "rx ?s = inp" "rcsta ?s = 0"
    "rfid_tag ?s = replicate 11 0" "relay_log ?s = [(0, Some (bit pb 0))]"
    by (simp_all add: write_trisb_def log_relay_def por_def relay_out_def)
  show "configured (lcd (System_Init (por pb inp)))" "timing_ok (lcd (System_Init (por pb inp)))"
    "lcd_ready (System_Init (por pb inp))"
    using i w by (simp_all add: e set_rb_relay lcd_ready_def)
  show "trisb (System_Init (por pb inp)) = 0" "\<not> bit (portb (System_Init (por pb inp))) 0"
    "rcsta (System_Init (por pb inp)) = 0x90" "rx (System_Init (por pb inp)) = inp"
    "rfid_tag (System_Init (por pb inp)) = replicate 11 0" "clock (System_Init (por pb inp)) = 17515"
    using w by (simp_all add: e set_rb_relay bit_assign_bit)
  show "relay_log (System_Init (por pb inp)) =
       (if bit pb 0 then [(0, Some True), (17515, Some False)] else [(0, Some False)])"
    using w by (simp add: e set_rb_relay)
qed

lemma main_boot_eq:
  "main_boot (por pb inp) = Some (boot_state pb inp)"
  "idle (boot_state pb inp)" "timing_ok (lcd (boot_state pb inp))" "rx (boot_state pb inp) = inp"
  "clock (boot_state pb inp) = 2022968"
  "relay_log (boot_state pb inp) =
     (if bit pb 0 then [(0, Some True), (17515, Some False)] else [(0, Some False)])"
proof -
  let ?i = "System_Init (por pb inp)"
  let ?a = "show_text ''Systeme Securite'' ?i"
  let ?b = "delay_us 2000000 ?a"
  note i = System_Init_por [of pb inp]
  note a = show_text [OF i(1,3), of "''Systeme Securite''"]
  have b: "configured (lcd ?b)" "lcd_ready ?b"
    using a msg_literals by simp_all
  note c = show_text [OF b, of "''Scan Badge...''"]
  show "main_boot (por pb inp) = Some (boot_state pb inp)"
    using a b c msg_literals by (simp add: main_boot_def boot_state_def)
  show "idle (boot_state pb inp)"
    using c b a i msg_literals by (simp add: idle_def boot_state_def)
  show "timing_ok (lcd (boot_state pb inp))" "rx (boot_state pb inp) = inp"
    "clock (boot_state pb inp) = 2022968"
    "relay_log (boot_state pb inp) =
       (if bit pb 0 then [(0, Some True), (17515, Some False)] else [(0, Some False)])"
    using c a i msg_literals by (simp_all add: boot_state_def)
qed

lemma loop_head_idle:
  assumes "loop_head (por pb inp) s"
  shows "idle s \<and> timing_ok (lcd s)"
  using assms
proof (induction rule: loop_head.induct)
  case (boot s)
  then show ?case
    using main_boot_eq [of pb inp] by simp
next
  case (check s s')
  show ?case
  proof (cases "collect 10 (rx s)")
    case None
    with check show ?thesis by (simp add: Check_RFID_blocks)
  next
    case (Some r)
    obtain bs k where "r = (bs, k)" by fastforce
    with Some check Check_RFID_step [of s bs k] show ?thesis by auto
  qed
qed

subsection \<open>Properties of the reading loop\<close>

text \<open>
  C3: started from an enabled receiver and the 11-byte buffer, the reading loop returns as
  soon as ten hexadecimal digits (\<open>'0'..'9'\<close>, \<open>'A'..'F'\<close>) have arrived, with the counter
  at 10: it has consumed the frames up to and including the tenth digit and no more, the
  buffer's first ten bytes are those digits in order, every other byte is dropped, and the
  terminator cell is untouched.
\<close>

theorem read_tag_filter:
  assumes "rcsta s = 0x90" "length (rfid_tag s) = 11"
    and "10 \<le> length (filter hex_digit (map f_data (rx s)))"
  shows "\<exists>s' k. read_tag 0 s = Some (10, s') \<and> rx s' = drop k (rx s) \<and> 0 < k \<and>
           hex_digit (f_data (rx s ! (k - 1))) \<and>
           take 10 (rfid_tag s') = filter hex_digit (map f_data (take k (rx s))) \<and>
           take 10 (rfid_tag s') = take 10 (filter hex_digit (map f_data (rx s))) \<and>
           drop 10 (rfid_tag s') = drop 10 (rfid_tag s)"
proof -
  obtain bs k where c: "collect 10 (rx s) = Some (bs, k)"
    using assms(3) collect_None_iff [of 10 "rx s"] by (cases "collect 10 (rx s)") (auto simp: valid_char_hex)
  note p = collect_Some [OF c] collect_take [OF c]
  have "read_tag 0 s = Some (10, tag_state 0 s bs k)"
    using assms(1,2) c by (simp add: read_tag_collect)
  moreover have "length bs = 10"
    using p by blast
  moreover have "rfid_tag (tag_state 0 s bs k) = bs @ drop 10 (rfid_tag s)"
    by (simp add: tag_state_def)
  ultimately have "take 10 (rfid_tag (tag_state 0 s bs k)) = bs"
    "drop 10 (rfid_tag (tag_state 0 s bs k)) = drop 10 (rfid_tag s)"
    "read_tag 0 s = Some (10, tag_state 0 s bs k)"
    by simp_all
  then show ?thesis
    using p by (intro exI [of _ "tag_state 0 s bs k"] exI [of _ k]) (simp add: tag_state_def valid_char_hex)
qed

theorem read_tag_filter_witness:
  "rcsta (UART_Init (por 0 (frames 0 ''1A-2B*3C4D5E''))) = 0x90 \<and>
   length (rfid_tag (UART_Init (por 0 (frames 0 ''1A-2B*3C4D5E'')))) = 11 \<and>
   10 \<le> length (filter hex_digit (map f_data (rx (UART_Init (por 0 (frames 0 ''1A-2B*3C4D5E'')))))) \<and>
   (\<exists>s' k. read_tag 0 (UART_Init (por 0 (frames 0 ''1A-2B*3C4D5E''))) = Some (10, s') \<and>
      rx s' = drop k (frames 0 ''1A-2B*3C4D5E'') \<and> 0 < k \<and>
      hex_digit (f_data (frames 0 ''1A-2B*3C4D5E'' ! (k - 1))) \<and>
      take 10 (rfid_tag s') = filter hex_digit (map f_data (take k (frames 0 ''1A-2B*3C4D5E''))) \<and>
      take 10 (rfid_tag s') = bytes_of ''1A2B3C4D5E'' \<and>
      drop 10 (rfid_tag s') = [0])"
proof -
  have h: "rcsta (UART_Init (por 0 (frames 0 ''1A-2B*3C4D5E''))) = 0x90"
    "length (rfid_tag (UART_Init (por 0 (frames 0 ''1A-2B*3C4D5E'')))) = 11"
    "10 \<le> length (filter hex_digit (map f_data (rx (UART_Init (por 0 (frames 0 ''1A-2B*3C4D5E''))))))"
    "take 10 (filter hex_digit (map f_data (frames 0 ''1A-2B*3C4D5E''))) = bytes_of ''1A2B3C4D5E''"
    by (simp_all add: por_def frames_def hex_digit_def)
  show ?thesis
    using h read_tag_filter [OF h(1-3)] by (simp add: por_def)
qed

text \<open>
  C26: the scan of \<open>authorized_tags\<close> with its early \<open>return\<close> (lines 211 to 232) is
  equivalent to the reference decision: on any NUL-terminated buffer it runs the
  authorized branch if the buffer's contents are one of the listed identifiers and the
  refusal otherwise.
\<close>

theorem scan_tags_reference:
  assumes "nul_terminated (rfid_tag s)"
  shows "scan_tags authorized_tags s =
           (if c_contents (rfid_tag s) \<in> bytes_of ` set allowed_ids then granted s else refused s)"
proof -
  obtain rest where r: "rfid_tag s = c_contents (rfid_tag s) @ 0 # rest"
    and nz: "0 \<notin> set (c_contents (rfid_tag s))"
    using c_contents_split [OF assms] by blast
  have "tag_lookup (c_contents (rfid_tag s) @ 0 # rest) (map (Some \<circ> cstr) allowed_ids @ [None]) =
      Some (c_contents (rfid_tag s) \<in> bytes_of ` set allowed_ids)"
    by (rule tag_lookup_table [OF nz allowed_ids_nul_free])
  then have "tag_lookup (rfid_tag s) authorized_tags = Some (c_contents (rfid_tag s) \<in> bytes_of ` set allowed_ids)"
    by (simp add: authorized_tags_eq r [symmetric])
  then show ?thesis
    by (simp add: scan_tags_lookup)
qed

theorem scan_tags_reference_witness:
  "nul_terminated (rfid_tag ((por 0 [])\<lparr>rfid_tag := cstr ''A1B2C3D4E5''\<rparr>)) \<and>
   scan_tags authorized_tags ((por 0 [])\<lparr>rfid_tag := cstr ''A1B2C3D4E5''\<rparr>) =
     granted ((por 0 [])\<lparr>rfid_tag := cstr ''A1B2C3D4E5''\<rparr>)"
proof -
  have h: "nul_terminated (rfid_tag ((por 0 [])\<lparr>rfid_tag := cstr ''A1B2C3D4E5''\<rparr>))"
    by (simp add: nul_terminated_def cstr_bytes_of)
  have "c_contents (rfid_tag ((por 0 [])\<lparr>rfid_tag := cstr ''A1B2C3D4E5''\<rparr>)) \<in> bytes_of ` set allowed_ids"
    by (simp add: cstr_bytes_of allowed_ids_def del: bytes_of_simps)
       (simp add: c_contents_def)
  then show ?thesis
    using h scan_tags_reference [OF h] by simp
qed

end
