(* ===== verification/Door.thy ===== *)
theory Door
  imports Rfid
begin

text \<open>
  The specification's view of the controller (its section 4.4), as an abstract state
  machine, and the proof that the firmware refines it. The abstract state holds the
  identifier under construction (\<open>seen\<close>), the verdicts given so far and the bytes still
  to come on the line. In \<^emph>\<open>Awaiting Scan\<close> a byte is accepted if it is a hexadecimal
  digit and discarded otherwise; with ten digits collected the machine is in
  \<^emph>\<open>Evaluating\<close> and gives its verdict, membership in the authorized list, and returns
  to \<^emph>\<open>Awaiting Scan\<close> with an empty identifier.

  The simulation relation \<open>door_sim\<close> relates a state of the firmware at the head of
  its main loop to an abstract state in \<^emph>\<open>Awaiting Scan\<close>: the firmware's invariant
  holds, the abstract input is the data of the frames still to be read, and the relay has
  been switched on once per positive verdict, besides the bootstrap. Each pass of
  \<open>Check_RFID\<close> is matched by a run of the abstract machine (one step per byte it
  consumes, then the verdict), so every reachable state of the firmware is simulated by a
  run of the specification from its initial state.
\<close>

section \<open>The abstract door\<close>

record door =
  seen :: "byte list"
  verdicts :: "bool list"
  input :: "byte list"

definition authorized :: "byte list \<Rightarrow> bool" where
  "authorized t \<longleftrightarrow> t \<in> bytes_of ` set allowed_ids"

inductive door_step :: "door \<Rightarrow> door \<Rightarrow> bool" where
  accept: "input d = c # cs \<Longrightarrow> hex_digit c \<Longrightarrow> length (seen d) < 10 \<Longrightarrow>
    door_step d (d\<lparr>seen := seen d @ [c], input := cs\<rparr>)"
| discard: "input d = c # cs \<Longrightarrow> \<not> hex_digit c \<Longrightarrow> length (seen d) < 10 \<Longrightarrow>
    door_step d (d\<lparr>input := cs\<rparr>)"
| decide: "length (seen d) = 10 \<Longrightarrow>
    door_step d (d\<lparr>seen := [], verdicts := verdicts d @ [authorized (seen d)]\<rparr>)"

code_pred door_step .

definition door_init :: "frame list \<Rightarrow> door" where
  "door_init inp = \<lparr>seen = [], verdicts = [], input = map f_data inp\<rparr>"

section \<open>The simulation relation\<close>

text \<open>The number of times a relay log switches the relay on.\<close>

definition openings :: "(usec \<times> bool option) list \<Rightarrow> nat" where
  "openings log = length (filter (\<lambda>e. snd e = Some True) log)"

text \<open>The relay log of the bootstrap, by the unknown power-on value of RB0's latch.\<close>

definition boot_log :: "byte \<Rightarrow> (usec \<times> bool option) list" where
  "boot_log pb = (if bit pb 0 then [(0, Some True), (17515, Some False)] else [(0, Some False)])"

definition door_sim :: "byte \<Rightarrow> mcu \<Rightarrow> door \<Rightarrow> bool" where
  "door_sim pb s d \<longleftrightarrow> idle s \<and> seen d = [] \<and> input d = map f_data (rx s) \<and>
     openings (relay_log s) = openings (boot_log pb) + count_list (verdicts d) True"

section \<open>Refinement\<close>

lemma openings_append [simp]: "openings (a @ b) = openings a + openings b"
  by (simp add: openings_def)

lemma openings_simps [simp]:
  "openings [] = 0"
  "openings ((t, Some True) # r) = Suc (openings r)"
  "openings ((t, Some False) # r) = openings r"
  by (simp_all add: openings_def)

text \<open>The abstract machine consumes the bytes \<open>collect\<close> reads, one step each.\<close>

lemma door_collect:
  assumes "collect n fs = Some (bs, k)" "length (seen d) + n = 10" "input d = map f_data fs"
  shows "door_step\<^sup>*\<^sup>* d (d\<lparr>seen := seen d @ bs, input := map f_data (drop k fs)\<rparr>)"
  using assms
proof (induction n fs arbitrary: bs k d rule: collect.induct)
  case (1 fs)
  then show ?case by (cases d) simp
next
  case (2 n)
  then show ?case by simp
next
  case (3 n f fs)
  show ?case
  proof (cases "valid_char (f_data f)")
    case True
    with "3.prems"(1) obtain bs' k' where c: "collect n fs = Some (bs', k')"
      and e: "bs = f_data f # bs'" "k = Suc k'" by (auto split: if_splits)
    let ?d1 = "d\<lparr>seen := seen d @ [f_data f], input := map f_data fs\<rparr>"
    have "door_step d ?d1"
      using True "3.prems"(2,3) by (intro door_step.accept) (simp_all add: valid_char_hex)
    moreover have "door_step\<^sup>*\<^sup>* ?d1 (?d1\<lparr>seen := seen ?d1 @ bs', input := map f_data (drop k' fs)\<rparr>)"
      using True c "3.prems"(2) by (intro "3.IH"(1)) simp_all
    ultimately show ?thesis
      using e by (simp add: converse_rtranclp_into_rtranclp)
  next
    case False
    with "3.prems"(1) obtain k' where c: "collect (Suc n) fs = Some (bs, k')" and e: "k = Suc k'"
      by (auto split: if_splits)
    let ?d1 = "d\<lparr>input := map f_data fs\<rparr>"
    have "door_step d ?d1"
      using False "3.prems"(2,3) by (intro door_step.discard) (simp_all add: valid_char_hex)
    moreover have "door_step\<^sup>*\<^sup>* ?d1 (?d1\<lparr>seen := seen ?d1 @ bs, input := map f_data (drop k' fs)\<rparr>)"
      using False c "3.prems"(2) by (intro "3.IH"(2)) simp_all
    ultimately show ?thesis
      using e by (simp add: converse_rtranclp_into_rtranclp)
  qed
qed

text \<open>One pass of \<open>Check_RFID\<close> is matched by a run of the abstract machine ending in a verdict.\<close>

lemma Check_RFID_simulation:
  assumes "door_sim pb s d" "Check_RFID s = Some s'"
  shows "\<exists>d'. door_step\<^sup>*\<^sup>* d d' \<and> door_sim pb s' d' \<and>
           verdicts d' = verdicts d @ [authorized (take 10 (rfid_tag s'))]"
proof -
  have i: "idle s" and sd: "seen d = []" "input d = map f_data (rx s)"
    and o: "openings (relay_log s) = openings (boot_log pb) + count_list (verdicts d) True"
    using assms(1) by (simp_all add: door_sim_def)
  obtain bs k where c: "collect 10 (rx s) = Some (bs, k)"
    using assms(2) Check_RFID_blocks [OF i] by (cases "collect 10 (rx s)") auto
  have len: "length bs = 10"
    using collect_Some [OF c] by blast
  obtain s'' where s'': "Check_RFID s = Some s''" "idle s''" "rx s'' = drop k (rx s)"
    "rfid_tag s'' = bs @ [0]"
    "relay_log s'' = relay_log s @
       (if bs \<in> bytes_of ` set allowed_ids
        then [(arrive (clock s) (take k (rx s)) + 2705, Some True),
              (arrive (clock s) (take k (rx s)) + 3002705, Some False)]
        else [])"
    using Check_RFID_step [OF i c] by blast
  then have e: "s' = s''" using assms(2) by simp
  let ?d1 = "d\<lparr>seen := bs, input := map f_data (drop k (rx s))\<rparr>"
  let ?d2 = "?d1\<lparr>seen := [], verdicts := verdicts d @ [authorized bs]\<rparr>"
  have "door_step\<^sup>*\<^sup>* d ?d1"
    using door_collect [OF c, of d] sd by simp
  moreover have "door_step ?d1 ?d2"
    using door_step.decide [of ?d1] len by simp
  ultimately have "door_step\<^sup>*\<^sup>* d ?d2" by simp
  moreover have "door_sim pb s' ?d2"
    using s'' e o len by (simp add: door_sim_def authorized_def)
  moreover have "verdicts ?d2 = verdicts d @ [authorized (take 10 (rfid_tag s'))]"
    using s'' e len by simp
  ultimately show ?thesis by blast
qed

text \<open>
  C22: every state the firmware reaches at the head of its main loop, from any power-on
  value of PORTB and any input, is simulated by a run of the abstract door from its
  initial state: the bytes read so far are exactly those the abstract machine has
  consumed, and the relay has been switched on, after the bootstrap, once per positive
  verdict of the specification.
\<close>

theorem loop_head_refines:
  assumes "loop_head (por pb inp) s"
  shows "\<exists>d. door_step\<^sup>*\<^sup>* (door_init inp) d \<and> door_sim pb s d"
  using assms
proof (induction rule: loop_head.induct)
  case (boot s)
  then have "s = boot_state pb inp"
    using main_boot_eq [of pb inp] by simp
  then have "door_sim pb s (door_init inp)"
    using main_boot_eq [of pb inp] by (simp add: door_sim_def door_init_def boot_log_def)
  then show ?case by blast
next
  case (check s s')
  then obtain d where d: "door_step\<^sup>*\<^sup>* (door_init inp) d" "door_sim pb s d" by blast
  with Check_RFID_simulation [OF d(2) check.hyps(2)] show ?case
    by (blast intro: rtranclp_trans)
qed

theorem loop_head_refines_witness:
  "loop_head (por 1 (frames 0 ''1A2B'')) (boot_state 1 (frames 0 ''1A2B'')) \<and>
   (\<exists>d. door_step\<^sup>*\<^sup>* (door_init (frames 0 ''1A2B'')) d \<and>
      door_sim 1 (boot_state 1 (frames 0 ''1A2B'')) d)"
proof -
  have h: "loop_head (por 1 (frames 0 ''1A2B'')) (boot_state 1 (frames 0 ''1A2B''))"
    using main_boot_eq by (blast intro: loop_head.boot)
  show ?thesis
    using h loop_head_refines [OF h] by blast
qed

end
