(* ===== verification/Receiver.thy ===== *)
theory Receiver
  imports Uart Access
begin

text \<open>
  The USART receive block of the PIC16F877A, as its data sheet describes it, and
  \<open>UART_Read\<close> run against it. This is the environment of the serial channel, not code of
  the repository; the rest of the development abstracts it by the sequence of frames the
  receiver presents (\<open>rx\<close> of the machine state).
  \<^item> A frame is complete at its stop bit (\<open>f_at\<close>). It is then moved from the shift
    register into RCREG, a two-deep FIFO, together with its framing-error bit FERR.
  \<^item> If the FIFO already holds two bytes, the overrun bit OERR is set and the frame is
    lost. While OERR is set no transfer takes place: every frame completed is lost.
  \<^item> RCIF is set while the FIFO is not empty; reading RCREG pops it. OERR is cleared by
    clearing CREN, which \<open>UART_Read\<close>'s \<open>RCSTA = 0; RCSTA = 0x90;\<close> does; the FIFO keeps
    its contents.
  The receiver's state is brought up to date lazily, whenever the firmware looks at it:
  the frames completed by then are processed in order.

  The lemmas give the closed forms of the busy-wait and of \<open>UART_Read\<close> on this model.
  The properties show that the frame abstraction is exact as long as the firmware reads
  each byte before the next one completes, which the reading loop does. They also show
  what happens when it does not: during the 2 s and 3 s delays of \<open>Check_RFID\<close>, all but two
  bytes of a burst are lost. Finally they show that the error check of \<open>UART_Read\<close> keeps
  the receiver from the overrun lockup.
\<close>

section \<open>The receive block\<close>

record usart =
  u_clock :: usec
  line :: "frame list"
  fifo :: "frame list"
  oerr :: bool

text \<open>Processing the frames of the line completed by time \<open>t\<close>.\<close>

fun absorb :: "usec \<Rightarrow> frame list \<Rightarrow> frame list \<Rightarrow> bool \<Rightarrow> frame list \<times> frame list \<times> bool" where
  "absorb t [] q e = ([], q, e)"
| "absorb t (f # fs) q e =
     (if t < f_at f then (f # fs, q, e)
      else if e then absorb t fs q e
      else if length q < 2 then absorb t fs (q @ [f]) e
      else absorb t fs q True)"

definition rx_sync :: "usart \<Rightarrow> usart" where
  "rx_sync u =
     (case absorb (u_clock u) (line u) (fifo u) (oerr u) of (l, q, e) \<Rightarrow> u\<lparr>line := l, fifo := q, oerr := e\<rparr>)"

section \<open>UART_Read on the receive block\<close>

text \<open>\<open>while(!PIR1bits.RCIF);\<close>, polling once per microsecond.\<close>

partial_function (option) wait_RCIF_hw :: "usart \<Rightarrow> usart option" where
  "wait_RCIF_hw u =
     (let u = rx_sync u in if fifo u \<noteq> [] then Some u else wait_RCIF_hw (u\<lparr>u_clock := u_clock u + 1\<rparr>))"

text \<open>\<open>RCSTA & 0x06\<close>: the FERR bit of the byte at the head of the FIFO, or OERR.\<close>

definition rcsta_err :: "usart \<Rightarrow> bool" where
  "rcsta_err u \<longleftrightarrow> (case fifo u of f # _ \<Rightarrow> f_ferr f | [] \<Rightarrow> False) \<or> oerr u"

definition UART_Read_hw :: "usart \<Rightarrow> (byte \<times> usart) option" where
  "UART_Read_hw u = do {
     u1 \<leftarrow> wait_RCIF_hw u;
     let u2 = (if rcsta_err u1 then u1\<lparr>oerr := False\<rparr> else u1);
     (case fifo u2 of [] \<Rightarrow> None | f # q \<Rightarrow> Some (f_data f, u2\<lparr>fifo := q\<rparr>))
   }"

text \<open>\<open>n\<close> reads in a row, as the reading loop makes them when every byte is a digit.\<close>

fun reads_hw :: "nat \<Rightarrow> usart \<Rightarrow> (byte list \<times> usart) option" where
  "reads_hw 0 u = Some ([], u)"
| "reads_hw (Suc n) u = do {
     (c, u) \<leftarrow> UART_Read_hw u;
     (cs, u) \<leftarrow> reads_hw n u;
     Some (c # cs, u)
   }"

section \<open>Relating the receive block to the frame abstraction\<close>

text \<open>
  A machine state \<open>s\<close> whose \<open>rx\<close> presents exactly the frames on the line, with the
  receive block empty and without error: the line's frames complete one after the other,
  and at most the first of them is complete already. Here the firmware keeps up with the
  line.
\<close>

definition rx_corr :: "usart \<Rightarrow> mcu \<Rightarrow> bool" where
  "rx_corr u s \<longleftrightarrow> u_clock u = clock s \<and> line u = rx s \<and> fifo u = [] \<and> \<not> oerr u \<and>
     rcsta s = 0x90 \<and> sorted_wrt (<) (map f_at (rx s)) \<and> (\<forall>g\<in>set (drop 1 (rx s)). clock s < f_at g) \<and>
     list_all (\<lambda>f. \<not> f_oerr f) (rx s)"

text \<open>OERR is only ever set with bytes in the FIFO.\<close>

definition rx_sane :: "usart \<Rightarrow> bool" where
  "rx_sane u \<longleftrightarrow> (oerr u \<longrightarrow> fifo u \<noteq> [])"

text \<open>
  A receive block that is empty and without error, whose pending frames complete one
  after the other, at most the first of them by now: a reader that reads each byte as
  soon as it completes never loses one.
\<close>

definition rx_clean :: "usart \<Rightarrow> bool" where
  "rx_clean u \<longleftrightarrow> fifo u = [] \<and> \<not> oerr u \<and> sorted_wrt (<) (map f_at (line u)) \<and>
     (\<forall>g\<in>set (drop 1 (line u)). u_clock u < f_at g)"

section \<open>Closed forms\<close>

lemma absorb_future [simp]: "t < f_at f \<Longrightarrow> absorb t (f # fs) q e = (f # fs, q, e)"
  by simp

lemma absorb_stop:
  "absorb t fs q e = (l, q', e') \<Longrightarrow> l = [] \<or> t < f_at (hd l)"
  by (induction t fs q e rule: absorb.induct) (auto split: if_splits)

lemma absorb_oerr: "absorb t fs q True = (dropWhile (\<lambda>f. f_at f \<le> t) fs, q, True)"
  by (induction fs) auto

lemma absorb_fifo_grows: "absorb t fs q e = (l, q', e') \<Longrightarrow> \<exists>r. q' = q @ r"
  by (induction t fs q e rule: absorb.induct) (fastforce split: if_splits)+

lemma absorb_empty_fifo:
  "absorb t fs q e = (l, q', e') \<Longrightarrow> q = [] \<Longrightarrow> q' = [] \<Longrightarrow> \<not> e \<Longrightarrow> l = fs"
  by (cases fs) (auto split: if_splits dest: absorb_fifo_grows)

text \<open>A burst completed by time \<open>t\<close>: the FIFO fills up to two bytes, the rest is lost.\<close>

lemma absorb_due:
  assumes "list_all (\<lambda>f. f_at f \<le> t) fs" "length q \<le> 2"
  shows "absorb t (fs @ rest) q e =
           absorb t rest (if e then q else take 2 (q @ fs)) (e \<or> 2 < length q + length fs)"
  using assms
proof (induction fs arbitrary: q e)
  case Nil
  then show ?case by simp
next
  case (Cons f fs)
  then show ?case
    by (auto simp: not_less take_Cons' Suc_le_eq)
qed

lemma rx_sync_idem [simp]: "rx_sync (rx_sync u) = rx_sync u"
proof -
  obtain l q e where a: "absorb (u_clock u) (line u) (fifo u) (oerr u) = (l, q, e)"
    by (cases "absorb (u_clock u) (line u) (fifo u) (oerr u)") auto
  then have "l = [] \<or> u_clock u < f_at (hd l)" by (rule absorb_stop)
  then have "absorb (u_clock u) l q e = (l, q, e)"
    by (cases l) auto
  with a show ?thesis
    by (simp add: rx_sync_def)
qed

lemma absorb_none_due: "\<forall>g\<in>set fs. t < f_at g \<Longrightarrow> absorb t fs q e = (fs, q, e)"
  by (cases fs) auto

lemma absorb_oerr_fifo:
  "absorb t fs q e = (l, q', e') \<Longrightarrow> (e \<longrightarrow> q \<noteq> []) \<Longrightarrow> e' \<longrightarrow> q' \<noteq> []"
  by (induction t fs q e rule: absorb.induct) (auto split: if_splits dest: absorb_fifo_grows)

lemma rx_sync_clock [simp]: "u_clock (rx_sync u) = u_clock u"
  by (simp add: rx_sync_def split: prod.splits)

text \<open>The first frame of an empty, error-free receiver lands in the FIFO when it completes.\<close>

lemma rx_sync_first:
  assumes "fifo u = []" "\<not> oerr u" "line u = f # fs" "f_at f \<le> u_clock u"
    "\<forall>g\<in>set fs. u_clock u < f_at g"
  shows "rx_sync u = u\<lparr>line := fs, fifo := [f]\<rparr>"
  using assms by (simp add: rx_sync_def absorb_none_due)

lemma wait_RCIF_hw_update: "wait_RCIF_hw (rx_sync u) = wait_RCIF_hw u"
  by (subst (1 2) wait_RCIF_hw.simps) simp

lemma wait_RCIF_hw_ready: "fifo (rx_sync u) \<noteq> [] \<Longrightarrow> wait_RCIF_hw u = Some (rx_sync u)"
  by (subst wait_RCIF_hw.simps) (simp add: Let_def)

lemma fifo_absorb_arrived:
  "fifo u = [] \<Longrightarrow> \<not> oerr u \<Longrightarrow> line u = f # fs \<Longrightarrow> f_at f \<le> u_clock u \<Longrightarrow> fifo (rx_sync u) \<noteq> []"
  by (auto simp: rx_sync_def split: prod.splits dest: absorb_fifo_grows)

lemma wait_RCIF_hw_until:
  assumes "fifo v = []" "\<not> oerr v" "line v = f # fs" "u_clock v \<le> f_at f"
  shows "wait_RCIF_hw v = Some (rx_sync (v\<lparr>u_clock := f_at f\<rparr>))"
  using assms
proof (induction "f_at f - u_clock v" arbitrary: v)
  case 0
  then have "v\<lparr>u_clock := f_at f\<rparr> = v" by (cases v) simp
  moreover have "fifo (rx_sync v) \<noteq> []"
    using 0 by (intro fifo_absorb_arrived) auto
  ultimately show ?case by (simp add: wait_RCIF_hw_ready)
next
  case (Suc n)
  let ?v = "v\<lparr>u_clock := u_clock v + 1\<rparr>"
  have "rx_sync v = v"
    using Suc.prems Suc.hyps(2) by (simp add: rx_sync_def)
  moreover have "wait_RCIF_hw ?v = Some (rx_sync (?v\<lparr>u_clock := f_at f\<rparr>))"
    using Suc.prems Suc.hyps(2) by (intro Suc.hyps(1)) simp_all
  ultimately show ?case
    using Suc.prems by (subst wait_RCIF_hw.simps) simp
qed

lemma wait_RCIF_hw_stuck:
  assumes ret: "wait_RCIF_hw u = Some r"
  shows "fifo (rx_sync u) \<noteq> [] \<or> (line (rx_sync u) \<noteq> [] \<and> \<not> oerr (rx_sync u))"
proof (rule wait_RCIF_hw.raw_induct [where
    P = "\<lambda>u r. fifo (rx_sync u) \<noteq> [] \<or> (line (rx_sync u) \<noteq> [] \<and> \<not> oerr (rx_sync u))", OF _ ret])
  fix w :: "usart \<Rightarrow> usart option" and u r
  assume IH: "\<And>u r. w u = Some r \<Longrightarrow>
      fifo (rx_sync u) \<noteq> [] \<or> (line (rx_sync u) \<noteq> [] \<and> \<not> oerr (rx_sync u))"
    and eq: "(let u = rx_sync u in if fifo u \<noteq> [] then Some u else w (u\<lparr>u_clock := u_clock u + 1\<rparr>)) = Some r"
  let ?v = "rx_sync u"
  show "fifo ?v \<noteq> [] \<or> (line ?v \<noteq> [] \<and> \<not> oerr ?v)"
  proof (rule ccontr)
    assume c: "\<not> (fifo ?v \<noteq> [] \<or> (line ?v \<noteq> [] \<and> \<not> oerr ?v))"
    then have "w (?v\<lparr>u_clock := u_clock ?v + 1\<rparr>) = Some r"
      using eq by (simp add: Let_def)
    from IH [OF this] c show False
      by (auto simp: rx_sync_def absorb_oerr)
  qed
qed

subsection \<open>UART_Read on the receive block\<close>

lemma UART_Read_hw_ready [simp]:
  "fifo (rx_sync u) \<noteq> [] \<Longrightarrow>
     UART_Read_hw u = Some (f_data (hd (fifo (rx_sync u))),
       (rx_sync u)\<lparr>oerr := False, fifo := tl (fifo (rx_sync u))\<rparr>)"
  by (cases "rx_sync u", cases "fifo (rx_sync u)")
     (auto simp: UART_Read_hw_def wait_RCIF_hw_ready rcsta_err_def)

lemma UART_Read_hw_arrive [simp]:
  assumes "fifo (rx_sync u) = []" "\<not> oerr (rx_sync u)" "line (rx_sync u) \<noteq> []"
  shows "UART_Read_hw u = UART_Read_hw ((rx_sync u)\<lparr>u_clock := f_at (hd (line (rx_sync u)))\<rparr>)"
proof -
  let ?v = "rx_sync u" and ?f = "hd (line (rx_sync u))"
  obtain fs where l: "line ?v = ?f # fs" using assms(3) by (cases "line ?v") auto
  have "u_clock ?v < f_at ?f"
    using absorb_stop [of "u_clock u" "line u" "fifo u" "oerr u"] l
    by (auto simp: rx_sync_def split: prod.splits)
  then have "wait_RCIF_hw ?v = Some (rx_sync (?v\<lparr>u_clock := f_at ?f\<rparr>))"
    by (intro wait_RCIF_hw_until [OF assms(1,2) l]) simp
  then have w: "wait_RCIF_hw u = Some (rx_sync (?v\<lparr>u_clock := f_at ?f\<rparr>))"
    by (simp only: wait_RCIF_hw_update)
  have "fifo (rx_sync (?v\<lparr>u_clock := f_at ?f\<rparr>)) \<noteq> []"
    using fifo_absorb_arrived [of "?v\<lparr>u_clock := f_at ?f\<rparr>" ?f fs] assms(1,2) l by simp
  then have w': "wait_RCIF_hw (?v\<lparr>u_clock := f_at ?f\<rparr>) = Some (rx_sync (?v\<lparr>u_clock := f_at ?f\<rparr>))"
    by (rule wait_RCIF_hw_ready)
  show ?thesis
    unfolding UART_Read_hw_def w w' ..
qed

lemma UART_Read_hw_stuck:
  "fifo (rx_sync u) = [] \<Longrightarrow> line (rx_sync u) = [] \<or> oerr (rx_sync u) \<Longrightarrow> UART_Read_hw u = None"
  using wait_RCIF_hw_stuck [of u] by (cases "wait_RCIF_hw u") (auto simp: UART_Read_hw_def)

text \<open>The equation of \<open>reads_hw\<close> at a numeral, for evaluating it on concrete input.\<close>

lemma reads_hw_numeral [simp]:
  "reads_hw (numeral n) u = do {
     (c, u) \<leftarrow> UART_Read_hw u;
     (cs, u) \<leftarrow> reads_hw (pred_numeral n) u;
     Some (c # cs, u)
   }"
  by (simp add: numeral_eq_Suc)

subsection \<open>Reads while the firmware keeps up\<close>

lemma UART_Read_hw_corr_Nil: "rx_corr u s \<Longrightarrow> rx s = [] \<Longrightarrow> UART_Read_hw u = None"
  by (rule UART_Read_hw_stuck) (simp_all add: rx_corr_def rx_sync_def)

lemma UART_Read_hw_clean:
  assumes "rx_clean u" "line u = f # fs"
  shows "UART_Read_hw u =
           Some (f_data f, \<lparr>u_clock = max (u_clock u) (f_at f), line = fs, fifo = [], oerr = False\<rparr>)"
proof -
  obtain c where u: "u = \<lparr>u_clock = c, line = f # fs, fifo = [], oerr = False\<rparr>"
    using assms by (cases u) (simp add: rx_clean_def)
  let ?t = "max c (f_at f)"
  have "\<forall>g\<in>set fs. ?t < f_at g"
    using assms by (simp add: rx_clean_def u)
  then have sync: "rx_sync \<lparr>u_clock = ?t, line = f # fs, fifo = [], oerr = False\<rparr> =
      \<lparr>u_clock = ?t, line = fs, fifo = [f], oerr = False\<rparr>"
    by (simp add: rx_sync_def absorb_none_due)
  show ?thesis
  proof (cases "f_at f \<le> c")
    case True
    then show ?thesis using sync by (simp add: u max_def)
  next
    case False
    then have "rx_sync u = u" by (simp add: u rx_sync_def)
    with False sync show ?thesis by (simp add: u max_def)
  qed
qed

lemma rx_clean_next:
  assumes "rx_clean u" "line u = f # fs"
  shows "rx_clean \<lparr>u_clock = max (u_clock u) (f_at f), line = fs, fifo = [], oerr = False\<rparr>"
  using assms by (auto simp: rx_clean_def in_set_dropD)

lemma rx_corr_clean: "rx_corr u s \<Longrightarrow> rx_clean u \<and> u_clock u = clock s \<and> line u = rx s"
  by (simp add: rx_corr_def rx_clean_def)

lemma UART_Read_hw_corr:
  assumes "rx_corr u s" "rx s = f # fs"
  shows "UART_Read_hw u =
           Some (f_data f, \<lparr>u_clock = max (clock s) (f_at f), line = fs, fifo = [], oerr = False\<rparr>)"
  using UART_Read_hw_clean [of u f fs] rx_corr_clean [OF assms(1)] assms(2) by simp

text \<open>From a clean receive block, \<open>m\<close> reads return the next \<open>m\<close> bytes of the line.\<close>

lemma reads_hw_clean:
  "rx_clean u \<Longrightarrow> m \<le> length (line u) \<Longrightarrow> map_option fst (reads_hw m u) = Some (map f_data (take m (line u)))"
proof (induction m arbitrary: u)
  case 0
  then show ?case by simp
next
  case (Suc m)
  then obtain f fs where l: "line u = f # fs" by (cases "line u") auto
  let ?v = "\<lparr>u_clock = max (u_clock u) (f_at f), line = fs, fifo = [], oerr = False\<rparr>"
  have "map_option fst (reads_hw m ?v) = Some (map f_data (take m fs))"
    using Suc.IH [of ?v] Suc.prems(2) l rx_clean_next [OF Suc.prems(1) l] by simp
  then show ?case
    using UART_Read_hw_clean [OF Suc.prems(1) l] l by (cases "reads_hw m ?v") auto
qed

lemma rx_corr_next:
  assumes "rx_corr u s" "rx s = f # fs"
  shows "rx_corr \<lparr>u_clock = max (clock s) (f_at f), line = fs, fifo = [], oerr = False\<rparr>
           (s\<lparr>clock := max (clock s) (f_at f), rcsta := 0x90, rx := fs\<rparr>)"
  using assms by (auto simp: rx_corr_def in_set_dropD)

lemma UART_Read_corr:
  "rx_corr u s \<Longrightarrow> rx s = f # fs \<Longrightarrow>
     UART_Read s = Some (f_data f, s\<lparr>clock := max (clock s) (f_at f), rcsta := 0x90, rx := fs\<rparr>)"
  by (simp add: UART_Read_frame rx_corr_def)

section \<open>Properties of the receive path\<close>

text \<open>
  C29: while the firmware keeps up with the line, the frame abstraction of the serial
  input is exact: \<open>UART_Read\<close> on the machine state and \<open>UART_Read_hw\<close> on the receive
  block both block or both return the same byte, and the states they reach are related
  again. This holds inside the reading loop, which reads each frame as soon as it is
  complete.
\<close>

theorem UART_Read_refined:
  assumes "rx_corr u s"
  shows "rel_option (\<lambda>(c, s') (d, u'). c = d \<and> rx_corr u' s') (UART_Read s) (UART_Read_hw u)"
proof (cases "rx s")
  case Nil
  with assms show ?thesis
    by (simp add: UART_Read_idle UART_Read_hw_corr_Nil)
next
  case (Cons f fs)
  with assms show ?thesis
    by (simp add: UART_Read_corr UART_Read_hw_corr rx_corr_next)
qed

theorem UART_Read_refined_witness:
  "rx_corr \<lparr>u_clock = 0, line = frames 100 ''1A'', fifo = [], oerr = False\<rparr> (UART_Init (por 0 (frames 100 ''1A''))) \<and>
   rel_option (\<lambda>(c, s') (d, u'). c = d \<and> rx_corr u' s')
     (UART_Read (UART_Init (por 0 (frames 100 ''1A''))))
     (UART_Read_hw \<lparr>u_clock = 0, line = frames 100 ''1A'', fifo = [], oerr = False\<rparr>)"
proof -
  have h: "rx_corr \<lparr>u_clock = 0, line = frames 100 ''1A'', fifo = [], oerr = False\<rparr> (UART_Init (por 0 (frames 100 ''1A'')))"
    by (simp add: rx_corr_def por_def frames_def)
  show ?thesis
    using h UART_Read_refined [OF h] by blast
qed

text \<open>A burst completed while nothing is read: two bytes in the FIFO, OERR set, the rest lost.\<close>

lemma rx_sync_burst:
  assumes "fifo u = []" "\<not> oerr u" "line u = fs @ rest" "list_all (\<lambda>f. f_at f \<le> t) fs"
    and "2 < length fs" "rest = [] \<or> t < f_at (hd rest)"
  shows "rx_sync (u\<lparr>u_clock := t\<rparr>) = u\<lparr>u_clock := t, line := rest, fifo := take 2 fs, oerr := True\<rparr>"
proof -
  have "absorb t (fs @ rest) [] False = absorb t rest (take 2 fs) True"
    using absorb_due [OF assms(4), of "[]" rest False] assms(5) by simp
  moreover have "dropWhile (\<lambda>f. f_at f \<le> t) rest = rest"
    using assms(6) by (cases rest) auto
  ultimately show ?thesis
    using assms(1-3) by (simp add: rx_sync_def absorb_oerr)
qed

text \<open>
  C30: the firmware does not read during the 2 s and 3 s delays of \<open>Check_RFID\<close>. If a
  burst of three or more frames completes in such a delay, the reads after it return the
  first two bytes of the burst and then the frames that come later: every other byte of
  the burst is lost, and the error check of \<open>UART_Read\<close> lets the reads go on.
\<close>

theorem burst_overrun:
  assumes "fifo u = []" "\<not> oerr u" "line u = fs @ rest" "list_all (\<lambda>f. f_at f \<le> t) fs"
    and "2 < length fs" "sorted_wrt (<) (map f_at rest)" "\<forall>g\<in>set rest. t < f_at g" "m \<le> length rest"
  shows "map_option fst (reads_hw (Suc (Suc m)) (u\<lparr>u_clock := t\<rparr>)) =
           Some (map f_data (take 2 fs) @ map f_data (take m rest))"
proof -
  obtain f1 f2 fs' where fs: "fs = f1 # f2 # fs'"
    using assms(5) by (cases fs; cases "tl fs") auto
  have "rest = [] \<or> t < f_at (hd rest)"
    using assms(7) by (cases rest) auto
  then have sync: "rx_sync (u\<lparr>u_clock := t\<rparr>) = u\<lparr>u_clock := t, line := rest, fifo := [f1, f2], oerr := True\<rparr>"
    using rx_sync_burst [OF assms(1-5)] fs by simp
  let ?v1 = "u\<lparr>u_clock := t, line := rest, fifo := [f2], oerr := False\<rparr>"
  let ?v2 = "\<lparr>u_clock = t, line = rest, fifo = [], oerr = False\<rparr>"
  have r1: "UART_Read_hw (u\<lparr>u_clock := t\<rparr>) = Some (f_data f1, ?v1)"
    using sync by simp
  have "rx_sync ?v1 = ?v1"
    using assms(7) absorb_none_due [of rest t "[f2]" False] by (simp add: rx_sync_def)
  then have r2: "UART_Read_hw ?v1 = Some (f_data f2, ?v2)"
    by (cases u) simp
  have "rx_clean ?v2"
    using assms(6,7) by (simp add: rx_clean_def in_set_dropD)
  then have "map_option fst (reads_hw m ?v2) = Some (map f_data (take m rest))"
    using assms(8) reads_hw_clean [of ?v2 m] by simp
  then show ?thesis
    using r1 r2 fs by (cases "reads_hw m ?v2") auto
qed

theorem burst_overrun_witness:
  "fifo \<lparr>u_clock = 0, line = frames 1000000 ''1A2B3C4D5E'' @ frames 5000000 ''A1B2C3D4E5'', fifo = [], oerr = False\<rparr> = [] \<and>
   \<not> oerr \<lparr>u_clock = 0, line = frames 1000000 ''1A2B3C4D5E'' @ frames 5000000 ''A1B2C3D4E5'', fifo = [], oerr = False\<rparr> \<and>
   list_all (\<lambda>f. f_at f \<le> 4000000) (frames 1000000 ''1A2B3C4D5E'') \<and>
   2 < length (frames 1000000 ''1A2B3C4D5E'') \<and> sorted_wrt (<) (map f_at (frames 5000000 ''A1B2C3D4E5'')) \<and>
   8 \<le> length (frames 5000000 ''A1B2C3D4E5'') \<and>
   map_option fst (reads_hw 10 \<lparr>u_clock = 4000000, line = frames 1000000 ''1A2B3C4D5E'' @ frames 5000000 ''A1B2C3D4E5'',
     fifo = [], oerr = False\<rparr>) = Some (bytes_of ''1AA1B2C3D4'')"
proof -
  let ?u = "\<lparr>u_clock = 0, line = frames 1000000 ''1A2B3C4D5E'' @ frames 5000000 ''A1B2C3D4E5'', fifo = [], oerr = False\<rparr>"
  have h: "fifo ?u = []" "\<not> oerr ?u" "line ?u = frames 1000000 ''1A2B3C4D5E'' @ frames 5000000 ''A1B2C3D4E5''"
    "list_all (\<lambda>f. f_at f \<le> 4000000) (frames 1000000 ''1A2B3C4D5E'')"
    "2 < length (frames 1000000 ''1A2B3C4D5E'')" "sorted_wrt (<) (map f_at (frames 5000000 ''A1B2C3D4E5''))"
    "\<forall>g\<in>set (frames 5000000 ''A1B2C3D4E5''). (4000000::usec) < f_at g"
    "8 \<le> length (frames 5000000 ''A1B2C3D4E5'')"
    by (simp_all add: frames_def)
  have m: "map f_data (take 2 (frames 1000000 ''1A2B3C4D5E'')) @ map f_data (take 8 (frames 5000000 ''A1B2C3D4E5'')) =
      bytes_of ''1AA1B2C3D4''"
    by (simp add: frames_def bytes_of_def)
  have e: "?u\<lparr>u_clock := 4000000\<rparr> =
      \<lparr>u_clock = 4000000, line = frames 1000000 ''1A2B3C4D5E'' @ frames 5000000 ''A1B2C3D4E5'', fifo = [], oerr = False\<rparr>"
    "Suc (Suc 8) = (10::nat)"
    by simp_all
  have "map_option fst (reads_hw 10 \<lparr>u_clock = 4000000, line = frames 1000000 ''1A2B3C4D5E'' @ frames 5000000 ''A1B2C3D4E5'',
      fifo = [], oerr = False\<rparr>) = Some (bytes_of ''1AA1B2C3D4'')"
    using burst_overrun [OF h] unfolding e m .
  then show ?thesis
    using h by (intro conjI) assumption+
qed

text \<open>
  C31: the error check of \<open>UART_Read\<close> prevents the overrun lockup. While OERR is set the
  receive block takes no more frames, so with the FIFO drained and OERR still set, RCIF
  would never be set again. The code clears OERR on the first read after an overrun, so
  OERR only ever stands with bytes in the FIFO. Under that invariant a read returns
  exactly when a byte is buffered or still to come, and leaves OERR clear and the
  invariant true.
\<close>

theorem overrun_recovery:
  assumes "rx_sane u"
  shows "(UART_Read_hw u \<noteq> None \<longleftrightarrow> fifo (rx_sync u) \<noteq> [] \<or> line (rx_sync u) \<noteq> []) \<and>
         pred_option (\<lambda>(c, u'). \<not> oerr u' \<and> rx_sane u') (UART_Read_hw u)"
proof -
  have sane: "oerr (rx_sync u) \<longrightarrow> fifo (rx_sync u) \<noteq> []"
    using assms absorb_oerr_fifo [of "u_clock u" "line u" "fifo u" "oerr u"]
    by (auto simp: rx_sane_def rx_sync_def split: prod.splits)
  show ?thesis
  proof (cases "fifo (rx_sync u) = []")
    case False
    then show ?thesis by (simp add: rx_sane_def)
  next
    case True
    show ?thesis
    proof (cases "line (rx_sync u)")
      case Nil
      with True show ?thesis by (simp add: UART_Read_hw_stuck)
    next
      case (Cons f fs)
      let ?v = "(rx_sync u)\<lparr>u_clock := f_at f\<rparr>"
      have "\<not> oerr (rx_sync u)" using sane True by blast
      moreover have "u_clock (rx_sync u) < f_at f"
        using absorb_stop [of "u_clock u" "line u" "fifo u" "oerr u"] Cons
        by (auto simp: rx_sync_def split: prod.splits)
      ultimately have "fifo (rx_sync ?v) \<noteq> []"
        using fifo_absorb_arrived [of ?v f fs] True Cons by simp
      with True Cons \<open>\<not> oerr (rx_sync u)\<close> show ?thesis
        by (simp add: rx_sane_def)
    qed
  qed
qed

theorem overrun_recovery_witness:
  "rx_sane \<lparr>u_clock = 0, line = [], fifo = [\<lparr>f_at = 0, f_data = 0x31, f_ferr = False, f_oerr = False\<rparr>],
     oerr = True\<rparr> \<and>
   UART_Read_hw \<lparr>u_clock = 0, line = [], fifo = [\<lparr>f_at = 0, f_data = 0x31, f_ferr = False, f_oerr = False\<rparr>],
     oerr = True\<rparr> \<noteq> None"
proof -
  have h: "rx_sane \<lparr>u_clock = 0, line = [], fifo = [\<lparr>f_at = 0, f_data = 0x31, f_ferr = False, f_oerr = False\<rparr>],
     oerr = True\<rparr>"
    by (simp add: rx_sane_def)
  show ?thesis
    using h overrun_recovery [OF h] by (simp add: rx_sync_def)
qed

end
