(* ===== verification/Hw_Scan.thy ===== *)
theory Hw_Scan
  imports Receiver Rfid
begin

text \<open>
  The composition of the badge verification loop with the receive block. \<open>read_tag_hw\<close>
  and \<open>Check_RFID_hw\<close> are the reading loop and one pass of \<open>Check_RFID\<close> of
  \<open>src/rfid.c\<close>, with each \<open>UART_Read\<close> made against the receive block of \<open>Receiver\<close>
  instead of the frame abstraction. The system's state is a pair: the processor
  (\<open>mcu\<close>, whose clock is the time) and the receive block (\<open>usart\<close>). The receive block
  is brought up to the processor's time when the firmware reads from it, so its clock may
  lag behind; its \<open>rx\<close> field is not read by these definitions.

  The lemmas show that the displays and the relay do not depend on the receive side, and
  that the reading loop on the receive block simulates the one on the frame abstraction
  as long as the firmware keeps up with the line. The properties lift the one-read
  refinement of \<open>Receiver\<close> to the whole reading loop and to a whole pass of
  \<open>Check_RFID\<close>, under the condition the 2 s and 3 s delays make necessary: no frame but
  the next one completes before the pass ends. The last property runs the firmware on
  the receive block through the case where that condition fails.
\<close>

section \<open>The loop on the receive block\<close>

text \<open>Lines 200 to 207, each \<open>UART_Read\<close> made at the processor's time on the receive block.\<close>

partial_function (option) read_tag_hw :: "byte \<Rightarrow> mcu \<Rightarrow> usart \<Rightarrow> (byte \<times> mcu \<times> usart) option" where
  "read_tag_hw i s u =
     (if i < 10 then
        (case UART_Read_hw (u\<lparr>u_clock := clock s\<rparr>) of
           None \<Rightarrow> None
         | Some (c, u1) \<Rightarrow>
             (let s1 = s\<lparr>clock := u_clock u1\<rparr> in
              if valid_char c then
                (case store (rfid_tag s1) (unat i) c of
                   None \<Rightarrow> None
                 | Some b \<Rightarrow> read_tag_hw (i + 1) (s1\<lparr>rfid_tag := b\<rparr>) u1)
              else read_tag_hw i s1 u1))
      else Some (i, s, u))"

text \<open>Lines 195 to 233 on the receive block.\<close>

definition Check_RFID_hw :: "mcu \<Rightarrow> usart \<Rightarrow> (mcu \<times> usart) option" where
  "Check_RFID_hw s u = do {
     (i, s, u) \<leftarrow> read_tag_hw 0 s u;
     tag \<leftarrow> store (rfid_tag s) (unat i) 0;
     s \<leftarrow> scan_tags authorized_tags (s\<lparr>rfid_tag := tag\<rparr>);
     Some (s, u)
   }"

text \<open>The receive block, brought up to the processor's time, presents exactly the frames \<open>rx s\<close>.\<close>

definition rx_corr_at :: "usart \<Rightarrow> mcu \<Rightarrow> bool" where
  "rx_corr_at u s \<longleftrightarrow> rx_corr (u\<lparr>u_clock := clock s\<rparr>) s"

text \<open>\<open>n\<close> passes of the body of \<open>while(1)\<close> (lines 75 to 77) on the receive block.\<close>

fun run_checks_hw :: "nat \<Rightarrow> mcu \<Rightarrow> usart \<Rightarrow> (mcu \<times> usart) option" where
  "run_checks_hw 0 s u = Some (s, u)"
| "run_checks_hw (Suc n) s u = Check_RFID_hw s u \<bind> (\<lambda>(s, u). run_checks_hw n s u)"

text \<open>
  The reader keeps pace with the firmware for \<open>n\<close> passes: at the end of each pass, as the
  frame abstraction computes it, no frame but the next one has completed. A reader that
  sends the next badge only once the prompt is back does so.
\<close>

fun keeps_pace :: "nat \<Rightarrow> mcu \<Rightarrow> bool" where
  "keeps_pace 0 s = True"
| "keeps_pace (Suc n) s =
     (case Check_RFID s of
        None \<Rightarrow> True
      | Some s' \<Rightarrow> (\<forall>g\<in>set (drop 1 (rx s')). clock s' < f_at g) \<and> keeps_pace n s')"

section \<open>The processor's side does not depend on the receive side\<close>

lemma set_rb_rx [simp]: "set_rb n v (s\<lparr>rx := r\<rparr>) = (set_rb n v s)\<lparr>rx := r\<rparr>"
  by (simp add: set_rb_def write_portb_def log_relay_def relay_out_def)

lemma delay_us_rx [simp]: "delay_us n (s\<lparr>rx := r\<rparr>) = (delay_us n s)\<lparr>rx := r\<rparr>"
  by (simp add: delay_us_def)

lemma LCD_Char_rx [simp]: "LCD_Char c (s\<lparr>rx := r\<rparr>) = (LCD_Char c s)\<lparr>rx := r\<rparr>"
  by (simp add: LCD_Char_xfer lcd_xfer_def)

lemma LCD_Clear_rx [simp]: "LCD_Clear (s\<lparr>rx := r\<rparr>) = (LCD_Clear s)\<lparr>rx := r\<rparr>"
  by (simp add: LCD_Clear_def LCD_Command_xfer lcd_xfer_def delay_ms_def)

lemma LCD_String_rx [simp]:
  "LCD_String bs (s\<lparr>rx := r\<rparr>) = map_option (\<lambda>s. s\<lparr>rx := r\<rparr>) (LCD_String bs s)"
  by (induction bs arbitrary: s) auto

lemma granted_rx: "granted (s\<lparr>rx := r\<rparr>) = map_option (\<lambda>s. s\<lparr>rx := r\<rparr>) (granted s)"
  by (simp add: granted_def delay_ms_def bind_map_option map_option_bind comp_def)

lemma refused_rx: "refused (s\<lparr>rx := r\<rparr>) = map_option (\<lambda>s. s\<lparr>rx := r\<rparr>) (refused s)"
  by (simp add: refused_def delay_ms_def bind_map_option map_option_bind comp_def)

lemma scan_tags_rx:
  "scan_tags ts (s\<lparr>rx := r\<rparr>) = map_option (\<lambda>s. s\<lparr>rx := r\<rparr>) (scan_tags ts s)"
  by (induction ts s rule: scan_tags.induct) (simp_all add: granted_rx refused_rx split: option.splits)

section \<open>The reading loop on the receive block\<close>

lemma rx_rfid_tag_swap: "s\<lparr>rx := r, rfid_tag := b\<rparr> = s\<lparr>rfid_tag := b, rx := r\<rparr>"
  by (cases s) simp

lemma rx_corr_at_rfid_tag [simp]: "rx_corr_at u (s\<lparr>rfid_tag := b\<rparr>) = rx_corr_at u s"
  by (simp add: rx_corr_at_def rx_corr_def)

text \<open>
  Each iteration of the loop on the receive block reads the byte the frame abstraction
  reads, at the same time, and leaves the two related again.
\<close>

lemma read_tag_hw_sim:
  assumes "rx_corr_at u s"
  shows "rel_option (\<lambda>(j, s') (j', s'', u'). j' = j \<and> s'' = s'\<lparr>rx := r\<rparr> \<and> rx_corr_at u' s')
           (read_tag i s) (read_tag_hw i (s\<lparr>rx := r\<rparr>) u)"
  using assms
proof (induction "rx s" arbitrary: s i u)
  case Nil
  then have "UART_Read_hw (u\<lparr>u_clock := clock s\<rparr>) = None"
    by (intro UART_Read_hw_corr_Nil [of _ s]) (simp_all add: rx_corr_at_def)
  with Nil show ?case
    by (subst read_tag.simps, subst read_tag_hw.simps) (simp add: UART_Read_idle)
next
  case (Cons f fs)
  let ?t = "max (clock s) (f_at f)"
  let ?s1 = "s\<lparr>clock := ?t, rcsta := 0x90, rx := fs\<rparr>"
  let ?u1 = "\<lparr>u_clock = ?t, line = fs, fifo = [], oerr = False\<rparr>"
  have c: "rx_corr (u\<lparr>u_clock := clock s\<rparr>) s" "rx s = f # fs"
    using Cons by (simp_all add: rx_corr_at_def)
  have rd: "UART_Read s = Some (f_data f, ?s1)"
    by (rule UART_Read_corr [OF c])
  have hw: "UART_Read_hw (u\<lparr>u_clock := clock s\<rparr>) = Some (f_data f, ?u1)"
    using UART_Read_hw_corr [OF c] by simp
  have s1: "s\<lparr>rx := r, clock := ?t\<rparr> = ?s1\<lparr>rx := r\<rparr>"
    using c by (cases s) (simp add: rx_corr_def)
  have corr: "rx_corr_at ?u1 ?s1"
    using rx_corr_next [OF c] by (simp add: rx_corr_at_def)
  have IH: "rel_option (\<lambda>(j, s') (j', s'', u'). j' = j \<and> s'' = s'\<lparr>rx := r\<rparr> \<and> rx_corr_at u' s')
             (read_tag i' s') (read_tag_hw i' (s'\<lparr>rx := r\<rparr>) ?u1)"
    if "rx s' = fs" "rx_corr_at ?u1 s'" for i' s'
    using Cons.hyps(1) [of s' ?u1 i'] that by simp
  show ?case
  proof (cases "i < 10")
    case False
    with Cons.prems show ?thesis
      by (subst read_tag.simps, subst read_tag_hw.simps) simp
  next
    case lt: True
    show ?thesis
    proof (cases "valid_char (f_data f)")
      case v: True
      show ?thesis
      proof (cases "unat i < length (rfid_tag s)")
        case True
        let ?s2 = "?s1\<lparr>rfid_tag := (rfid_tag s)[unat i := f_data f]\<rparr>"
        have "rel_option (\<lambda>(j, s') (j', s'', u'). j' = j \<and> s'' = s'\<lparr>rx := r\<rparr> \<and> rx_corr_at u' s')
            (read_tag (i + 1) ?s2) (read_tag_hw (i + 1) (?s2\<lparr>rx := r\<rparr>) ?u1)"
          using corr by (intro IH) simp_all
        with lt v True show ?thesis
          by (subst read_tag.simps, subst read_tag_hw.simps) (simp add: rd hw s1 store_def rx_rfid_tag_swap)
      next
        case False
        with lt v show ?thesis
          by (subst read_tag.simps, subst read_tag_hw.simps) (simp add: rd hw s1 store_def)
      qed
    next
      case nv: False
      have "rel_option (\<lambda>(j, s') (j', s'', u'). j' = j \<and> s'' = s'\<lparr>rx := r\<rparr> \<and> rx_corr_at u' s')
          (read_tag i ?s1) (read_tag_hw i (?s1\<lparr>rx := r\<rparr>) ?u1)"
        using corr by (intro IH) simp_all
      with lt nv show ?thesis
        by (subst read_tag.simps, subst read_tag_hw.simps) (simp add: rd hw s1)
    qed
  qed
qed

text \<open>
  The relation survives a stretch of the processor's time in which the receive side is
  not read, as long as no frame but the next one completes in it.
\<close>

lemma rx_corr_at_later:
  assumes "rx_corr_at u s" "rx s' = rx s" "rcsta s' = 0x90" "\<forall>g\<in>set (drop 1 (rx s')). clock s' < f_at g"
  shows "rx_corr_at u s'"
  using assms by (simp add: rx_corr_at_def rx_corr_def)

text \<open>
  A pass of \<open>Check_RFID\<close> on the receive block ends in the state the frame abstraction
  gives; the receive block is left as the reading loop left it.
\<close>

lemma Check_RFID_hw_step:
  assumes "rx_corr_at u s" "idle s" "collect 10 (rx s) = Some (bs, k)" "Check_RFID s = Some s'"
  shows "\<exists>u'. Check_RFID_hw (s\<lparr>rx := r\<rparr>) u = Some (s'\<lparr>rx := r\<rparr>, u') \<and> rx_corr_at u' (tag_state 0 s bs k)"
proof -
  let ?t = "tag_state 0 s bs k"
  have "rcsta s = 0x90" "length (rfid_tag s) = 11" using assms(2) by (simp_all add: idle_def)
  then have rt: "read_tag 0 s = Some (10, ?t)"
    using assms(3) by (simp add: read_tag_collect)
  with read_tag_hw_sim [OF assms(1), of r 0] obtain u1 where
    hw: "read_tag_hw 0 (s\<lparr>rx := r\<rparr>) u = Some (10, ?t\<lparr>rx := r\<rparr>, u1)" and u1: "rx_corr_at u1 ?t"
    by (cases "read_tag_hw 0 (s\<lparr>rx := r\<rparr>) u") auto
  from assms(4) rt obtain tag where tag: "store (rfid_tag ?t) (unat (10::byte)) 0 = Some tag"
    and sc: "scan_tags authorized_tags (?t\<lparr>rfid_tag := tag\<rparr>) = Some s'"
    by (auto simp: Check_RFID_def split: Option.bind_splits)
  have "Check_RFID_hw (s\<lparr>rx := r\<rparr>) u = Some (s'\<lparr>rx := r\<rparr>, u1)"
    using hw tag sc scan_tags_rx [of authorized_tags r "?t\<lparr>rfid_tag := tag\<rparr>"]
    by (simp add: Check_RFID_hw_def rx_rfid_tag_swap)
  with u1 show ?thesis by blast
qed

lemma Check_RFID_hw_blocks:
  assumes "rx_corr_at u s" "idle s" "collect 10 (rx s) = None"
  shows "Check_RFID_hw (s\<lparr>rx := r\<rparr>) u = None"
proof -
  have "rcsta s = 0x90" "length (rfid_tag s) = 11" using assms(2) by (simp_all add: idle_def)
  then have "read_tag 0 s = None"
    using assms(3) by (simp add: read_tag_collect)
  with read_tag_hw_sim [OF assms(1), of r 0] show ?thesis
    by (simp add: Check_RFID_hw_def)
qed

subsection \<open>Reads that return digits\<close>

lemma idle_rx [simp]: "idle (s\<lparr>rx := r\<rparr>) = idle s"
  by (simp add: idle_def lcd_ready_def)

lemma rx_corr_at_eq: "rx_corr_at u s \<Longrightarrow> u\<lparr>u_clock := c\<rparr> = \<lparr>u_clock = c, line = rx s, fifo = [], oerr = False\<rparr>"
  by (cases u) (simp add: rx_corr_at_def rx_corr_def)

lemma read_tag_hw_digit:
  assumes "i < 10" "UART_Read_hw (u\<lparr>u_clock := clock s\<rparr>) = Some (c, u1)" "valid_char c"
    "unat i < length (rfid_tag s)"
  shows "read_tag_hw i s u = read_tag_hw (i + 1) (s\<lparr>clock := u_clock u1, rfid_tag := (rfid_tag s)[unat i := c]\<rparr>) u1"
  using assms by (subst read_tag_hw.simps) (simp add: store_def)

text \<open>When every byte read is a digit, the reading loop makes exactly the reads \<open>reads_hw\<close> makes.\<close>

lemma read_tag_hw_reads:
  assumes "reads_hw (Suc n) (u\<lparr>u_clock := clock s\<rparr>) = Some (cs, u')" "list_all valid_char cs"
    "unat i + Suc n = 10" "length (rfid_tag s) = 11"
  shows "read_tag_hw i s u =
           Some (10, s\<lparr>clock := u_clock u', rfid_tag := take (unat i) (rfid_tag s) @ cs @ drop 10 (rfid_tag s)\<rparr>, u')"
  using assms
proof (induction n arbitrary: i s u cs)
  case 0
  then obtain c where r: "UART_Read_hw (u\<lparr>u_clock := clock s\<rparr>) = Some (c, u')" "cs = [c]"
    by (auto split: Option.bind_splits)
  have "unat i = 9" using "0.prems"(3) by simp
  then have i9: "i = 9" by unat_arith
  then have lt: "i < 10" "unat i = 9" "\<not> i + 1 < 10" by simp_all
  have "read_tag_hw (i + 1) (s\<lparr>clock := u_clock u', rfid_tag := (rfid_tag s)[unat i := c]\<rparr>) u' =
      Some (i + 1, s\<lparr>clock := u_clock u', rfid_tag := (rfid_tag s)[unat i := c]\<rparr>, u')"
    using lt by (subst read_tag_hw.simps) simp
  moreover have "i + 1 = 10" using i9 by simp
  moreover have "(rfid_tag s)[unat i := c] = take (unat i) (rfid_tag s) @ cs @ drop 10 (rfid_tag s)"
    using lt(2) "0.prems"(4) r(2) by (simp add: upd_conv_take_nth_drop)
  ultimately show ?case
    using read_tag_hw_digit [OF lt(1) r(1)] r "0.prems"(2,4) lt(2) by simp
next
  case (Suc n)
  from Suc.prems(1) obtain c u1 cs' where
    r: "UART_Read_hw (u\<lparr>u_clock := clock s\<rparr>) = Some (c, u1)" "reads_hw (Suc n) u1 = Some (cs', u')"
      "cs = c # cs'"
    by (auto split: Option.bind_splits)
  have lt: "i < 10" "unat i < 10" "unat (i + 1) = unat i + 1"
    using Suc.prems(3) by (unat_arith, simp, simp add: unat_word_ariths)
  let ?s1 = "s\<lparr>clock := u_clock u1, rfid_tag := (rfid_tag s)[unat i := c]\<rparr>"
  have "read_tag_hw (i + 1) ?s1 u1 =
      Some (10, ?s1\<lparr>clock := u_clock u', rfid_tag := take (unat (i + 1)) (rfid_tag ?s1) @ cs' @ drop 10 (rfid_tag ?s1)\<rparr>, u')"
    using Suc.prems r lt by (intro Suc.IH) simp_all
  moreover have "take (unat (i + 1)) (rfid_tag ?s1) @ cs' @ drop 10 (rfid_tag ?s1) =
      take (unat i) (rfid_tag s) @ cs @ drop 10 (rfid_tag s)"
    using lt Suc.prems(4) r(3) by (simp add: take_update_Suc)
  ultimately show ?case
    using read_tag_hw_digit [OF lt(1) r(1)] r lt Suc.prems(2,4) by simp
qed

lemma reads_hw_length: "reads_hw n u = Some (cs, u') \<Longrightarrow> length cs = n"
  by (induction n arbitrary: u cs) (auto split: Option.bind_splits)

text \<open>A pass of \<open>Check_RFID\<close> on the receive block whose ten reads all return digits.\<close>

lemma Check_RFID_hw_digits:
  assumes "idle s" "reads_hw 10 (u\<lparr>u_clock := clock s\<rparr>) = Some (cs, u')" "list_all valid_char cs"
  shows "Check_RFID_hw s u =
           map_option (\<lambda>s'. (s', u'))
             (if cs \<in> bytes_of ` set allowed_ids then granted (s\<lparr>clock := u_clock u', rfid_tag := cs @ [0]\<rparr>)
              else refused (s\<lparr>clock := u_clock u', rfid_tag := cs @ [0]\<rparr>))"
proof -
  have l: "length (rfid_tag s) = 11" using assms(1) by (simp add: idle_def)
  have "reads_hw (Suc 9) (u\<lparr>u_clock := clock s\<rparr>) = Some (cs, u')"
    using assms(2) by (simp add: numeral_eq_Suc)
  then have rt: "read_tag_hw 0 s u =
      Some (10, s\<lparr>clock := u_clock u', rfid_tag := cs @ drop 10 (rfid_tag s)\<rparr>, u')"
    using read_tag_hw_reads [where n = 9 and i = 0] assms(3) l by simp
  have len: "length cs = 10" using assms(2) by (rule reads_hw_length)
  have "length (drop 10 (rfid_tag s)) = 1" using l by simp
  then obtain x where "drop 10 (rfid_tag s) = [x]"
    by (metis One_nat_def length_0_conv length_Suc_conv)
  then have st: "store (cs @ drop 10 (rfid_tag s)) (unat (10::byte)) 0 = Some (cs @ [0])"
    using len by (simp add: store_def list_update_append)
  have nz: "0 \<notin> set cs"
    using assms(3) valid_char_nonzero by (auto simp: list_all_iff)
  have "tag_lookup (cs @ [0]) authorized_tags = Some (cs \<in> bytes_of ` set allowed_ids)"
    using tag_lookup_table [OF nz allowed_ids_nul_free, of "[]"] by (simp add: authorized_tags_eq)
  with rt st show ?thesis
    by (simp add: Check_RFID_hw_def scan_tags_lookup map_conv_bind_option comp_def)
qed

section \<open>Properties of the composed system\<close>

text \<open>
  C33: the reading loop of \<open>Check_RFID\<close> run on the receive block, while the firmware
  keeps up with the line, returns exactly when ten hexadecimal digits arrive; it stores the
  first ten of them, finishes when the last of them completes, and leaves the frames after
  it on the line, as the frame abstraction does (\<open>collect\<close>).
\<close>

theorem read_tag_hw_collect:
  assumes "rx_corr_at u s" "length (rfid_tag s) = 11"
  shows "map_option (\<lambda>(i, s', u'). (i, rfid_tag s', clock s', line u')) (read_tag_hw 0 (s\<lparr>rx := r\<rparr>) u) =
         map_option (\<lambda>(bs, k). (10, bs @ drop 10 (rfid_tag s), arrive (clock s) (take k (rx s)), drop k (rx s)))
           (collect 10 (rx s))"
proof -
  have "rcsta s = 0x90" using assms(1) by (simp add: rx_corr_at_def rx_corr_def)
  then have rt: "read_tag 0 s = map_option (\<lambda>(bs, k). (10, tag_state 0 s bs k)) (collect 10 (rx s))"
    using assms(2) by (simp add: read_tag_collect)
  have sim: "rel_option (\<lambda>(j, s') (j', s'', u'). j' = j \<and> s'' = s'\<lparr>rx := r\<rparr> \<and> rx_corr_at u' s')
      (read_tag 0 s) (read_tag_hw 0 (s\<lparr>rx := r\<rparr>) u)"
    using assms(1) by (rule read_tag_hw_sim)
  show ?thesis
  proof (cases "collect 10 (rx s)")
    case None
    with rt sim show ?thesis by simp
  next
    case (Some p)
    obtain bs k where p: "p = (bs, k)" by fastforce
    with Some rt sim obtain u' where
      "read_tag_hw 0 (s\<lparr>rx := r\<rparr>) u = Some (10, (tag_state 0 s bs k)\<lparr>rx := r\<rparr>, u')"
      "rx_corr_at u' (tag_state 0 s bs k)"
      by (cases "read_tag_hw 0 (s\<lparr>rx := r\<rparr>) u") auto
    with Some p show ?thesis
      by (simp add: tag_state_def rx_corr_at_def rx_corr_def)
  qed
qed

theorem read_tag_hw_collect_witness:
  "rx_corr_at \<lparr>u_clock = 0, line = frames 3000000 ''1A-2B3C4D5E'', fifo = [], oerr = False\<rparr>
     (boot_state 0 (frames 3000000 ''1A-2B3C4D5E'')) \<and>
   length (rfid_tag (boot_state 0 (frames 3000000 ''1A-2B3C4D5E''))) = 11 \<and>
   map_option (\<lambda>(i, s', u'). (i, rfid_tag s', clock s', line u'))
     (read_tag_hw 0 ((boot_state 0 (frames 3000000 ''1A-2B3C4D5E''))\<lparr>rx := []\<rparr>)
        \<lparr>u_clock = 0, line = frames 3000000 ''1A-2B3C4D5E'', fifo = [], oerr = False\<rparr>) =
   Some (10, bytes_of ''1A2B3C4D5E'' @ drop 10 (rfid_tag (boot_state 0 (frames 3000000 ''1A-2B3C4D5E''))),
     3010400, [])"
proof -
  let ?i = "frames 3000000 ''1A-2B3C4D5E''"
  have e: "clock (boot_state 0 ?i) = 2022968" "rx (boot_state 0 ?i) = ?i" "idle (boot_state 0 ?i)"
    using main_boot_eq [of 0 ?i] by simp_all
  then have h: "rx_corr_at \<lparr>u_clock = 0, line = ?i, fifo = [], oerr = False\<rparr> (boot_state 0 ?i)"
    "length (rfid_tag (boot_state 0 ?i)) = 11"
    by (simp_all add: rx_corr_at_def rx_corr_def idle_def frames_def)
  have c: "collect 10 ?i = Some (bytes_of ''1A2B3C4D5E'', 11)" "arrive 2022968 (take 11 ?i) = 3010400"
    "drop 11 ?i = []"
    by (simp_all add: frames_def valid_char_def)
  show ?thesis
    using h read_tag_hw_collect [OF h, of "[]"] e c by simp
qed

text \<open>
  C34: a whole pass of \<open>Check_RFID\<close> on the receive block does what it does on the frame
  abstraction, and leaves the two related again, provided that no frame but the next one
  completes before the pass ends. The 2 s and 3 s delays make the proviso necessary (C36):
  the next badge has to be shown after the display is back at its prompt.
\<close>

theorem Check_RFID_hw_refines:
  assumes "rx_corr_at u s" "idle s" "Check_RFID s = Some s'"
    and "\<forall>g\<in>set (drop 1 (rx s')). clock s' < f_at g"
  shows "\<exists>u'. Check_RFID_hw (s\<lparr>rx := r\<rparr>) u = Some (s'\<lparr>rx := r\<rparr>, u') \<and> rx_corr_at u' s'"
proof -
  obtain bs k where c: "collect 10 (rx s) = Some (bs, k)"
    using assms(2,3) Check_RFID_blocks by (cases "collect 10 (rx s)") auto
  obtain u1 where hw: "Check_RFID_hw (s\<lparr>rx := r\<rparr>) u = Some (s'\<lparr>rx := r\<rparr>, u1)"
    and u1: "rx_corr_at u1 (tag_state 0 s bs k)"
    using Check_RFID_hw_step [OF assms(1,2) c assms(3)] by blast
  obtain s'' where e: "Check_RFID s = Some s''" and i: "idle s''" and r: "rx s'' = drop k (rx s)"
    using Check_RFID_step [OF assms(2) c] by blast
  have "s'' = s'" using e assms(3) by simp
  moreover have "rcsta s'' = 0x90" using i unfolding idle_def by blast
  ultimately have "rx s' = rx (tag_state 0 s bs k)" "rcsta s' = 0x90"
    using r by (simp_all add: tag_state_def)
  then have "rx_corr_at u1 s'"
    by (rule rx_corr_at_later [OF u1 _ _ assms(4)])
  with hw show ?thesis by blast
qed

theorem Check_RFID_hw_refines_witness:
  "\<exists>s'. rx_corr_at \<lparr>u_clock = 0, line = frames 3000000 ''1A2B3C4D5E'' @ frames 7000000 ''A1B2C3D4E5'',
          fifo = [], oerr = False\<rparr> (boot_state 0 (frames 3000000 ''1A2B3C4D5E'' @ frames 7000000 ''A1B2C3D4E5'')) \<and>
     idle (boot_state 0 (frames 3000000 ''1A2B3C4D5E'' @ frames 7000000 ''A1B2C3D4E5'')) \<and>
     Check_RFID (boot_state 0 (frames 3000000 ''1A2B3C4D5E'' @ frames 7000000 ''A1B2C3D4E5'')) = Some s' \<and>
     (\<forall>g\<in>set (drop 1 (rx s')). clock s' < f_at g) \<and>
     (\<exists>u'. Check_RFID_hw ((boot_state 0 (frames 3000000 ''1A2B3C4D5E'' @ frames 7000000 ''A1B2C3D4E5''))\<lparr>rx := []\<rparr>)
        \<lparr>u_clock = 0, line = frames 3000000 ''1A2B3C4D5E'' @ frames 7000000 ''A1B2C3D4E5'', fifo = [], oerr = False\<rparr> =
        Some (s'\<lparr>rx := []\<rparr>, u') \<and> rx_corr_at u' s')"
proof -
  let ?i = "frames 3000000 ''1A2B3C4D5E'' @ frames 7000000 ''A1B2C3D4E5''"
  let ?u = "\<lparr>u_clock = 0, line = ?i, fifo = [], oerr = False\<rparr>"
  have e: "clock (boot_state 0 ?i) = 2022968" "rx (boot_state 0 ?i) = ?i" "idle (boot_state 0 ?i)"
    using main_boot_eq [of 0 ?i] by simp_all
  then have h: "rx_corr_at ?u (boot_state 0 ?i)"
    by (simp add: rx_corr_at_def rx_corr_def idle_def frames_def)
  have c: "collect 10 ?i = Some (bytes_of ''1A2B3C4D5E'', 10)" "arrive 2022968 (take 10 ?i) = 3009360"
    "drop 10 ?i = frames 7000000 ''A1B2C3D4E5''" "bytes_of ''1A2B3C4D5E'' \<in> bytes_of ` set allowed_ids"
    by (simp_all add: frames_def valid_char_def allowed_ids_def)
  obtain s' where s': "Check_RFID (boot_state 0 ?i) = Some s'" "rx s' = frames 7000000 ''A1B2C3D4E5''"
    "clock s' = 6014727"
    using Check_RFID_step [OF e(3), of "bytes_of ''1A2B3C4D5E''" 10] c e by auto
  then have l: "\<forall>g\<in>set (drop 1 (rx s')). clock s' < f_at g"
    by (simp add: frames_def)
  show ?thesis
    using h e(3) s'(1) l Check_RFID_hw_refines [OF h e(3) s'(1) l, of "[]"] by blast
qed

text \<open>
  C36 (the overrun of C30 on the whole firmware): the reader sends the authorized badge
  \<open>1A2B3C4D5E\<close> at 3 s, and the door opens from 3.012065 s to 6.012065 s. The authorized
  badge \<open>A1B2C3D4E5\<close>, shown at 4 s while the door is held open, is lost: the receive
  block keeps its first two digits and overruns. The authorized badge \<open>1A2B3C4D5E\<close>,
  shown at 8 s after the door has closed and the prompt is back, is then read as
  \<open>A11A2B3C4D\<close> and refused. The relay does not switch again.
\<close>

theorem scenario_hold_hw:
  "bytes_of ''A1B2C3D4E5'' \<in> bytes_of ` set allowed_ids \<and> bytes_of ''1A2B3C4D5E'' \<in> bytes_of ` set allowed_ids \<and>
   (\<exists>s1 u1 s2 u2.
      Check_RFID_hw ((boot_state 0 (frames 3000000 ''1A2B3C4D5E'' @ frames 4000000 ''A1B2C3D4E5'' @
          frames 8000000 ''1A2B3C4D5E''))\<lparr>rx := []\<rparr>)
        \<lparr>u_clock = 0, line = frames 3000000 ''1A2B3C4D5E'' @ frames 4000000 ''A1B2C3D4E5'' @
          frames 8000000 ''1A2B3C4D5E'', fifo = [], oerr = False\<rparr> = Some (s1, u1) \<and>
      relay_log s1 = [(0, Some False), (3012065, Some True), (6012065, Some False)] \<and>
      Check_RFID_hw s1 u1 = Some (s2, u2) \<and>
      rfid_tag s2 = bytes_of ''A11A2B3C4D'' @ [0] \<and> relay_log s2 = relay_log s1 \<and>
      line1 (lcd s2) = line_text ''Scan Badge...'')"
proof -
  let ?i = "frames 3000000 ''1A2B3C4D5E'' @ frames 4000000 ''A1B2C3D4E5'' @ frames 8000000 ''1A2B3C4D5E''"
  let ?u = "\<lparr>u_clock = 0, line = ?i, fifo = [], oerr = False\<rparr>"
  let ?s = "boot_state 0 ?i"
  have e: "clock ?s = 2022968" "rx ?s = ?i" "idle ?s" "relay_log ?s = [(0, Some False)]"
    using main_boot_eq [of 0 ?i] by simp_all
  then have h: "rx_corr_at ?u ?s"
    by (simp add: rx_corr_at_def rx_corr_def idle_def frames_def)
  have c: "collect 10 ?i = Some (bytes_of ''1A2B3C4D5E'', 10)" "arrive 2022968 (take 10 ?i) = 3009360"
    "drop 10 ?i = frames 4000000 ''A1B2C3D4E5'' @ frames 8000000 ''1A2B3C4D5E''"
    "bytes_of ''1A2B3C4D5E'' \<in> bytes_of ` set allowed_ids"
    "bytes_of ''A1B2C3D4E5'' \<in> bytes_of ` set allowed_ids"
    "bytes_of ''A11A2B3C4D'' \<notin> bytes_of ` set allowed_ids"
    "list_all valid_char (bytes_of ''A11A2B3C4D'')"
    by (simp_all add: frames_def valid_char_def allowed_ids_def)
  have c0: "collect 10 (rx ?s) = Some (bytes_of ''1A2B3C4D5E'', 10)"
    using c(1) e(2) by simp
  obtain s1 where s1: "Check_RFID ?s = Some s1" "idle s1"
    "relay_log s1 = [(0, Some False), (3012065, Some True), (6012065, Some False)]" "clock s1 = 6014727"
    using Check_RFID_step [OF e(3) c0] c e by auto
  obtain u1 where hw1: "Check_RFID_hw (?s\<lparr>rx := []\<rparr>) ?u = Some (s1\<lparr>rx := []\<rparr>, u1)"
    and u1: "rx_corr_at u1 (tag_state 0 ?s (bytes_of ''1A2B3C4D5E'') 10)"
    using Check_RFID_hw_step [OF h e(3) c0 s1(1)] by blast
  have "u1\<lparr>u_clock := clock (s1\<lparr>rx := []\<rparr>)\<rparr> =
      \<lparr>u_clock = 6014727, line = frames 4000000 ''A1B2C3D4E5'' @ frames 8000000 ''1A2B3C4D5E'',
       fifo = [], oerr = False\<rparr>"
    using rx_corr_at_eq [OF u1] s1(4) e(2) c(3) by (simp add: tag_state_def)
  moreover have "reads_hw 10 \<lparr>u_clock = 6014727, line = frames 4000000 ''A1B2C3D4E5'' @ frames 8000000 ''1A2B3C4D5E'',
      fifo = [], oerr = False\<rparr> =
    Some (bytes_of ''A11A2B3C4D'', \<lparr>u_clock = 8007280, line = frames 8008320 ''5E'', fifo = [], oerr = False\<rparr>)"
    by (simp add: rx_sync_def frames_def)
  ultimately have r: "reads_hw 10 (u1\<lparr>u_clock := clock (s1\<lparr>rx := []\<rparr>)\<rparr>) =
    Some (bytes_of ''A11A2B3C4D'', \<lparr>u_clock = 8007280, line = frames 8008320 ''5E'', fifo = [], oerr = False\<rparr>)"
    by simp
  let ?t = "s1\<lparr>rx := [], clock := 8007280, rfid_tag := bytes_of ''A11A2B3C4D'' @ [0]\<rparr>"
  have t: "configured (lcd ?t)" "lcd_ready ?t"
    using s1(2,4) by (auto simp: idle_def lcd_ready_def)
  let ?a = "delay_us 2000000 (show_text ''Acces Refuse'' ?t)"
  note a = show_text [OF t, of "''Acces Refuse''"]
  have b: "configured (lcd ?a)" "lcd_ready ?a"
    using a msg_literals by simp_all
  note d = show_text [OF b, of "''Scan Badge...''"]
  have "Check_RFID_hw (s1\<lparr>rx := []\<rparr>) u1 =
      Some (show_text ''Scan Badge...'' ?a, \<lparr>u_clock = 8007280, line = frames 8008320 ''5E'', fifo = [], oerr = False\<rparr>)"
    using Check_RFID_hw_digits [OF _ r c(7)] s1(2) c(6) refused_eq [OF t] by simp
  with hw1 s1(3) show ?thesis
    using a d c(4,5) msg_literals by auto
qed

end
