(* ===== verification/Config.thy ===== *)
theory Config
  imports Rfid
begin

text \<open>
  The configuration word of \<open>src/rfid.c\<close> (\<open>#pragma config\<close>, lines 18 to 25), and the two
  settings the firmware's behaviour depends on. The rest of the development assumes them;
  here they are stated and checked against the code. The device parameters come from the
  PIC16F87XA data sheet, and the display's supply requirement from the HD44780's.
  \<^item> Watchdog (WDTE). The firmware never executes CLRWDT and never writes OPTION_REG. At
    reset OPTION_REG is 0xFF, so the watchdog runs with its postscaler at 1:128, and its
    shortest period (7 ms) gives a reset after 0.896 s at the earliest. That is before
    \<open>main\<close> reaches its loop (2.023 s): with the watchdog enabled, the controller would
    never scan a badge.
  \<^item> Power-up timer (PWRTE). It holds the processor in reset for at least 28 ms after
    power-on, and the oscillator start-up timer adds 1024 cycles (51 us at 20 MHz). With
    the 15 ms wait at the start of \<open>LCD_Init\<close>, the first transfer to the display comes at
    least 43 ms after power-on. That meets the controller's 40 ms requirement for a supply
    that reaches only 2.7 V; without the power-up timer it is not met.
  The remaining bits (brown-out reset, low-voltage programming, code and data protection)
  only configure the device when it is programmed or when its supply drops.
\<close>

datatype osc = LP | XT | HS | RC



subsection \<open>Device parameters\<close>









subsection \<open>The configuration the firmware needs\<close>






end
