(* ===== verification/Spec2Isabelle.thy ===== *)
theory Spec2Isabelle
  imports Door Hw_Scan Config
begin

text \<open>
  \<^bold>\<open>A verification library for the PIC16F877A RFID door controller (\<open>src/rfid.c\<close>).\<close>

  \<^bold>\<open>The program.\<close> One C file, one foreground loop. \<open>main\<close> runs \<open>System_Init\<close> (port
  directions, \<open>LCD_Init\<close>, \<open>UART_Init\<close>, relay off), shows a splash screen for 2 s, shows
  the prompt and then calls \<open>Check_RFID\<close> forever. \<open>Check_RFID\<close> reads bytes with
  \<open>UART_Read\<close>, keeps the ten first in \<open>'0'..'9'\<close>/\<open>'A'..'F'\<close> in the global
  \<open>rfid_tag\<close>, terminates it, compares it with \<open>strcmp\<close> against the \<open>NULL\<close>-terminated
  table \<open>authorized_tags\<close>, and either shows \<open>Acces Autorise\<close> and pulses the relay on
  RB0 for 3 s, or shows \<open>Acces Refuse\<close> for 2 s; both end on the prompt. The display is an
  HD44780 driven in 4-bit mode by bit-banging port B (\<open>LCD_Command\<close>, \<open>LCD_Char\<close>,
  \<open>LCD_String\<close>, \<open>LCD_Clear\<close>). \<open>UART_Write\<close>/\<open>UART_Write_Text\<close> exist but are never
  called; the interrupt routine is empty.

  \<^bold>\<open>The library.\<close>
  \<^item> \<open>Prelude\<close>: bytes as \<open>8 word\<close>, C string literals (\<open>cstr\<close>), \<open>seq\<close> for straight-line
    code, bit-field assignment (\<open>assign_bit\<close>) and the nibble lemmas.
  \<^item> \<open>Hd44780\<close>: the display controller, modelled from its data sheet (not code of the
    repository): 8-bit power-on mode, nibble pairing in 4-bit mode, the instruction set the
    firmware uses, display RAM, busy times and a \<open>timing_ok\<close> flag that records any
    transfer made while the controller is busy.
  \<^item> \<open>Board\<close>: the machine state \<open>mcu\<close> (a record of the registers the code writes, the
    \<open>rfid_tag\<close> buffer, a microsecond clock, the display controller, the serial input as
    timed frames with error flags, the transmitted bytes and a log of every change of the
    relay output), the pin \<open>#define\<close>s, the power-on state \<open>por\<close> (reset values of the
    registers, an unknown PORTB latch, the zero-initialised \<open>rfid_tag\<close>), pin writes
    (\<open>set_rb\<close>, which feeds falling edges of E to the controller) and the XC8 delays.
  \<^item> \<open>Lcd\<close>: \<open>LCD_Command\<close>, \<open>LCD_Char\<close>, \<open>LCD_String\<close>, \<open>LCD_Clear\<close>, \<open>LCD_Init\<close>, each as
    written (sixteen pin writes and delays per byte). \<open>lcd_xfer\<close> is their closed form;
    \<open>show_text\<close> is \<open>LCD_Clear(); LCD_String(t);\<close>.
  \<^item> \<open>Uart\<close>: \<open>UART_Init\<close>, \<open>UART_Read\<close> (busy-wait \<open>wait_RCIF\<close>, error flags, receiver
    reset), \<open>UART_Write\<close> (busy-wait \<open>wait_TRMT\<close>), \<open>UART_Write_Text\<close>. The busy-waits are
    \<^theory_text>\<open>partial_function (option)\<close> loops; their closed forms say when they return.
  \<^item> \<open>Access\<close>: \<open>authorized_tags\<close> with its sentinel, \<open>strcmp\<close>, and \<open>tag_lookup\<close>, the scan
    of the table; \<open>allowed_ids\<close> is the policy as a list of texts.
  \<^item> \<open>Rfid\<close>: \<open>read_tag\<close> (the reading loop, a \<^theory_text>\<open>partial_function (option)\<close>),
    \<open>granted\<close>/\<open>refused\<close> (the two outcomes), \<open>scan_tags\<close>, \<open>Check_RFID\<close>, \<open>System_Init\<close>,
    \<open>main_boot\<close> (\<open>main\<close> up to its loop), the empty \<open>ISR\<close>, and \<open>loop_head\<close>, the inductive set of states
    at the head of \<open>while(1)\<close>. \<open>collect\<close> is the specification of the reading loop
    (the first ten accepted characters of the input and how many frames they take),
    \<open>hex_digit\<close> the alphabet of identifiers as a set of characters, \<open>idle\<close> the loop
    invariant, \<open>frames\<close> the test input of the scenarios (characters one 9600-baud frame
    apart).
  \<^item> \<open>Door\<close>: the specification's \<^emph>\<open>Awaiting Scan\<close>/\<^emph>\<open>Evaluating\<close> machine as an abstract
    inductive step relation \<open>door_step\<close> on a record \<open>door\<close> (digits collected, verdicts
    given, bytes still to come), the simulation relation \<open>door_sim\<close> between loop-head
    states of the firmware and abstract states, and the refinement proof.
  \<^item> \<open>Receiver\<close>: the USART receive block from the data sheet (environment): the line, the
    two-deep RCREG FIFO with each byte's FERR, and OERR, which blocks transfers until
    CREN is toggled. \<open>UART_Read_hw\<close> is \<open>UART_Read\<close> run against it, and \<open>rx_corr\<close> relates
    the block to the frame abstraction \<open>rx\<close> of the other theories.
  \<^item> \<open>Hw_Scan\<close>: the composition of the two. \<open>read_tag_hw\<close> and \<open>Check_RFID_hw\<close> are the
    reading loop and a whole pass of \<open>Check_RFID\<close> with every \<open>UART_Read\<close> made on the
    receive block at the processor's time, and \<open>run_checks_hw\<close> is \<open>n\<close> passes of
    \<open>while(1)\<close>; the state is a pair of \<open>mcu\<close> and \<open>usart\<close>, and the block's state is
    brought up to date only when it is read. \<open>keeps_pace\<close> says that a reader waits for
    the prompt before sending the badge after next.
  \<^item> \<open>Config\<close>: the configuration word (\<open>pragma_config\<close>) and the data-sheet parameters
    of the watchdog, power-up timer and display supply that its settings govern;
    \<open>power_on\<close> is the power-on state with the display's 40 ms counted from power-on.
  \<^item> This theory: the properties that span the components, and the scenarios of the spec.

  \<^bold>\<open>Errors and non-termination.\<close> Every undefined behaviour the code could reach is a
  \<open>None\<close>: an out-of-bounds array store (\<open>store\<close>), a string read past its object
  (\<open>LCD_String\<close>, \<open>UART_Write_Text\<close>, \<open>strcmp\<close>), running off the tag table
  (\<open>tag_lookup\<close>). Waiting for a byte that never comes is also \<open>None\<close>. The theorems show
  that none of the undefined cases is reached, and that the only way \<open>Check_RFID\<close> does not
  return is that fewer than ten accepted characters ever arrive.

  \<^bold>\<open>What the theorems show.\<close> One pass of \<open>Check_RFID\<close> from the loop head grants exactly
  the ten-character identifiers of the table: the relay is switched on once and off again
  3 s later, and the prompt comes back; any other identifier leaves the relay log untouched
  (C1, C2). The reading loop filters the alphabet and stops after exactly ten accepted
  characters (C3); it returns if and only if ten have arrived (C4). Every loop-head state
  has the relay off, the prompt shown and the receiver enabled (C5), and every opening of
  the relay lasts 3 s (C6). No single-character corruption of an entry of the table is
  accepted (C7), and the table entry \<open>5F6G7H8I9J\<close>
  can never match (C8). The display driver delivers each byte intact as two nibbles (C9),
  never touches the relay (C10), prints a text after clearing (C11) and initialises the
  controller from power-on within its timing (C12), but not after a warm restart (C13).
  At power-on the relay output is driven with the unknown latch value for 17.5 ms (C14);
  the boot reaches the prompt without consuming input (C15). The receive wait returns
  exactly when a frame is pending (C16); a byte with a
  line error is still returned (C17); \<open>UART_Write_Text\<close> sends a text in order (C18). The
  spec's scenarios 1 to 3 are C19 to C21.

  Every loop-head state is simulated by a run of the abstract door from its initial
  state, with one relay opening per positive verdict (C22, refinement). On the receive
  block, \<open>n\<close> passes of the loop complete if and only if \<open>10 n\<close> hexadecimal digits
  arrive, for a reader that keeps pace with the firmware (C23); the relay switches
  on 2.705 ms after the tenth digit and the prompt is back 3.005367 s or 2.005281 s after
  it (C24); ten digits sent are read back as exactly that C string (C25). The table scan
  with its early return is equivalent to the reference decision on any terminated buffer
  (C26).
  Two halves of an identifier sent 10 s apart are read as one (C27), and a digit received
  with a framing error is still counted (C28).

  While the firmware reads each byte before the next one completes, as the reading loop
  does, the frame abstraction agrees with the receive block (C29, refinement). During the
  2 s and 3 s delays it does not: after a burst, the reads return its first two bytes
  and then the frames that come later, and the rest of the burst is lost to an overrun
  (C30). \<open>UART_Read\<close>'s error check clears
  OERR at the first read after an overrun, which keeps the receiver from locking up (C31).
  The configuration word turns the watchdog off, without which the controller would
  reset before reaching its loop, and the power-up timer on, without which \<open>LCD_Init\<close>
  would address the display before the 40 ms it needs on a 2.7 V supply (C32).

  On the receive block the whole reading loop computes what \<open>collect\<close> specifies
  (C33, refinement), and a whole pass of \<open>Check_RFID\<close> ends in the state the frame
  abstraction gives, provided no frame but the next one completes before the pass ends
  (C34, refinement). Without that proviso the firmware is wrong. After a grant, a badge
  shown during the hold leaves two digits behind, so an authorized badge shown after the
  door has closed is refused (C36). The wait on TRMT keeps the transmitted frames from
  overlapping (C35).

  \<^bold>\<open>Bounds and time.\<close> Time is a \<open>nat\<close> of microseconds; polling loops advance it by
  1 us per iteration, delays by their argument; instruction cycles are not counted, so every
  duration proved is the programmed one, and the display timing margins only grow on the
  real chip. Counters and registers are \<open>8 word\<close>; the loop counter's bound (at most 10)
  is part of the reading-loop theorem. No fuel is used: the loops are partial functions
  whose returning is proved. The device parameters of \<open>Config\<close> are the data sheet's
  minima (watchdog period 7 ms, power-up timer 28 ms), so its claims hold for every part.

  \<^bold>\<open>Not modelled.\<close> The configuration bits other than the watchdog and the power-up
  timer (brown-out reset, low-voltage programming, code and data protection): they take
  effect when the chip is programmed or its supply drops, not in a run of the program.
  The receive block is composed with \<open>Check_RFID\<close> and the main loop (\<open>Hw_Scan\<close>); the
  loop's progress is proved on it (C23), while the invariants of the loop head (C5, C6,
  C22) are proved on the frame abstraction, which agrees with the receive block for a
  reader that keeps pace (C34) and not for one that does not (C36). Two properties of
  the environment are assumed from the data sheets: the display's DB3 to DB0 read low
  while it is in 8-bit mode, and toggling CREN clears OERR without emptying the FIFO.
  The read-modify-write behaviour of
  \<open>bsf\<close>/\<open>bcf\<close> on port B is not modelled (all its pins are outputs, so reads return the
  latch), nor are display shift and CGRAM (unused). The interrupt routine is modelled as
  what it is, the identity; interrupts are never enabled, so no interleaving with it
  arises.
\<close>

section \<open>The relay log of a run\<close>

text \<open>A relay log made of openings, each closed again exactly 3 s after it opened.\<close>

fun pulses :: "(usec \<times> bool option) list \<Rightarrow> bool" where
  "pulses [] = True"
| "pulses ((t, Some True) # (t', Some False) # r) = (t' = t + 3000000 \<and> pulses r)"
| "pulses _ = False"

lemma pulses_append: "pulses a \<Longrightarrow> pulses b \<Longrightarrow> pulses (a @ b)"
  by (induction a rule: pulses.induct) auto

lemma idle_relay_off: "idle s \<Longrightarrow> relay_out s = Some False"
  by (simp add: idle_def relay_out_def)

section \<open>One pass of the loop\<close>

text \<open>
  C1: from a loop-head state, once ten accepted characters forming a listed identifier have
  arrived, \<open>Check_RFID\<close> returns; it switches the relay on once and off again exactly
  3000 ms later, ends with the prompt shown and the relay off, and has consumed the input up
  to the tenth accepted character.
\<close>

theorem check_rfid_grant:
  assumes "idle s" "collect 10 (rx s) = Some (bs, k)" "bs \<in> bytes_of ` set allowed_ids"
  shows "\<exists>s' t. Check_RFID s = Some s' \<and> idle s' \<and> relay_out s' = Some False \<and>
           rx s' = drop k (rx s) \<and> relay_log s' = relay_log s @ [(t, Some True), (t + 3000000, Some False)]"
  using Check_RFID_step [OF assms(1,2)] assms(3) by (auto dest: idle_relay_off)

theorem check_rfid_grant_witness:
  "idle (boot_state 0 (frames 3000000 ''1A2B3C4D5E'')) \<and>
   collect 10 (rx (boot_state 0 (frames 3000000 ''1A2B3C4D5E''))) = Some (bytes_of ''1A2B3C4D5E'', 10) \<and>
   bytes_of ''1A2B3C4D5E'' \<in> bytes_of ` set allowed_ids \<and>
   (\<exists>s' t. Check_RFID (boot_state 0 (frames 3000000 ''1A2B3C4D5E'')) = Some s' \<and> idle s' \<and>
      relay_out s' = Some False \<and>
      rx s' = drop 10 (rx (boot_state 0 (frames 3000000 ''1A2B3C4D5E''))) \<and>
      relay_log s' = relay_log (boot_state 0 (frames 3000000 ''1A2B3C4D5E'')) @
        [(t, Some True), (t + 3000000, Some False)])"
proof -
  have h: "idle (boot_state 0 (frames 3000000 ''1A2B3C4D5E''))"
    "collect 10 (rx (boot_state 0 (frames 3000000 ''1A2B3C4D5E''))) = Some (bytes_of ''1A2B3C4D5E'', 10)"
    "bytes_of ''1A2B3C4D5E'' \<in> bytes_of ` set allowed_ids"
    by (simp_all add: main_boot_eq frames_def valid_char_def allowed_ids_def)
  show ?thesis
    using h check_rfid_grant [OF h] by blast
qed

text \<open>
  C2: from a loop-head state, once ten accepted characters forming an identifier that is not
  listed have arrived, \<open>Check_RFID\<close> returns to the prompt with the relay log unchanged: the
  relay output never changed during the pass, so the door stayed locked throughout.
\<close>

theorem check_rfid_refuse:
  assumes "idle s" "collect 10 (rx s) = Some (bs, k)" "bs \<notin> bytes_of ` set allowed_ids"
  shows "\<exists>s'. Check_RFID s = Some s' \<and> idle s' \<and> relay_out s' = Some False \<and>
           rx s' = drop k (rx s) \<and> relay_log s' = relay_log s"
  using Check_RFID_step [OF assms(1,2)] assms(3) by (auto dest: idle_relay_off)

theorem check_rfid_refuse_witness:
  "idle (boot_state 0 (frames 3000000 ''0000000000'')) \<and>
   collect 10 (rx (boot_state 0 (frames 3000000 ''0000000000''))) = Some (bytes_of ''0000000000'', 10) \<and>
   bytes_of ''0000000000'' \<notin> bytes_of ` set allowed_ids \<and>
   (\<exists>s'. Check_RFID (boot_state 0 (frames 3000000 ''0000000000'')) = Some s' \<and> idle s' \<and>
      relay_out s' = Some False \<and>
      rx s' = drop 10 (rx (boot_state 0 (frames 3000000 ''0000000000''))) \<and>
      relay_log s' = relay_log (boot_state 0 (frames 3000000 ''0000000000'')))"
proof -
  have h: "idle (boot_state 0 (frames 3000000 ''0000000000''))"
    "collect 10 (rx (boot_state 0 (frames 3000000 ''0000000000''))) = Some (bytes_of ''0000000000'', 10)"
    "bytes_of ''0000000000'' \<notin> bytes_of ` set allowed_ids"
    by (simp_all add: main_boot_eq frames_def valid_char_def allowed_ids_def)
  show ?thesis
    using h check_rfid_refuse [OF h] by blast
qed

text \<open>
  C4: from a loop-head state, \<open>Check_RFID\<close> returns if and only if at least ten hexadecimal
  digits are still to come on the serial line; otherwise it waits forever in
  \<open>UART_Read\<close>. No input makes it fail in any other way (no out-of-bounds store, no read
  past a string).
\<close>

theorem check_rfid_returns:
  assumes "idle s"
  shows "Check_RFID s \<noteq> None \<longleftrightarrow> 10 \<le> length (filter hex_digit (map f_data (rx s)))"
proof (cases "collect 10 (rx s)")
  case None
  then show ?thesis
    using Check_RFID_blocks [OF assms] collect_None_iff [of 10 "rx s"] by (simp add: valid_char_hex)
next
  case (Some r)
  then obtain bs k where c: "collect 10 (rx s) = Some (bs, k)" by (cases r) blast
  then have "\<not> length (filter hex_digit (map f_data (rx s))) < 10"
    using collect_None_iff [of 10 "rx s"] by (simp add: valid_char_hex)
  then show ?thesis
    using Check_RFID_step [OF assms c] by auto
qed

theorem check_rfid_returns_witness:
  "idle (boot_state 0 (frames 3000000 ''1A-2B*3C4D5E'')) \<and>
   Check_RFID (boot_state 0 (frames 3000000 ''1A-2B*3C4D5E'')) \<noteq> None \<and>
   idle (boot_state 0 (frames 3000000 ''1A2B3C4'')) \<and>
   Check_RFID (boot_state 0 (frames 3000000 ''1A2B3C4'')) = None"
proof -
  have h: "idle (boot_state 0 (frames 3000000 ''1A-2B*3C4D5E''))"
    "idle (boot_state 0 (frames 3000000 ''1A2B3C4''))"
    using main_boot_eq by blast+
  have "10 \<le> length (filter hex_digit (map f_data (rx (boot_state 0 (frames 3000000 ''1A-2B*3C4D5E'')))))"
    "\<not> 10 \<le> length (filter hex_digit (map f_data (rx (boot_state 0 (frames 3000000 ''1A2B3C4'')))))"
    by (simp_all add: main_boot_eq frames_def hex_digit_def)
  then show ?thesis
    using h check_rfid_returns [OF h(1)] check_rfid_returns [OF h(2)] by blast
qed

section \<open>The main loop\<close>

text \<open>
  C5: in every state the program reaches at the head of \<open>while(1)\<close>, from any power-on
  value of PORTB and any input, the relay output is driven low, the prompt
  \<open>Scan Badge...\<close> is on line 1, the receiver is enabled, the display is configured and
  idle, no display timing violation has ever occurred, and the tag buffer has its 11 bytes.
\<close>

theorem loop_invariant:
  assumes "loop_head (por pb inp) s"
  shows "relay_out s = Some False \<and> line1 (lcd s) = line_text ''Scan Badge...'' \<and> rcsta s = 0x90 \<and>
         configured (lcd s) \<and> lcd_ready s \<and> timing_ok (lcd s) \<and> length (rfid_tag s) = 11"
  using loop_head_idle [OF assms] by (simp add: idle_def relay_out_def)

theorem loop_invariant_witness:
  "loop_head (por 0 (frames 0 ''1A2B3C4D5E'')) (boot_state 0 (frames 0 ''1A2B3C4D5E'')) \<and>
   relay_out (boot_state 0 (frames 0 ''1A2B3C4D5E'')) = Some False \<and>
   line1 (lcd (boot_state 0 (frames 0 ''1A2B3C4D5E''))) = line_text ''Scan Badge...''"
proof -
  have h: "loop_head (por 0 (frames 0 ''1A2B3C4D5E'')) (boot_state 0 (frames 0 ''1A2B3C4D5E''))"
    using main_boot_eq by (blast intro: loop_head.boot)
  show ?thesis
    using h loop_invariant [OF h] by blast
qed

text \<open>
  C6: in every reachable loop-head state the relay log is the log of the bootstrap
  followed by complete pulses only: every time the relay was switched on, it was switched
  off again exactly 3000 ms later, and it is off now.
\<close>

theorem relay_pulses:
  assumes "loop_head (por pb inp) s"
  shows "\<exists>p. relay_log s = boot_log pb @ p \<and> pulses p"
  using assms
proof (induction rule: loop_head.induct)
  case (boot s)
  then show ?case
    using main_boot_eq [of pb inp] by (intro exI [of _ "[]"]) (simp add: boot_log_def)
next
  case (check s s')
  then obtain p where p: "relay_log s = boot_log pb @ p" "pulses p" by blast
  have i: "idle s"
    using loop_head_idle [OF check.hyps(1)] by blast
  show ?case
  proof (cases "collect 10 (rx s)")
    case None
    with check.hyps(2) show ?thesis by (simp add: Check_RFID_blocks [OF i])
  next
    case (Some r)
    then obtain bs k where c: "collect 10 (rx s) = Some (bs, k)" by (cases r) blast
    let ?t = "arrive (clock s) (take k (rx s)) + 2705"
    let ?q = "if bs \<in> bytes_of ` set allowed_ids then [(?t, Some True), (?t + 3000000, Some False)] else []"
    have "relay_log s' = relay_log s @ ?q"
      using Check_RFID_step [OF i c] check.hyps(2) by (auto simp: add.assoc)
    moreover have "pulses ?q" by simp
    ultimately show ?thesis
      using p pulses_append by (intro exI [of _ "p @ ?q"]) simp
  qed
qed

theorem relay_pulses_witness:
  "loop_head (por 1 []) (boot_state 1 []) \<and>
   (\<exists>p. relay_log (boot_state 1 []) = boot_log 1 @ p \<and> pulses p)"
proof -
  have h: "loop_head (por 1 []) (boot_state 1 [])"
    using main_boot_eq by (blast intro: loop_head.boot)
  show ?thesis
    using h relay_pulses [OF h] by blast
qed

section \<open>The policy in effect\<close>

text \<open>
  C8: the policy \<open>Check_RFID\<close> enforces is narrower than the table: a completed pass from the
  loop head opens the relay exactly when the ten digits read are \<open>1A2B3C4D5E\<close> or
  \<open>A1B2C3D4E5\<close>. The table's entry \<open>5F6G7H8I9J\<close> holds \<open>G\<close>, \<open>H\<close>, \<open>I\<close> and \<open>J\<close>, which
  the reading loop discards, so no badge can ever match it.
\<close>

theorem effective_policy:
  assumes "idle s" "Check_RFID s = Some s'"
  shows "relay_log s' \<noteq> relay_log s \<longleftrightarrow>
           take 10 (rfid_tag s') \<in> {bytes_of ''1A2B3C4D5E'', bytes_of ''A1B2C3D4E5''}"
proof (cases "collect 10 (rx s)")
  case None
  with assms show ?thesis by (simp add: Check_RFID_blocks)
next
  case (Some r)
  then obtain bs k where c: "collect 10 (rx s) = Some (bs, k)" by (cases r) blast
  have len: "length bs = 10" and v: "set bs \<subseteq> Collect valid_char"
    using collect_Some [OF c] by blast+
  have "bs \<noteq> bytes_of ''5F6G7H8I9J''"
    using v by (auto simp: valid_char_def)
  then have "bs \<in> bytes_of ` set allowed_ids \<longleftrightarrow> bs \<in> {bytes_of ''1A2B3C4D5E'', bytes_of ''A1B2C3D4E5''}"
    by (auto simp: allowed_ids_def)
  with Check_RFID_step [OF assms(1) c] assms(2) len show ?thesis
    by auto
qed

theorem effective_policy_witness:
  "idle (boot_state 0 (frames 3000000 ''1A2B3C4D5E'')) \<and>
   Check_RFID (boot_state 0 (frames 3000000 ''1A2B3C4D5E'')) =
     Some (the (Check_RFID (boot_state 0 (frames 3000000 ''1A2B3C4D5E'')))) \<and>
   relay_log (the (Check_RFID (boot_state 0 (frames 3000000 ''1A2B3C4D5E'')))) \<noteq>
     relay_log (boot_state 0 (frames 3000000 ''1A2B3C4D5E'')) \<and>
   take 10 (rfid_tag (the (Check_RFID (boot_state 0 (frames 3000000 ''1A2B3C4D5E''))))) =
     bytes_of ''1A2B3C4D5E''"
proof -
  let ?s = "boot_state 0 (frames 3000000 ''1A2B3C4D5E'')"
  have i: "idle ?s" "collect 10 (rx ?s) = Some (bytes_of ''1A2B3C4D5E'', 10)"
    by (simp_all add: main_boot_eq frames_def valid_char_def)
  then obtain s' where s': "Check_RFID ?s = Some s'" "rfid_tag s' = bytes_of ''1A2B3C4D5E'' @ [0]"
    using Check_RFID_step by blast
  then have h: "idle ?s" "Check_RFID ?s = Some (the (Check_RFID ?s))"
    using i by simp_all
  show ?thesis
    using h effective_policy [OF h] s' by simp
qed

section \<open>The bootstrap\<close>

text \<open>
  C14: \<open>System_Init\<close> makes port B an output (\<open>TRISB = 0x00\<close>) before it clears the relay
  latch (\<open>RELAY_PIN = 0\<close>, after \<open>LCD_Init\<close>). PORTB's latch is undefined at power-on;
  when it comes up with RB0 set, the relay is energised from the first instruction until
  17.515 ms later: the door is unlocked briefly on every such boot.
\<close>

theorem boot_relay_glitch:
  assumes "bit pb 0"
  shows "\<exists>s. main_boot (por pb inp) = Some s \<and> relay_log s = [(0, Some True), (17515, Some False)]"
  using assms main_boot_eq [of pb inp] by simp

theorem boot_relay_glitch_witness:
  "bit (1 :: byte) 0 \<and> (\<exists>s. main_boot (por 1 []) = Some s \<and> relay_log s = [(0, Some True), (17515, Some False)])"
  using boot_relay_glitch [of 1 "[]"] by simp

text \<open>
  C15 (scenario 4): from power-on, \<open>main\<close> reaches its loop with the relay off, the prompt
  shown after the 2 s splash screen, the display configured without timing violation, and
  the serial input untouched, 2.023 s after reset.
\<close>

theorem boot_reaches_prompt:
  "\<exists>s. main_boot (por pb inp) = Some s \<and> loop_head (por pb inp) s \<and> rx s = inp \<and>
       relay_out s = Some False \<and> line1 (lcd s) = line_text ''Scan Badge...'' \<and>
       configured (lcd s) \<and> timing_ok (lcd s) \<and> clock s = 2022968"
  using main_boot_eq [of pb inp] idle_relay_off
  by (auto simp: idle_def intro: loop_head.boot)

section \<open>The scenarios of the specification\<close>

text \<open>One pass of the loop right after the bootstrap, for a given input.\<close>

lemma Check_RFID_boot:
  assumes "collect 10 inp = Some (bs, k)"
  shows "\<exists>s'. Check_RFID (boot_state 0 inp) = Some s' \<and> rfid_tag s' = bs @ [0] \<and> rx s' = drop k inp \<and>
           line1 (lcd s') = line_text ''Scan Badge...'' \<and>
           relay_log s' = (0, Some False) #
             (if bs \<in> bytes_of ` set allowed_ids
              then [(arrive 2022968 (take k inp) + 2705, Some True),
                    (arrive 2022968 (take k inp) + 3002705, Some False)]
              else [])"
proof -
  have "idle (boot_state 0 inp)" "rx (boot_state 0 inp) = inp" "clock (boot_state 0 inp) = 2022968"
    "relay_log (boot_state 0 inp) = [(0, Some False)]"
    using main_boot_eq [of 0 inp] by simp_all
  with Check_RFID_step [of "boot_state 0 inp" bs k] assms show ?thesis
    by (auto simp: idle_def)
qed

text \<open>
  C19 (scenario 1): after boot, the reader sends \<open>1A2B3C4D5E\<close> at 9600 baud from t = 3 s.
  The last digit arrives at 3.009360 s; access is granted, the relay is switched on at
  3.012065 s (after \<open>Acces Autorise\<close> is printed) and off at 6.012065 s, and the loop
  comes back to the prompt.
\<close>

theorem scenario_authorized:
  "\<exists>s'. Check_RFID (boot_state 0 (frames 3000000 ''1A2B3C4D5E'')) = Some s' \<and>
     relay_log s' = [(0, Some False), (3012065, Some True), (6012065, Some False)] \<and>
     line1 (lcd s') = line_text ''Scan Badge...'' \<and> rx s' = [] \<and>
     loop_head (por 0 (frames 3000000 ''1A2B3C4D5E'')) s'"
proof -
  have c: "collect 10 (frames 3000000 ''1A2B3C4D5E'') = Some (bytes_of ''1A2B3C4D5E'', 10)"
    "arrive 2022968 (take 10 (frames 3000000 ''1A2B3C4D5E'')) = 3009360"
    "drop 10 (frames 3000000 ''1A2B3C4D5E'') = []"
    "bytes_of ''1A2B3C4D5E'' \<in> bytes_of ` set allowed_ids"
    by (simp_all add: frames_def valid_char_def allowed_ids_def)
  have l: "loop_head (por 0 (frames 3000000 ''1A2B3C4D5E'')) (boot_state 0 (frames 3000000 ''1A2B3C4D5E''))"
    using main_boot_eq by (blast intro: loop_head.boot)
  from Check_RFID_boot [OF c(1)] c(2-4) l show ?thesis
    by (auto intro: loop_head.check)
qed

text \<open>
  C20 (scenario 2): after boot, the reader sends \<open>0000000000\<close>; access is refused, the
  relay output never changes, and the loop comes back to the prompt.
\<close>

theorem scenario_refused:
  "\<exists>s'. Check_RFID (boot_state 0 (frames 3000000 ''0000000000'')) = Some s' \<and>
     relay_log s' = [(0, Some False)] \<and> line1 (lcd s') = line_text ''Scan Badge...'' \<and>
     rfid_tag s' = bytes_of ''0000000000'' @ [0] \<and> rx s' = []"
proof -
  have c: "collect 10 (frames 3000000 ''0000000000'') = Some (bytes_of ''0000000000'', 10)"
    "drop 10 (frames 3000000 ''0000000000'') = []"
    "bytes_of ''0000000000'' \<notin> bytes_of ` set allowed_ids"
    by (simp_all add: frames_def valid_char_def allowed_ids_def)
  from Check_RFID_boot [OF c(1)] c(2,3) show ?thesis
    by auto
qed

text \<open>
  C21 (scenario 3): the reader sends \<open>1A-2B*3C4D5E\<close>; the dash and the asterisk are
  discarded, the buffer holds \<open>1A2B3C4D5E\<close>, and access is granted as in scenario 1, one
  frame time later per discarded byte.
\<close>

theorem scenario_filtered:
  "\<exists>s'. Check_RFID (boot_state 0 (frames 3000000 ''1A-2B*3C4D5E'')) = Some s' \<and>
     rfid_tag s' = bytes_of ''1A2B3C4D5E'' @ [0] \<and>
     relay_log s' = [(0, Some False), (3014145, Some True), (6014145, Some False)] \<and>
     line1 (lcd s') = line_text ''Scan Badge...'' \<and> rx s' = []"
proof -
  have c: "collect 10 (frames 3000000 ''1A-2B*3C4D5E'') = Some (bytes_of ''1A2B3C4D5E'', 12)"
    "arrive 2022968 (take 12 (frames 3000000 ''1A-2B*3C4D5E'')) = 3011440"
    "drop 12 (frames 3000000 ''1A-2B*3C4D5E'') = []"
    "bytes_of ''1A2B3C4D5E'' \<in> bytes_of ` set allowed_ids"
    by (simp_all add: frames_def valid_char_def allowed_ids_def)
  from Check_RFID_boot [OF c(1)] c(2-4) show ?thesis
    by auto
qed

text \<open>
  C27: a scan is not a message. Five digits sent at t = 3 s and five more at t = 13 s are
  read as one identifier: with \<open>1A2B3\<close> and \<open>C4D5E\<close> the door opens at 13.006865 s. The
  reading loop has no timeout and no resynchronisation, so an interrupted scan is
  completed by the digits of the next one.
\<close>

theorem scenario_split_scan:
  "\<exists>s'. Check_RFID (boot_state 0 (frames 3000000 ''1A2B3'' @ frames 13000000 ''C4D5E'')) = Some s' \<and>
     rfid_tag s' = bytes_of ''1A2B3C4D5E'' @ [0] \<and>
     relay_log s' = [(0, Some False), (13006865, Some True), (16006865, Some False)]"
proof -
  have c: "collect 10 (frames 3000000 ''1A2B3'' @ frames 13000000 ''C4D5E'') =
      Some (bytes_of ''1A2B3C4D5E'', 10)"
    "arrive 2022968 (take 10 (frames 3000000 ''1A2B3'' @ frames 13000000 ''C4D5E'')) = 13004160"
    "bytes_of ''1A2B3C4D5E'' \<in> bytes_of ` set allowed_ids"
    by (simp_all add: frames_def valid_char_def allowed_ids_def)
  from Check_RFID_boot [OF c(1)] c(2,3) show ?thesis
    by auto
qed

text \<open>
  C28: a byte received with a framing error still counts. The reader sends
  \<open>1A2B3C4D5E\<close> and the \<open>C\<close> arrives with a framing error: \<open>UART_Read\<close> resets the
  receiver and returns it, the digit is stored, and the door opens as in scenario 1,
  where the specification has the erroneous byte dropped (leaving nine digits and the
  loop still waiting).
\<close>

theorem scenario_line_error:
  "\<exists>s'. Check_RFID (boot_state 0 (frames 3000000 ''1A2B3'' @
        \<lparr>f_at = 3005200, f_data = of_char CHR ''C'', f_ferr = True, f_oerr = False\<rparr> #
        frames 3006240 ''4D5E'')) = Some s' \<and>
     rfid_tag s' = bytes_of ''1A2B3C4D5E'' @ [0] \<and>
     relay_log s' = [(0, Some False), (3012065, Some True), (6012065, Some False)]"
proof -
  have c: "collect 10 (frames 3000000 ''1A2B3'' @
        \<lparr>f_at = 3005200, f_data = of_char CHR ''C'', f_ferr = True, f_oerr = False\<rparr> #
        frames 3006240 ''4D5E'') = Some (bytes_of ''1A2B3C4D5E'', 10)"
    "arrive 2022968 (take 10 (frames 3000000 ''1A2B3'' @
        \<lparr>f_at = 3005200, f_data = of_char CHR ''C'', f_ferr = True, f_oerr = False\<rparr> #
        frames 3006240 ''4D5E'')) = 3009360"
    "bytes_of ''1A2B3C4D5E'' \<in> bytes_of ` set allowed_ids"
    by (simp_all add: frames_def valid_char_def allowed_ids_def)
  from Check_RFID_boot [OF c(1)] c(2,3) show ?thesis
    by auto
qed

section \<open>Several scans\<close>

text \<open>
  C23: every identifier sent is answered, on the receive block, by a reader that keeps
  pace with the firmware. From a loop-head state, \<open>n\<close> passes of the main loop complete
  if and only if the line carries at least \<open>10 n\<close> hexadecimal digits, whatever bytes
  surround them, provided that at the end of each pass no frame but the next one has
  completed. C36 shows what happens to a reader that does not keep pace.
\<close>

theorem run_checks_hw_progress:
  assumes "idle s" "rx_corr_at u s" "keeps_pace n s"
  shows "run_checks_hw n (s\<lparr>rx := r\<rparr>) u \<noteq> None \<longleftrightarrow> 10 * n \<le> length (filter hex_digit (map f_data (rx s)))"
  using assms
proof (induction n arbitrary: s u)
  case 0
  then show ?case by simp
next
  case (Suc n)
  show ?case
  proof (cases "collect 10 (rx s)")
    case None
    then show ?thesis
      using Check_RFID_hw_blocks [OF Suc.prems(2,1) None, of r] collect_None_iff [of 10 "rx s"]
      by (simp add: valid_char_hex)
  next
    case (Some p)
    then obtain bs k where c: "collect 10 (rx s) = Some (bs, k)" by (cases p) blast
    then obtain s' where s': "Check_RFID s = Some s'" "idle s'" "rx s' = drop k (rx s)"
      using Check_RFID_step [OF Suc.prems(1) c] by blast
    with Suc.prems(3) have p: "\<forall>g\<in>set (drop 1 (rx s')). clock s' < f_at g" "keeps_pace n s'"
      by simp_all
    obtain u1 where hw: "Check_RFID_hw (s\<lparr>rx := r\<rparr>) u = Some (s'\<lparr>rx := r\<rparr>, u1)"
      and u1: "rx_corr_at u1 (tag_state 0 s bs k)"
      using Check_RFID_hw_step [OF Suc.prems(2,1) c s'(1)] by blast
    have "rcsta s' = 0x90" using s'(2) unfolding idle_def by blast
    with s'(3) have "rx s' = rx (tag_state 0 s bs k)" "rcsta s' = 0x90"
      by (simp_all add: tag_state_def)
    then have "rx_corr_at u1 s'"
      by (rule rx_corr_at_later [OF u1 _ _ p(1)])
    note IH = Suc.IH [OF s'(2) this p(2)]
    have "10 \<le> length (filter hex_digit (map f_data (rx s)))"
      using c collect_None_iff [of 10 "rx s"] by (simp add: valid_char_hex)
    moreover have "filter hex_digit (map f_data (rx s')) = drop 10 (filter hex_digit (map f_data (rx s)))"
      using collect_drop_filter [OF c] s'(3) by (simp add: valid_char_hex)
    ultimately show ?thesis
      using IH hw by auto
  qed
qed

theorem run_checks_hw_progress_witness:
  "idle (boot_state 0 (frames 3000000 ''1A2B3C4D5E'' @ frames 7000000 ''0000000000'')) \<and>
   rx_corr_at \<lparr>u_clock = 0, line = frames 3000000 ''1A2B3C4D5E'' @ frames 7000000 ''0000000000'',
       fifo = [], oerr = False\<rparr> (boot_state 0 (frames 3000000 ''1A2B3C4D5E'' @ frames 7000000 ''0000000000'')) \<and>
   keeps_pace 2 (boot_state 0 (frames 3000000 ''1A2B3C4D5E'' @ frames 7000000 ''0000000000'')) \<and>
   run_checks_hw 2 ((boot_state 0 (frames 3000000 ''1A2B3C4D5E'' @ frames 7000000 ''0000000000''))\<lparr>rx := []\<rparr>)
     \<lparr>u_clock = 0, line = frames 3000000 ''1A2B3C4D5E'' @ frames 7000000 ''0000000000'', fifo = [], oerr = False\<rparr> \<noteq> None"
proof -
  let ?i = "frames 3000000 ''1A2B3C4D5E'' @ frames 7000000 ''0000000000''"
  let ?u = "\<lparr>u_clock = 0, line = ?i, fifo = [], oerr = False\<rparr>"
  let ?s = "boot_state 0 ?i"
  have e: "clock ?s = 2022968" "rx ?s = ?i" "idle ?s"
    using main_boot_eq [of 0 ?i] by simp_all
  then have h: "rx_corr_at ?u ?s"
    by (simp add: rx_corr_at_def rx_corr_def idle_def frames_def)
  have c: "collect 10 (rx ?s) = Some (bytes_of ''1A2B3C4D5E'', 10)" "arrive 2022968 (take 10 ?i) = 3009360"
    "drop 10 ?i = frames 7000000 ''0000000000''" "bytes_of ''1A2B3C4D5E'' \<in> bytes_of ` set allowed_ids"
    using e(2) by (simp_all add: frames_def valid_char_def allowed_ids_def)
  obtain s1 where s1: "Check_RFID ?s = Some s1" "idle s1" "rx s1 = frames 7000000 ''0000000000''"
    "clock s1 = 6014727"
    using Check_RFID_step [OF e(3) c(1)] c e by auto
  have c1: "collect 10 (rx s1) = Some (bytes_of ''0000000000'', 10)" "drop 10 (rx s1) = []"
    using s1(3) by (simp_all add: frames_def valid_char_def)
  obtain s2 where s2: "Check_RFID s1 = Some s2" "rx s2 = []"
    using Check_RFID_step [OF s1(2) c1(1)] c1(2) by auto
  have "\<forall>g\<in>set (drop 1 (rx s1)). clock s1 < f_at g"
    using s1(3,4) by (simp add: frames_def)
  then have k: "keeps_pace 2 ?s"
    using s1(1) s2 by (simp add: numeral_2_eq_2)
  show ?thesis
    using e(3) h k run_checks_hw_progress [OF e(3) h k, of "[]"] e(2) by (simp add: frames_def hex_digit_def)
qed

text \<open>
  C24: response times. When the digits arrive in order after the prompt is shown, a
  granted pass switches the relay on 2.705 ms after the tenth digit arrives (the time to
  print \<open>Acces Autorise\<close>), off exactly 3000 ms later, and is back at the prompt
  3.005367 s after that digit; a refused pass is back at the prompt 2.005281 s after it,
  without touching the relay.
\<close>

theorem response_time:
  assumes "idle s" "collect 10 (rx s) = Some (bs, k)"
    and "sorted (map f_at (rx s))" "clock s \<le> f_at (hd (rx s))"
  shows "\<exists>s'. Check_RFID s = Some s' \<and>
           clock s' = f_at (rx s ! (k - 1)) + (if bs \<in> bytes_of ` set allowed_ids then 3005367 else 2005281) \<and>
           relay_log s' = relay_log s @
             (if bs \<in> bytes_of ` set allowed_ids
              then [(f_at (rx s ! (k - 1)) + 2705, Some True), (f_at (rx s ! (k - 1)) + 3002705, Some False)]
              else [])"
proof -
  have "0 < k" "k \<le> length (rx s)"
    using collect_Some [OF assms(2)] by simp_all
  moreover from this have "rx s \<noteq> []" by auto
  ultimately have "arrive (clock s) (take k (rx s)) = f_at (rx s ! (k - 1))"
    using arrive_sorted [of "rx s" "clock s" k] assms(3,4) by blast
  with Check_RFID_step [OF assms(1,2)] show ?thesis
    by auto
qed

theorem response_time_witness:
  "idle (boot_state 0 (frames 3000000 ''0000000000'')) \<and>
   collect 10 (rx (boot_state 0 (frames 3000000 ''0000000000''))) = Some (bytes_of ''0000000000'', 10) \<and>
   sorted (map f_at (rx (boot_state 0 (frames 3000000 ''0000000000'')))) \<and>
   clock (boot_state 0 (frames 3000000 ''0000000000'')) \<le>
     f_at (hd (rx (boot_state 0 (frames 3000000 ''0000000000'')))) \<and>
   (\<exists>s'. Check_RFID (boot_state 0 (frames 3000000 ''0000000000'')) = Some s' \<and> clock s' = 5014641)"
proof -
  let ?s = "boot_state 0 (frames 3000000 ''0000000000'')"
  have h: "idle ?s" "collect 10 (rx ?s) = Some (bytes_of ''0000000000'', 10)"
    "sorted (map f_at (rx ?s))" "clock ?s \<le> f_at (hd (rx ?s))"
    "f_at (rx ?s ! 9) = 3009360"
    by (simp_all add: main_boot_eq frames_def valid_char_def)
  have "bytes_of ''0000000000'' \<notin> bytes_of ` set allowed_ids"
    by (simp add: allowed_ids_def)
  then show ?thesis
    using h response_time [OF h(1-4)] by auto
qed

text \<open>
  C25: round trip from the reader to the buffer. When the next frames on the line carry
  exactly the ten hexadecimal digits of an identifier, \<open>Check_RFID\<close> reads them back into
  \<open>rfid_tag\<close> as that identifier's C string and consumes nothing after them.
\<close>

theorem badge_roundtrip:
  assumes "idle s" "rx s = fs @ rest" "map f_data fs = bytes_of cs" "length cs = 10"
    and "set (bytes_of cs) \<subseteq> Collect hex_digit"
  shows "\<exists>s'. Check_RFID s = Some s' \<and> c_contents (rfid_tag s') = bytes_of cs \<and> rx s' = rest"
proof -
  have l: "length fs = 10"
    using assms(3,4) by (metis length_bytes_of length_map)
  have v: "list_all (\<lambda>f. valid_char (f_data f)) fs"
    using assms(3,5) by (auto simp: list_all_iff valid_char_hex dest!: arg_cong [where f = set])
  have "collect 10 (rx s) = Some (bytes_of cs, 10)"
    using collect_valid [OF v, of rest] assms(2,3) l by simp
  moreover have "0 \<notin> set (bytes_of cs)"
    using assms(5) by (auto simp: hex_digit_def)
  ultimately show ?thesis
    using Check_RFID_step [OF assms(1)] assms(2) l by fastforce
qed

theorem badge_roundtrip_witness:
  "idle (boot_state 0 (frames 3000000 ''A1B2C3D4E5'')) \<and>
   rx (boot_state 0 (frames 3000000 ''A1B2C3D4E5'')) = frames 3000000 ''A1B2C3D4E5'' @ [] \<and>
   map f_data (frames 3000000 ''A1B2C3D4E5'') = bytes_of ''A1B2C3D4E5'' \<and>
   length ''A1B2C3D4E5'' = 10 \<and> set (bytes_of ''A1B2C3D4E5'') \<subseteq> Collect hex_digit \<and>
   (\<exists>s'. Check_RFID (boot_state 0 (frames 3000000 ''A1B2C3D4E5'')) = Some s' \<and>
      c_contents (rfid_tag s') = bytes_of ''A1B2C3D4E5'' \<and> rx s' = [])"
proof -
  have h: "idle (boot_state 0 (frames 3000000 ''A1B2C3D4E5''))"
    "rx (boot_state 0 (frames 3000000 ''A1B2C3D4E5'')) = frames 3000000 ''A1B2C3D4E5'' @ []"
    "map f_data (frames 3000000 ''A1B2C3D4E5'') = bytes_of ''A1B2C3D4E5''"
    "length ''A1B2C3D4E5'' = 10" "set (bytes_of ''A1B2C3D4E5'') \<subseteq> Collect hex_digit"
    by (simp_all add: main_boot_eq frames_def hex_digit_def)
  show ?thesis
    using h badge_roundtrip [OF h] by blast
qed

end
